(* ===== verification/Cql_Prelude.thy ===== *)
theory Cql_Prelude
  imports
    Complex_Main
    "HOL-Library.AList"
    "HOL-Library.Char_ord"
    "HOL-Library.List_Lexorder"
    "HOL-Library.Product_Lexorder"
begin

text \<open>
  Prelude of the development: what the components share.
  Python code that may raise and that mutates objects is a function of type
  \<open>('e, 's, 'a) prog\<close>: from the state before to the exception or the result, and the state
  after. An exception does not undo what was mutated before it was raised, so the state
  comes back in both cases.
  The rest is the part of the Python runtime and of SQLite the components use:
  dictionaries (association lists in insertion order), slices, \<open>int()\<close> and decimal
  formatting, \<open>str.strip\<close>, \<open>LIMIT\<close>/\<open>OFFSET\<close>, transactions.
\<close>

named_theorems prog_simps \<open>rules that run a program one step\<close>
named_theorems py_defs \<open>definitions of the model that proofs unfold as a group\<close>

section \<open>Programs: state passing with exceptions\<close>

type_synonym ('e, 's, 'a) prog = "'s \<Rightarrow> ('e + 'a) \<times> 's"

definition ret :: "'a \<Rightarrow> ('e, 's, 'a) prog" where
  "ret x = (\<lambda>s. (Inr x, s))"

definition raise :: "'e \<Rightarrow> ('e, 's, 'a) prog" where
  "raise e = (\<lambda>s. (Inl e, s))"

definition bindP :: "('e, 's, 'a) prog \<Rightarrow> ('a \<Rightarrow> ('e, 's, 'b) prog) \<Rightarrow> ('e, 's, 'b) prog" where
  "bindP m f = (\<lambda>s. case m s of (Inl e, s') \<Rightarrow> (Inl e, s') | (Inr x, s') \<Rightarrow> f x s')"

definition readP :: "('s \<Rightarrow> 'a) \<Rightarrow> ('e, 's, 'a) prog" where
  "readP f = (\<lambda>s. (Inr (f s), s))"

definition modP :: "('s \<Rightarrow> 's) \<Rightarrow> ('e, 's, unit) prog" where
  "modP f = (\<lambda>s. (Inr (), f s))"

definition liftE :: "'e + 'a \<Rightarrow> ('e, 's, 'a) prog" where
  "liftE r = (\<lambda>s. (r, s))"

definition guardP :: "bool \<Rightarrow> 'e \<Rightarrow> ('e, 's, unit) prog" where
  \<comment> \<open>\<open>if not b: raise e\<close>\<close>
  "guardP b e = (if b then ret () else raise e)"

lemma ret_run [simp, prog_simps]: "ret x s = (Inr x, s)"
  by (simp add: ret_def)

lemma raise_run [simp, prog_simps]: "raise e s = (Inl e, s)"
  by (simp add: raise_def)

lemma readP_run [simp, prog_simps]: "readP f s = (Inr (f s), s)"
  by (simp add: readP_def)

lemma modP_run [simp, prog_simps]: "modP f s = (Inr (), f s)"
  by (simp add: modP_def)

lemma liftE_run [simp, prog_simps]: "liftE r s = (r, s)"
  by (simp add: liftE_def)

lemma guardP_True [simp, prog_simps]: "guardP True e = ret ()"
  by (simp add: guardP_def)

lemma guardP_False [simp, prog_simps]: "guardP False e = raise e"
  by (simp add: guardP_def)

lemma guardP_run: "guardP b e s = (if b then Inr () else Inl e, s)"
  by (simp add: guardP_def)

lemma bindP_run:
  "bindP m f s = (case m s of (Inl e, s') \<Rightarrow> (Inl e, s') | (Inr x, s') \<Rightarrow> f x s')"
  by (simp add: bindP_def)

lemma bindP_Inr [prog_simps]: "m s = (Inr x, s') \<Longrightarrow> bindP m f s = f x s'"
  by (simp add: bindP_run)

lemma bindP_Inl [prog_simps]: "m s = (Inl e, s') \<Longrightarrow> bindP m f s = (Inl e, s')"
  by (simp add: bindP_run)

lemma bindP_ret [simp]: "bindP (ret x) f = f x"
  by (simp add: bindP_def fun_eq_iff)

lemma bindP_raise [simp]: "bindP (raise e) f = raise e"
  by (simp add: bindP_def fun_eq_iff)

lemma bindP_readP [simp]: "bindP (readP g) f s = f (g s) s"
  by (simp add: bindP_run)

lemma bindP_modP [simp]: "bindP (modP g) f s = f () (g s)"
  by (simp add: bindP_run)

lemma bindP_liftE [simp]:
  "bindP (liftE (Inr x)) f = f x" "bindP (liftE (Inl e)) f = raise e"
  by (simp_all add: bindP_def liftE_def raise_def fun_eq_iff)

lemma bindP_InrD:
  assumes "bindP m f s = (Inr y, s2)"
  obtains x s1 where "m s = (Inr x, s1)" and "f x s1 = (Inr y, s2)"
  using assms by (auto simp: bindP_run split: prod.splits sum.splits)

lemma bindP_InlD:
  assumes "bindP m f s = (Inl e, s2)"
  obtains "m s = (Inl e, s2)" | x s1 where "m s = (Inr x, s1)" and "f x s1 = (Inl e, s2)"
  using assms by (auto simp: bindP_run split: prod.splits sum.splits)

text \<open>A program that keeps an invariant, whatever its outcome.\<close>

named_theorems keeps_rules \<open>how an invariant is carried through a program\<close>

definition keeps :: "('s \<Rightarrow> bool) \<Rightarrow> ('e, 's, 'a) prog \<Rightarrow> bool" where
  "keeps P m \<longleftrightarrow> (\<forall>s. P s \<longrightarrow> P (snd (m s)))"

lemma keepsD: "keeps P m \<Longrightarrow> P s \<Longrightarrow> m s = (r, s') \<Longrightarrow> P s'"
  by (metis keeps_def snd_conv)

lemma keeps_ret [keeps_rules, simp]: "keeps P (ret x)"
  and keeps_raise [keeps_rules, simp]: "keeps P (raise e)"
  and keeps_readP [keeps_rules, simp]: "keeps P (readP f)"
  and keeps_liftE [keeps_rules, simp]: "keeps P (liftE r)"
  and keeps_guardP [keeps_rules, simp]: "keeps P (guardP b e)"
  by (simp_all add: keeps_def guardP_run)

lemma keeps_bindP [keeps_rules]: "keeps P m \<Longrightarrow> (\<And>x. keeps P (f x)) \<Longrightarrow> keeps P (bindP m f)"
  by (auto simp: keeps_def bindP_run split: prod.splits sum.splits)

lemma keeps_case_option [keeps_rules]:
  "keeps P f \<Longrightarrow> (\<And>x. keeps P (g x)) \<Longrightarrow> keeps P (case y of None \<Rightarrow> f | Some x \<Rightarrow> g x)"
  and keeps_case_prod [keeps_rules]: "(\<And>a b. keeps P (h a b)) \<Longrightarrow> keeps P (case z of (a, b) \<Rightarrow> h a b)"
  and keeps_if [keeps_rules]: "keeps P m \<Longrightarrow> keeps P n \<Longrightarrow> keeps P (if b then m else n)"
  by (auto split: option.split prod.split)

lemma keeps_read_bindP: "(\<And>x. \<exists>s. P s \<and> x = g s \<Longrightarrow> keeps P (f x)) \<Longrightarrow> keeps P (bindP (readP g) f)"
  by (auto simp: keeps_def)

lemma keeps_modP: "(\<And>s. P s \<Longrightarrow> P (f s)) \<Longrightarrow> keeps P (modP f)"
  by (simp add: keeps_def)

text \<open>Expressions that may raise: \<open>bindE\<close> evaluates one after the other.\<close>

definition bindE :: "'e + 'a \<Rightarrow> ('a \<Rightarrow> 'e + 'b) \<Rightarrow> 'e + 'b" where
  "bindE r f = (case r of Inl e \<Rightarrow> Inl e | Inr x \<Rightarrow> f x)"

lemma bindE_simps [simp]: "bindE (Inl e) f = Inl e" "bindE (Inr x) f = f x"
  by (simp_all add: bindE_def)

lemma bindE_Inr: "bindE r f = Inr y \<longleftrightarrow> (\<exists>x. r = Inr x \<and> f x = Inr y)"
  by (cases r) simp_all

text \<open>\<open>[f(x) for x in xs]\<close> where \<open>f\<close> may raise: the first exception ends it.\<close>

fun mapE :: "('a \<Rightarrow> 'e + 'b) \<Rightarrow> 'a list \<Rightarrow> 'e + 'b list" where
  "mapE f [] = Inr []"
| "mapE f (x # xs) =
     (case f x of Inl e \<Rightarrow> Inl e
      | Inr y \<Rightarrow> (case mapE f xs of Inl e \<Rightarrow> Inl e | Inr ys \<Rightarrow> Inr (y # ys)))"

lemma mapE_Inr: "(\<And>x. x \<in> set xs \<Longrightarrow> f x = Inr (g x)) \<Longrightarrow> mapE f xs = Inr (map g xs)"
  by (induction xs) auto

lemma mapE_InrD: "mapE f xs = Inr ys \<Longrightarrow> length ys = length xs \<and> (\<forall>i < length xs. f (xs ! i) = Inr (ys ! i))"
proof (induction xs arbitrary: ys)
  case (Cons x xs)
  then obtain y ys' where "f x = Inr y" "mapE f xs = Inr ys'" "ys = y # ys'"
    by (auto split: sum.splits)
  with Cons.IH [of ys'] show ?case by (auto simp: nth_Cons split: nat.split)
qed auto

lemma mapE_InlD: "mapE f xs = Inl e \<Longrightarrow> \<exists>x \<in> set xs. f x = Inl e"
  by (induction xs) (auto split: sum.splits)

section \<open>Transactions\<close>

text \<open>
  \<open>BEGIN IMMEDIATE; ...; commit()\<close> with \<open>except Exception: rollback(); raise\<close>: the body
  runs on the database and an exception restores it.
\<close>

definition transaction :: "('e, 's, 'a) prog \<Rightarrow> ('e, 's, 'a) prog" where
  "transaction body =
     (\<lambda>s. case body s of (Inl e, _) \<Rightarrow> (Inl e, s) | (Inr x, s') \<Rightarrow> (Inr x, s'))"

lemma transaction_Inl: "transaction body s = (Inl e, s') \<Longrightarrow> s' = s"
  by (auto simp: transaction_def split: prod.splits sum.splits)

lemma transaction_Inr: "transaction body s = (Inr x, s') \<longleftrightarrow> body s = (Inr x, s')"
  by (auto simp: transaction_def split: prod.splits sum.splits)

lemma keeps_transaction: "keeps P m \<Longrightarrow> keeps P (transaction m)"
  by (auto simp: keeps_def transaction_def split: prod.splits sum.splits)

section \<open>Dictionaries\<close>

text \<open>
  A Python dict keeps insertion order: assigning an existing key keeps its place,
  a new key goes to the end. That is \<open>AList.update\<close>.
\<close>

type_synonym ('k, 'v) dict = "('k \<times> 'v) list"

abbreviation dict_set :: "'k \<Rightarrow> 'v \<Rightarrow> ('k, 'v) dict \<Rightarrow> ('k, 'v) dict" where
  "dict_set k v d \<equiv> AList.update k v d"

abbreviation dict_pop :: "'k \<Rightarrow> ('k, 'v) dict \<Rightarrow> ('k, 'v) dict" where
  "dict_pop k d \<equiv> AList.delete k d"

abbreviation dict_get :: "('k, 'v) dict \<Rightarrow> 'k \<Rightarrow> 'v option" where
  "dict_get d k \<equiv> map_of d k"

abbreviation dict_keys :: "('k, 'v) dict \<Rightarrow> 'k list" where
  "dict_keys d \<equiv> map fst d"

definition dict_update :: "('k, 'v) dict \<Rightarrow> ('k, 'v) dict \<Rightarrow> ('k, 'v) dict" where
  \<comment> \<open>\<open>d.update(e)\<close>, also \<open>{**d, **e}\<close>\<close>
  "dict_update d e = foldl (\<lambda>acc kv. dict_set (fst kv) (snd kv) acc) d e"

lemma dict_update_Nil [simp]: "dict_update d [] = d"
  by (simp add: dict_update_def)

lemma dict_update_Cons: "dict_update d (kv # e) = dict_update (dict_set (fst kv) (snd kv) d) e"
  by (simp add: dict_update_def)

lemma dict_update_append: "dict_update d (e @ f) = dict_update (dict_update d e) f"
  by (simp add: dict_update_def)

lemma map_of_dict_update: "map_of (dict_update d e) = map_of d ++ map_of (rev e)"
  by (induction e arbitrary: d)
     (auto simp: dict_update_Cons update_conv' map_add_def fun_eq_iff split: option.splits)

lemma map_of_rev_distinct: "distinct (map fst e) \<Longrightarrow> map_of (rev e) = map_of e"
  by (metis map_of_eqI distinct_rev rev_map set_rev set_map rev_rev_ident map_of_inject_set)

lemma map_of_dict_update_distinct:
  "distinct (dict_keys e) \<Longrightarrow> map_of (dict_update d e) = map_of d ++ map_of e"
  by (simp add: map_of_dict_update map_of_rev_distinct)

lemma dict_update_distinct: "distinct (map fst (d @ e)) \<Longrightarrow> dict_update d e = d @ e"
proof (induction e arbitrary: d)
  case (Cons kv e)
  then have "fst kv \<notin> set (map fst d)" by simp
  then have "dict_set (fst kv) (snd kv) d = d @ [kv]" by (induction d) auto
  with Cons show ?case by (simp add: dict_update_Cons)
qed simp

lemma dict_update_same: "distinct (map fst e) \<Longrightarrow> dict_update [] e = e"
  using dict_update_distinct [of "[]" e] by simp

lemma distinct_dict_update [simp]: "distinct (dict_keys d) \<Longrightarrow> distinct (dict_keys (dict_update d e))"
  by (induction e arbitrary: d) (auto simp: dict_update_Cons distinct_update)

section \<open>Slices and pages\<close>

definition slice_index :: "nat \<Rightarrow> int \<Rightarrow> nat" where
  \<comment> \<open>how Python clamps a slice bound of a sequence of length \<open>n\<close>\<close>
  "slice_index n i = (if i < 0 then nat (int n + i) else min (nat i) n)"

definition py_slice :: "'a list \<Rightarrow> int \<Rightarrow> int \<Rightarrow> 'a list" where
  \<comment> \<open>\<open>xs[i:j]\<close>\<close>
  "py_slice xs i j = drop (slice_index (length xs) i) (take (slice_index (length xs) j) xs)"

definition py_slice_to :: "'a list \<Rightarrow> int \<Rightarrow> 'a list" where
  \<comment> \<open>\<open>xs[:j]\<close>\<close>
  "py_slice_to xs j = take (slice_index (length xs) j) xs"

lemma py_slice_nonneg: "0 \<le> i \<Longrightarrow> 0 \<le> n \<Longrightarrow> py_slice xs i (i + n) = take (nat n) (drop (nat i) xs)"
  by (auto simp: py_slice_def slice_index_def min_def take_drop nat_add_distrib add.commute)

lemma py_slice_to_nonneg: "0 \<le> n \<Longrightarrow> py_slice_to xs n = take (nat n) xs"
  by (auto simp: py_slice_to_def slice_index_def min_def)

definition sql_page :: "int \<Rightarrow> int \<Rightarrow> 'a list \<Rightarrow> 'a list" where
  \<comment> \<open>\<open>LIMIT l OFFSET o\<close>: SQLite reads a negative limit as no limit, a negative offset as 0\<close>
  "sql_page l off xs = (let ys = drop (nat off) xs in if l < 0 then ys else take (nat l) ys)"

lemma sql_page_length: "0 \<le> l \<Longrightarrow> length (sql_page l off xs) \<le> nat l"
  by (simp add: sql_page_def Let_def)

lemma set_sql_page: "set (sql_page l off xs) \<subseteq> set xs"
  by (auto simp: sql_page_def Let_def dest: in_set_takeD in_set_dropD)

lemma sql_page_zero [simp]: "sql_page 0 off xs = []"
  by (simp add: sql_page_def)

lemma sql_pages_tile:
  "0 \<le> l \<Longrightarrow> 0 \<le> off \<Longrightarrow> sql_page l off xs @ sql_page (-1) (off + l) xs = sql_page (-1) off xs"
  by (simp add: sql_page_def Let_def nat_add_distrib flip: drop_drop)
     (metis append_take_drop_id drop_drop add.commute)

end
