(* ===== verification/Py_Text.thy ===== *)
theory Py_Text
  imports Cql_Prelude
begin

text \<open>
  Text of the Python runtime: \<open>str(n)\<close>, the zero-padded \<open>f"{n:012d}"\<close>, and
  \<open>int(s)\<close>, which strips white space, accepts a sign and single underscores between
  digits, and raises \<open>ValueError\<close> (here \<open>None\<close>) otherwise; \<open>repr\<close> of a string, \<open>startswith\<close>, \<open>rstrip\<close> and \<open>replace\<close>;
  and the exceptions the program raises or catches. A string is a list of code points
  below 256; other characters and the conversion-length limit of recent interpreters are not
  modelled.
\<close>

section \<open>Exceptions\<close>

datatype py_exc =
    ValueError string
  | RuntimeError string
  | KeyError string
  | TypeError string
  | AssertionError
  | IntegrityError string      \<comment> \<open>\<open>sqlite3.IntegrityError\<close>\<close>
  | OtherError string string   \<comment> \<open>any other class: its name and its text\<close>

fun exc_text :: "py_exc \<Rightarrow> string" where
  \<comment> \<open>\<open>str(exc)\<close>\<close>
  "exc_text (ValueError m) = m"
| "exc_text (RuntimeError m) = m"
| "exc_text (KeyError m) = m"  \<comment> \<open>the constructor holds the \<open>repr\<close> of the key\<close>
| "exc_text (TypeError m) = m"
| "exc_text AssertionError = []"
| "exc_text (IntegrityError m) = m"
| "exc_text (OtherError c m) = m"

fun exc_class :: "py_exc \<Rightarrow> string" where
  \<comment> \<open>\<open>type(exc).__name__\<close>\<close>
  "exc_class (ValueError m) = ''ValueError''"
| "exc_class (RuntimeError m) = ''RuntimeError''"
| "exc_class (KeyError m) = ''KeyError''"
| "exc_class (TypeError m) = ''TypeError''"
| "exc_class AssertionError = ''AssertionError''"
| "exc_class (IntegrityError m) = ''IntegrityError''"
| "exc_class (OtherError c m) = c"

section \<open>Strings\<close>

fun starts_with :: "string \<Rightarrow> string \<Rightarrow> bool" where
  "starts_with [] s = True"
| "starts_with (p # ps) [] = False"
| "starts_with (p # ps) (c # cs) = (p = c \<and> starts_with ps cs)"

definition contains_text :: "string \<Rightarrow> string \<Rightarrow> bool" where
  \<comment> \<open>\<open>needle in s\<close>\<close>
  "contains_text needle s = list_ex (\<lambda>i. starts_with needle (drop i s)) [0..<Suc (length s)]"

definition rstrip_char :: "char \<Rightarrow> string \<Rightarrow> string" where
  "rstrip_char c s = rev (dropWhile (\<lambda>x. x = c) (rev s))"

definition replace_char :: "char \<Rightarrow> string \<Rightarrow> string \<Rightarrow> string" where
  "replace_char c r s = concat (map (\<lambda>x. if x = c then r else [x]) s)"

fun join_text :: "string \<Rightarrow> string list \<Rightarrow> string" where
  \<comment> \<open>\<open>sep.join(xs)\<close>\<close>
  "join_text sep [] = []"
| "join_text sep [x] = x"
| "join_text sep (x # y # ys) = x @ sep @ join_text sep (y # ys)"

definition hex_digit :: "nat \<Rightarrow> char" where
  "hex_digit d = (if d < 10 then char_of (48 + d) else char_of (87 + d))"

definition repr_char :: "char \<Rightarrow> char \<Rightarrow> string" where
  "repr_char q c =
     (let n = (of_char c :: nat) in
      if c = q \<or> n = 92 then [char_of (92 :: nat), c]
      else if n = 9 then char_of (92 :: nat) # ''t''
      else if n = 10 then char_of (92 :: nat) # ''n''
      else if n = 13 then char_of (92 :: nat) # ''r''
      else if n < 32 \<or> (127 \<le> n \<and> n \<le> 160) \<or> n = 173 then char_of (92 :: nat) # ''x'' @ [hex_digit (n div 16), hex_digit (n mod 16)]
      else [c])"

definition py_repr :: "string \<Rightarrow> string" where
  \<comment> \<open>single quotes, unless the text has one and no double quote\<close>
  "py_repr s =
     (let q = (if char_of (39 :: nat) \<in> set s \<and> char_of (34 :: nat) \<notin> set s then char_of (34 :: nat) else char_of (39 :: nat))
      in [q] @ concat (map (repr_char q) s) @ [q])"

definition invalid_int_text :: "string \<Rightarrow> string" where
  "invalid_int_text s = ''invalid literal for int() with base 10: '' @ py_repr s"

section \<open>Digits\<close>

definition digit_char :: "nat \<Rightarrow> char" where
  "digit_char d = char_of (48 + d)"

lemma digit_chars:
  "digit_char 0 = CHR ''0''"
  "digit_char (Suc 0) = CHR ''1''"
  "digit_char 2 = CHR ''2''"
  "digit_char 3 = CHR ''3''"
  "digit_char 4 = CHR ''4''"
  "digit_char 5 = CHR ''5''"
  "digit_char 6 = CHR ''6''"
  "digit_char 7 = CHR ''7''"
  "digit_char 8 = CHR ''8''"
  "digit_char 9 = CHR ''9''"
  by (simp_all add: digit_char_def char_of_def bit_iff_odd)

definition is_digit :: "char \<Rightarrow> bool" where
  "is_digit c = (48 \<le> (of_char c :: nat) \<and> (of_char c :: nat) \<le> 57)"

definition digit_val :: "char \<Rightarrow> nat" where
  "digit_val c = of_char c - 48"

definition is_space :: "char \<Rightarrow> bool" where
  \<comment> \<open>the characters below 256 that \<open>str.strip\<close> removes\<close>
  "is_space c = (let n = (of_char c :: nat) in (9 \<le> n \<and> n \<le> 13) \<or> (28 \<le> n \<and> n \<le> 32) \<or> n = 133 \<or> n = 160)"

definition py_strip :: "string \<Rightarrow> string" where
  "py_strip s = rev (dropWhile is_space (rev (dropWhile is_space s)))"

fun show_nat :: "nat \<Rightarrow> string" where
  "show_nat n = (if n < 10 then [digit_char n] else show_nat (n div 10) @ [digit_char (n mod 10)])"

declare show_nat.simps [simp del]

definition show_int :: "int \<Rightarrow> string" where
  "show_int i = (if i < 0 then CHR ''-'' # show_nat (nat (- i)) else show_nat (nat i))"

definition pad_zeros :: "nat \<Rightarrow> nat \<Rightarrow> string" where
  \<comment> \<open>\<open>f"{n:0wd}"\<close> of a non-negative \<open>n\<close>\<close>
  "pad_zeros w n = replicate (w - length (show_nat n)) (CHR ''0'') @ show_nat n"

fun parse_digits :: "bool \<Rightarrow> nat \<Rightarrow> string \<Rightarrow> nat option" where
  \<comment> \<open>the flag: the previous character was a digit\<close>
  "parse_digits prev acc [] = (if prev then Some acc else None)"
| "parse_digits prev acc (c # cs) =
     (if is_digit c then parse_digits True (10 * acc + digit_val c) cs
      else if c = CHR ''_'' \<and> prev then parse_digits False acc cs
      else None)"

definition py_int :: "string \<Rightarrow> int option" where
  "py_int s =
     (case py_strip s of
        [] \<Rightarrow> None
      | c # cs \<Rightarrow>
          if c = CHR ''-'' then map_option (\<lambda>n. - int n) (parse_digits False 0 cs)
          else if c = CHR ''+'' then map_option int (parse_digits False 0 cs)
          else map_option int (parse_digits False 0 (c # cs)))"

section \<open>Round trips\<close>

definition digits_val :: "nat \<Rightarrow> string \<Rightarrow> nat" where
  "digits_val acc ds = foldl (\<lambda>a c. 10 * a + digit_val c) acc ds"

lemma digits_val_Nil [simp]: "digits_val acc [] = acc"
  by (simp add: digits_val_def)

lemma digits_val_Cons [simp]: "digits_val acc (c # cs) = digits_val (10 * acc + digit_val c) cs"
  by (simp add: digits_val_def)

lemma digits_val_append [simp]: "digits_val acc (cs @ ds) = digits_val (digits_val acc cs) ds"
  by (simp add: digits_val_def)

lemma digit_char_val [simp]: "d < 10 \<Longrightarrow> digit_val (digit_char d) = d"
  by (simp add: digit_val_def digit_char_def of_char_of)

lemma is_digit_char [simp]: "d < 10 \<Longrightarrow> is_digit (digit_char d)"
  by (simp add: is_digit_def digit_char_def of_char_of)

lemma is_digit_0 [simp]: "is_digit (CHR ''0'')" "digit_val (CHR ''0'') = 0"
  by (simp_all add: is_digit_def digit_val_def)

lemma parse_digits_True:
  "list_all is_digit ds \<Longrightarrow> parse_digits True acc ds = Some (digits_val acc ds)"
  by (induction ds arbitrary: acc) simp_all

lemma parse_digits_all:
  "list_all is_digit ds \<Longrightarrow> ds \<noteq> [] \<Longrightarrow> parse_digits b acc ds = Some (digits_val acc ds)"
  by (cases ds) (simp_all add: parse_digits_True)

lemma show_nat_digits [simp]: "list_all is_digit (show_nat n)"
proof (induction n rule: show_nat.induct)
  case (1 n)
  then show ?case by (subst show_nat.simps) (cases "n < 10"; simp)
qed

lemma show_nat_nonempty [simp]: "show_nat n \<noteq> []"
  by (subst show_nat.simps) simp

lemma show_nat_val [simp]: "digits_val 0 (show_nat n) = n"
proof (induction n rule: show_nat.induct)
  case (1 n)
  then show ?case by (subst show_nat.simps) (cases "n < 10"; simp)
qed

lemma digits_val_zeros [simp]: "digits_val 0 (replicate k (CHR ''0'')) = 0"
  by (induction k) auto

lemma pad_zeros_digits [simp]: "list_all is_digit (pad_zeros w n)"
  using show_nat_digits [of n] by (auto simp: pad_zeros_def list_all_iff)

lemma pad_zeros_nonempty [simp]: "pad_zeros w n \<noteq> []"
  by (simp add: pad_zeros_def)

lemma pad_zeros_val [simp]: "digits_val 0 (pad_zeros w n) = n"
  by (simp add: pad_zeros_def)

lemma digit_not_space: "is_digit c \<Longrightarrow> \<not> is_space c"
  by (auto simp: is_digit_def is_space_def Let_def)

lemma py_strip_id:
  "s \<noteq> [] \<Longrightarrow> \<not> is_space (hd s) \<Longrightarrow> \<not> is_space (last s) \<Longrightarrow> py_strip s = s"
  by (simp add: py_strip_def dropWhile_eq_self_iff [THEN iffD2] hd_rev)

lemma digits_ends:
  "list_all is_digit ds \<Longrightarrow> ds \<noteq> [] \<Longrightarrow> \<not> is_space (hd ds) \<and> \<not> is_space (last ds)"
  by (simp add: list_all_iff digit_not_space)

lemma py_strip_digits [simp]: "list_all is_digit ds \<Longrightarrow> py_strip ds = ds"
  using digits_ends [of ds] by (cases "ds = []") (simp_all add: py_strip_id, simp add: py_strip_def)

lemma py_int_digits:
  assumes "list_all is_digit ds" and "ds \<noteq> []"
  shows "py_int ds = Some (int (digits_val 0 ds))"
proof -
  from assms obtain c cs where ds: "ds = c # cs" by (cases ds) auto
  with assms have "is_digit c" by simp
  then have "c \<noteq> CHR ''-''" and "c \<noteq> CHR ''+''" by (auto simp: is_digit_def)
  then show ?thesis
    using assms parse_digits_all [of ds False 0] by (simp add: py_int_def ds)
qed

lemma py_int_show_nat [simp]: "py_int (show_nat n) = Some (int n)"
  by (simp add: py_int_digits)

lemma py_int_pad_zeros [simp]: "py_int (pad_zeros w n) = Some (int n)"
  by (simp add: py_int_digits)

lemma py_int_show_int [simp]: "py_int (show_int i) = Some i"
proof (cases "i < 0")
  case True
  let ?ds = "show_nat (nat (- i))"
  have "py_strip (CHR ''-'' # ?ds) = CHR ''-'' # ?ds"
    using digits_ends [of ?ds] by (intro py_strip_id) (simp_all add: is_space_def)
  with True show ?thesis
    by (simp add: show_int_def py_int_def parse_digits_all)
qed (simp add: show_int_def)

lemma pad_zeros_inj: "pad_zeros w m = pad_zeros w n \<longleftrightarrow> m = n"
  by (metis pad_zeros_val)

lemma show_nat_inj: "show_nat m = show_nat n \<longleftrightarrow> m = n"
  by (metis show_nat_val)

lemma show_int_inj: "show_int i = show_int j \<longleftrightarrow> i = j"
  by (metis py_int_show_int option.inject)

end
