(* ===== verification/Py_Time.thy ===== *)
theory Py_Time
  imports Py_Text
begin

text \<open>
  The part of Python's \<open>datetime\<close> the program uses: the fields of a \<open>datetime\<close>,
  \<open>isoformat\<close>, \<open>fromisoformat\<close> (the grammar of Python 3.10: a date, any separator
  character, a time and an optional UTC offset, as \<open>isoformat\<close> writes them), the
  instant of an aware value in microseconds, and \<open>d + timedelta(seconds=n)\<close>.
  \<open>ymd2ord\<close> and \<open>ord2ymd\<close> are the proleptic Gregorian ordinals of the standard library.
\<close>

section \<open>Dates\<close>

record datetime =
  dt_year :: nat
  dt_month :: nat
  dt_day :: nat
  dt_hour :: nat
  dt_minute :: nat
  dt_second :: nat
  dt_micro :: nat
  dt_tz :: "int option"  \<comment> \<open>UTC offset in seconds; \<open>None\<close> is a naive value\<close>

definition is_leap :: "nat \<Rightarrow> bool" where
  "is_leap y \<longleftrightarrow> y mod 4 = 0 \<and> (y mod 100 \<noteq> 0 \<or> y mod 400 = 0)"

definition days_in_month :: "bool \<Rightarrow> nat \<Rightarrow> nat" where
  "days_in_month leap m =
     (if m = 2 then (if leap then 29 else 28)
      else if m = 4 \<or> m = 6 \<or> m = 9 \<or> m = 11 then 30 else 31)"

fun days_before_month :: "bool \<Rightarrow> nat \<Rightarrow> nat" where
  "days_before_month leap 0 = 0"
| "days_before_month leap (Suc m) =
     (if m = 0 then 0 else days_before_month leap m + days_in_month leap m)"

definition days_before_year :: "nat \<Rightarrow> nat" where
  "days_before_year y = (let p = y - 1 in p * 365 + p div 4 - p div 100 + p div 400)"

definition ymd2ord :: "nat \<Rightarrow> nat \<Rightarrow> nat \<Rightarrow> nat" where
  "ymd2ord y m d = days_before_year y + days_before_month (is_leap y) m + d"

definition month_of_day :: "bool \<Rightarrow> nat \<Rightarrow> nat \<times> nat" where
  \<comment> \<open>month and day of the \<open>n\<close>-th day of a year (from 0), by the estimate \<open>(n + 50) >> 5\<close>\<close>
  "month_of_day leap n =
     (let m = (n + 50) div 32; m' = (if days_before_month leap m > n then m - 1 else m)
      in (m', n - days_before_month leap m' + 1))"

definition ord2ymd :: "nat \<Rightarrow> nat \<times> nat \<times> nat" where
  "ord2ymd ord =
     (let n = ord - 1;
          n400 = n div 146097; r400 = n mod 146097;
          n100 = r400 div 36524; r100 = r400 mod 36524;
          n4 = r100 div 1461; r4 = r100 mod 1461;
          n1 = r4 div 365; r1 = r4 mod 365;
          y = n400 * 400 + 1 + n100 * 100 + n4 * 4 + n1
      in if n1 = 4 \<or> n100 = 4 then (y - 1, 12, 31)
         else (y, month_of_day (n1 = 3 \<and> (n4 \<noteq> 24 \<or> n100 = 3)) r1))"

definition valid_datetime :: "datetime \<Rightarrow> bool" where
  "valid_datetime d \<longleftrightarrow>
     1 \<le> dt_year d \<and> dt_year d \<le> 9999 \<and> 1 \<le> dt_month d \<and> dt_month d \<le> 12 \<and>
     1 \<le> dt_day d \<and> dt_day d \<le> days_in_month (is_leap (dt_year d)) (dt_month d) \<and>
     dt_hour d < 24 \<and> dt_minute d < 60 \<and> dt_second d < 60 \<and> dt_micro d < 1000000 \<and>
     (case dt_tz d of None \<Rightarrow> True | Some off \<Rightarrow> \<bar>off\<bar> < 86400)"

definition instant :: "datetime \<Rightarrow> int" where
  \<comment> \<open>microseconds on the UTC time line; a naive value is read as it stands\<close>
  "instant d =
     (int (ymd2ord (dt_year d) (dt_month d) (dt_day d)) * 86400
      + int (dt_hour d * 3600 + dt_minute d * 60 + dt_second d)
      - (case dt_tz d of None \<Rightarrow> 0 | Some off \<Rightarrow> off)) * 1000000 + int (dt_micro d)"

definition add_seconds :: "datetime \<Rightarrow> nat \<Rightarrow> datetime" where
  "add_seconds d n =
     (let t = dt_hour d * 3600 + dt_minute d * 60 + dt_second d + n;
          (y, m, dd) = ord2ymd (ymd2ord (dt_year d) (dt_month d) (dt_day d) + t div 86400);
          r = t mod 86400
      in d\<lparr>dt_year := y, dt_month := m, dt_day := dd,
           dt_hour := r div 3600, dt_minute := r mod 3600 div 60, dt_second := r mod 60\<rparr>)"

section \<open>isoformat and fromisoformat\<close>

definition iso_offset :: "int \<Rightarrow> string" where
  "iso_offset off =
     (let a = nat \<bar>off\<bar> in
      (if off < 0 then ''-'' else ''+'') @ pad_zeros 2 (a div 3600) @ '':'' @ pad_zeros 2 (a mod 3600 div 60)
      @ (if a mod 60 = 0 then [] else '':'' @ pad_zeros 2 (a mod 60)))"

definition isoformat :: "datetime \<Rightarrow> string" where
  "isoformat d =
     pad_zeros 4 (dt_year d) @ ''-'' @ pad_zeros 2 (dt_month d) @ ''-'' @ pad_zeros 2 (dt_day d) @ ''T''
     @ pad_zeros 2 (dt_hour d) @ '':'' @ pad_zeros 2 (dt_minute d) @ '':'' @ pad_zeros 2 (dt_second d)
     @ (if dt_micro d = 0 then [] else ''.'' @ pad_zeros 6 (dt_micro d))
     @ (case dt_tz d of None \<Rightarrow> [] | Some off \<Rightarrow> iso_offset off)"

definition fixed_digits :: "nat \<Rightarrow> string \<Rightarrow> (nat \<times> string) option" where
  \<comment> \<open>exactly \<open>w\<close> digits, and what follows them\<close>
  "fixed_digits w s =
     (if w \<le> length s \<and> list_all is_digit (take w s)
      then Some (digits_val 0 (take w s), drop w s) else None)"

definition after_char :: "char \<Rightarrow> string \<Rightarrow> string option" where
  "after_char c s = (case s of [] \<Rightarrow> None | x # xs \<Rightarrow> if x = c then Some xs else None)"

definition two_after_colon :: "string \<Rightarrow> (nat \<times> string) option" where
  "two_after_colon s = Option.bind (after_char (CHR '':'') s) (fixed_digits 2)"

definition parse_frac :: "string \<Rightarrow> (nat \<times> string) option" where
  \<comment> \<open>\<open>.ffffff\<close> or \<open>.fff\<close>, possibly absent\<close>
  "parse_frac s =
     (case after_char (CHR ''.'') s of
        None \<Rightarrow> Some (0, s)
      | Some s' \<Rightarrow> (case fixed_digits 6 s' of
          Some (n, r) \<Rightarrow> Some (n, r)
        | None \<Rightarrow> map_option (\<lambda>(n, r). (n * 1000, r)) (fixed_digits 3 s')))"

definition parse_clock :: "string \<Rightarrow> (nat \<times> nat \<times> nat \<times> nat \<times> string) option" where
  \<comment> \<open>\<open>HH[:MM[:SS[.fff[fff]]]]\<close>\<close>
  "parse_clock s =
     (case fixed_digits 2 s of None \<Rightarrow> None
      | Some (h, s1) \<Rightarrow> (case two_after_colon s1 of None \<Rightarrow> Some (h, 0, 0, 0, s1)
      | Some (m, s2) \<Rightarrow> (case two_after_colon s2 of None \<Rightarrow> Some (h, m, 0, 0, s2)
      | Some (sec, s3) \<Rightarrow> map_option (\<lambda>(us, s4). (h, m, sec, us, s4)) (parse_frac s3))))"

definition parse_offset :: "string \<Rightarrow> int option option" where
  \<comment> \<open>nothing, or \<open>+HH:MM[:SS]\<close>, to the end of the text; \<open>None\<close> is a malformed suffix\<close>
  "parse_offset s =
     (case s of [] \<Rightarrow> Some None
      | c # cs \<Rightarrow>
         if c \<noteq> CHR ''+'' \<and> c \<noteq> CHR ''-'' then None
         else (case fixed_digits 2 cs of None \<Rightarrow> None
           | Some (h, s1) \<Rightarrow> (case two_after_colon s1 of None \<Rightarrow> None
           | Some (m, s2) \<Rightarrow>
               (case (if s2 = [] then Some (0, []) else two_after_colon s2) of None \<Rightarrow> None
                | Some (sec, s3) \<Rightarrow>
                    if s3 \<noteq> [] then None
                    else let a = int (h * 3600 + m * 60 + sec)
                         in Some (Some (if c = CHR ''-'' then - a else a))))))"

definition parse_date :: "string \<Rightarrow> (nat \<times> nat \<times> nat \<times> string) option" where
  "parse_date s =
     (case fixed_digits 4 s of None \<Rightarrow> None
      | Some (y, s1) \<Rightarrow> (case Option.bind (after_char (CHR ''-'') s1) (fixed_digits 2) of None \<Rightarrow> None
      | Some (m, s2) \<Rightarrow> map_option (\<lambda>(d, s3). (y, m, d, s3))
                          (Option.bind (after_char (CHR ''-'') s2) (fixed_digits 2))))"

definition fromisoformat :: "string \<Rightarrow> datetime option" where
  "fromisoformat s =
     (case parse_date s of None \<Rightarrow> None
      | Some (y, m, d, s1) \<Rightarrow>
         (case (if s1 = [] then Some (0, 0, 0, 0, []) else parse_clock (tl s1)) of None \<Rightarrow> None
          | Some (hh, mm, ss, us, s2) \<Rightarrow>
             (case parse_offset s2 of None \<Rightarrow> None
              | Some tz \<Rightarrow>
                 let r = \<lparr>dt_year = y, dt_month = m, dt_day = d, dt_hour = hh, dt_minute = mm,
                          dt_second = ss, dt_micro = us, dt_tz = tz\<rparr>
                 in if valid_datetime r then Some r else None)))"

section \<open>Round trip\<close>

lemma length_show_nat: "n < 10 ^ Suc w \<Longrightarrow> length (show_nat n) \<le> Suc w"
proof (induction w arbitrary: n)
  case 0
  then show ?case by (subst show_nat.simps) simp
next
  case (Suc w)
  show ?case
  proof (cases "n < 10")
    case True
    then show ?thesis by (subst show_nat.simps) simp
  next
    case False
    from Suc.prems have "n div 10 < 10 ^ Suc w" by (simp add: div_less_iff_less_mult mult.commute)
    with Suc.IH [of "n div 10"] False show ?thesis by (subst show_nat.simps) simp
  qed
qed

lemma length_pad_zeros: "0 < w \<Longrightarrow> n < 10 ^ w \<Longrightarrow> length (pad_zeros w n) = w"
  using length_show_nat [of n "w - 1"] by (simp add: pad_zeros_def)

lemma fixed_digits_pad [simp]:
  "0 < w \<Longrightarrow> n < 10 ^ w \<Longrightarrow> fixed_digits w (pad_zeros w n @ r) = Some (n, r)"
  by (simp add: fixed_digits_def length_pad_zeros)

lemma fixed_digits_pad_end [simp]:
  "0 < w \<Longrightarrow> n < 10 ^ w \<Longrightarrow> fixed_digits w (pad_zeros w n) = Some (n, [])"
  using fixed_digits_pad [of w n "[]"] by simp

lemma after_char_same [simp]: "after_char c (c # s) = Some s"
  by (simp add: after_char_def)

lemma parse_date_isoformat:
  "y < 10000 \<Longrightarrow> m < 100 \<Longrightarrow> d < 100 \<Longrightarrow>
   parse_date (pad_zeros 4 y @ CHR ''-'' # pad_zeros 2 m @ CHR ''-'' # pad_zeros 2 d @ r)
     = Some (y, m, d, r)"
  by (simp add: parse_date_def)

lemma parse_frac_isoformat:
  "us < 1000000 \<Longrightarrow> (case r of [] \<Rightarrow> True | c # _ \<Rightarrow> c \<noteq> CHR ''.'') \<Longrightarrow>
   parse_frac ((if us = 0 then [] else CHR ''.'' # pad_zeros 6 us) @ r) = Some (us, r)"
  by (auto simp: parse_frac_def after_char_def split: list.splits)

lemma parse_clock_isoformat:
  assumes "h < 100" "m < 100" "s < 100" "us < 1000000"
    and "case r of [] \<Rightarrow> True | c # _ \<Rightarrow> c \<noteq> CHR ''.''"
  shows "parse_clock (pad_zeros 2 h @ CHR '':'' # pad_zeros 2 m @ CHR '':'' # pad_zeros 2 s
           @ (if us = 0 then [] else CHR ''.'' # pad_zeros 6 us) @ r) = Some (h, m, s, us, r)"
  using assms parse_frac_isoformat [of us r] by (simp add: parse_clock_def two_after_colon_def)

lemma clock_split: "int (a div 3600 * 3600 + a mod 3600 div 60 * 60 + a mod 60) = int a"
proof -
  have "a = a div 3600 * 3600 + a mod 3600" by simp
  moreover have "a mod 3600 = a mod 3600 div 60 * 60 + a mod 3600 mod 60" by simp
  moreover have "a mod 3600 mod 60 = a mod 60" by (simp add: mod_mod_cancel)
  ultimately show ?thesis by linarith
qed

lemma offset_fields:
  assumes "\<bar>off\<bar> < 86400"
  shows "nat \<bar>off\<bar> div 3600 < 100" and "nat \<bar>off\<bar> mod 3600 div 60 < 100" and "nat \<bar>off\<bar> mod 60 < 100"
proof -
  have "nat \<bar>off\<bar> < 86400" using assms by linarith
  then show "nat \<bar>off\<bar> div 3600 < 100" by (simp add: div_less_iff_less_mult)
  have "nat \<bar>off\<bar> mod 3600 < 3600" by simp
  then show "nat \<bar>off\<bar> mod 3600 div 60 < 100" by (simp add: div_less_iff_less_mult)
  have "nat \<bar>off\<bar> mod 60 < 60" by simp
  then show "nat \<bar>off\<bar> mod 60 < 100" by linarith
qed

lemma parse_offset_sign:
  assumes "h < 100" "m < 100" "s < 100" and c: "c = CHR ''-'' \<or> c = CHR ''+''"
  shows "parse_offset (c # pad_zeros 2 h @ CHR '':'' # pad_zeros 2 m @ (if s = 0 then [] else CHR '':'' # pad_zeros 2 s))
    = Some (Some (if c = CHR ''-'' then - int (h * 3600 + m * 60 + s) else int (h * 3600 + m * 60 + s)))"
  using assms(1-3) c
  by (cases "s = 0"; elim disjE) (simp_all add: parse_offset_def two_after_colon_def Let_def)

lemma parse_offset_isoformat:
  assumes "\<bar>off\<bar> < 86400"
  shows "parse_offset (iso_offset off) = Some (Some off)"
proof -
  let ?c = "if off < 0 then CHR ''-'' else CHR ''+''"
  let ?a = "nat \<bar>off\<bar>"
  have iso: "iso_offset off = ?c # pad_zeros 2 (?a div 3600) @ CHR '':'' # pad_zeros 2 (?a mod 3600 div 60)
      @ (if ?a mod 60 = 0 then [] else CHR '':'' # pad_zeros 2 (?a mod 60))"
    by (simp only: iso_offset_def Let_def append_Cons append_Nil if_distrib [of "\<lambda>x. x @ _"] split: if_split) simp
  have "int (?a div 3600 * 3600 + ?a mod 3600 div 60 * 60 + ?a mod 60) = \<bar>off\<bar>"
    unfolding clock_split by simp
  then show ?thesis
    unfolding iso by (subst parse_offset_sign [OF offset_fields [OF assms]]) auto
qed

lemma datetime_eta:
  "\<lparr>dt_year = dt_year d, dt_month = dt_month d, dt_day = dt_day d, dt_hour = dt_hour d,
    dt_minute = dt_minute d, dt_second = dt_second d, dt_micro = dt_micro d, dt_tz = dt_tz d\<rparr> = d"
  by simp

lemma fromisoformat_isoformat:
  assumes v: "valid_datetime d"
  shows "fromisoformat (isoformat d) = Some d"
proof -
  let ?tz = "case dt_tz d of None \<Rightarrow> [] | Some off \<Rightarrow> iso_offset off"
  have dim: "days_in_month l m < 100" for l m by (simp add: days_in_month_def)
  have lt: "dt_year d < 10000" "dt_month d < 100" "dt_day d < 100" "dt_hour d < 100"
      "dt_minute d < 100" "dt_second d < 100" "dt_micro d < 1000000"
    using v dim [of "is_leap (dt_year d)" "dt_month d"] by (auto simp: valid_datetime_def)
  have tz: "parse_offset ?tz = Some (dt_tz d)"
    using v by (cases "dt_tz d") (simp_all add: valid_datetime_def parse_offset_isoformat parse_offset_def [of "[]"])
  have nodot: "case ?tz of [] \<Rightarrow> True | c # _ \<Rightarrow> c \<noteq> CHR ''.''"
    by (auto simp: iso_offset_def Let_def split: option.splits)
  have iso: "isoformat d =
      pad_zeros 4 (dt_year d) @ CHR ''-'' # pad_zeros 2 (dt_month d) @ CHR ''-'' # pad_zeros 2 (dt_day d)
      @ CHR ''T'' # (pad_zeros 2 (dt_hour d) @ CHR '':'' # pad_zeros 2 (dt_minute d) @ CHR '':''
      # pad_zeros 2 (dt_second d) @ (if dt_micro d = 0 then [] else CHR ''.'' # pad_zeros 6 (dt_micro d)) @ ?tz)"
    by (simp add: isoformat_def)
  show ?thesis
    unfolding iso fromisoformat_def
    using parse_date_isoformat [OF lt(1-3)] parse_clock_isoformat [OF lt(4-7) nodot] tz v
    by (simp add: Let_def datetime_eta)
qed

lemma isoformat_inj: "valid_datetime d \<Longrightarrow> valid_datetime e \<Longrightarrow> isoformat d = isoformat e \<Longrightarrow> d = e"
  by (metis fromisoformat_isoformat option.inject)

section \<open>Calendar arithmetic yields valid dates\<close>

lemma days_before_month_step:
  "1 \<le> m \<Longrightarrow> days_before_month leap (m + 1) = days_before_month leap m + days_in_month leap m"
  by simp

lemma days_before_month_table:
  "days_before_month leap 1 = 0" "days_before_month leap 2 = 31"
  "days_before_month leap 3 = (if leap then 60 else 59)"
  "days_before_month leap 4 = (if leap then 91 else 90)"
  "days_before_month leap 5 = (if leap then 121 else 120)"
  "days_before_month leap 6 = (if leap then 152 else 151)"
  "days_before_month leap 7 = (if leap then 182 else 181)"
  "days_before_month leap 8 = (if leap then 213 else 212)"
  "days_before_month leap 9 = (if leap then 244 else 243)"
  "days_before_month leap 10 = (if leap then 274 else 273)"
  "days_before_month leap 11 = (if leap then 305 else 304)"
  "days_before_month leap 12 = (if leap then 335 else 334)"
proof -
  note step = days_before_month_step [of _ leap]
  show 1: "days_before_month leap 1 = 0" by simp
  show 2: "days_before_month leap 2 = 31" using step [of 1] 1 by (simp add: days_in_month_def numeral_2_eq_2)
  show 3: "days_before_month leap 3 = (if leap then 60 else 59)"
    using step [of 2] 2 by (simp add: days_in_month_def)
  show 4: "days_before_month leap 4 = (if leap then 91 else 90)"
    using step [of 3] 3 by (simp add: days_in_month_def)
  show 5: "days_before_month leap 5 = (if leap then 121 else 120)"
    using step [of 4] 4 by (simp add: days_in_month_def)
  show 6: "days_before_month leap 6 = (if leap then 152 else 151)"
    using step [of 5] 5 by (simp add: days_in_month_def)
  show 7: "days_before_month leap 7 = (if leap then 182 else 181)"
    using step [of 6] 6 by (simp add: days_in_month_def)
  show 8: "days_before_month leap 8 = (if leap then 213 else 212)"
    using step [of 7] 7 by (simp add: days_in_month_def)
  show 9: "days_before_month leap 9 = (if leap then 244 else 243)"
    using step [of 8] 8 by (simp add: days_in_month_def)
  show 10: "days_before_month leap 10 = (if leap then 274 else 273)"
    using step [of 9] 9 by (simp add: days_in_month_def)
  show 11: "days_before_month leap 11 = (if leap then 305 else 304)"
    using step [of 10] 10 by (simp add: days_in_month_def)
  show "days_before_month leap 12 = (if leap then 335 else 334)"
    using step [of 11] 11 by (simp add: days_in_month_def)
qed

lemma month_cases:
  assumes "1 \<le> g" and "g \<le> (12::nat)"
  shows "g \<in> {1, 2, 3, 4, 5, 6, 7, 8, 9, 10, 11, 12}"
proof -
  have "g \<in> set [1..<13]" using assms by simp
  then show ?thesis by (simp add: upt_rec numeral_eq_Suc)
qed

lemma month_guess_low: "2 \<le> g \<Longrightarrow> g \<le> 12 \<Longrightarrow> days_before_month leap (g - 1) + 50 \<le> 32 * g"
  using month_cases [of g]
  by (simp; elim disjE; simp add: days_before_month_table [unfolded One_nat_def])

lemma month_guess_high:
  assumes "1 \<le> g" "g \<le> 12" and n: "n + 50 < 32 * g + 32" "n < 365 + (if leap then 1 else 0)"
  shows "n < days_before_month leap g + days_in_month leap g"
  using month_cases [OF assms(1,2)] n
  by (elim insertE emptyE; cases leap; simp add: days_before_month_table days_in_month_def)

lemma month_of_day_valid:
  assumes n: "n < 365 + (if leap then 1 else 0)" and md: "month_of_day leap n = (m, d)"
  shows "1 \<le> m \<and> m \<le> 12 \<and> 1 \<le> d \<and> d \<le> days_in_month leap m"
proof -
  define g where "g = (n + 50) div 32"
  have g: "32 * g \<le> n + 50" "n + 50 < 32 * g + 32" by (simp_all add: g_def; linarith)+
  with n have b: "1 \<le> g" "g \<le> 12" by (simp_all split: if_splits)
  have m: "m = (if days_before_month leap g > n then g - 1 else g)" and d: "d = n - days_before_month leap m + 1"
    using md by (auto simp: month_of_day_def g_def Let_def split: if_splits)
  show ?thesis
  proof (cases "days_before_month leap g > n")
    case True
    with b have g2: "2 \<le> g" by (cases "g = 1") auto
    with True month_guess_low [OF g2 b(2), of leap] g days_before_month_step [of "g - 1" leap] m d b
    show ?thesis by auto
  next
    case False
    with month_guess_high [OF b g(2) n] m d b show ?thesis by auto
  qed
qed

lemma is_leap_cycle:
  assumes n: "n1 \<le> 3" "n4 \<le> 24" "n100 \<le> (3::nat)"
  shows "is_leap (n400 * 400 + 1 + n100 * 100 + n4 * 4 + n1) \<longleftrightarrow> n1 = 3 \<and> (n4 \<noteq> 24 \<or> n100 = 3)"
proof -
  let ?y = "n400 * 400 + 1 + n100 * 100 + n4 * 4 + n1"
  have "?y = (1 + n1) + (n400 * 100 + n100 * 25 + n4) * 4" by simp
  then have "?y mod 4 = (1 + n1) mod 4" by (simp only: mod_mult_self1)
  moreover have "(1 + n1) mod 4 = 0 \<longleftrightarrow> n1 = 3" using n(1) by presburger
  ultimately have 4: "?y mod 4 = 0 \<longleftrightarrow> n1 = 3" by (simp only:)
  show ?thesis
  proof (cases "n1 = 3")
    case True
    define u where "u = n4 + 1"
    have u: "1 \<le> u" "u \<le> 25" using n(2) by (simp_all add: u_def)
    have y: "?y = n400 * 400 + n100 * 100 + u * 4" by (simp add: True u_def)
    have "?y = u * 4 + (n400 * 4 + n100) * 100" unfolding y by simp
    then have "?y mod 100 = (u * 4) mod 100" by (simp only: mod_mult_self1)
    moreover have "(u * 4) mod 100 = 0 \<longleftrightarrow> u = 25" using u by (cases "u = 25") auto
    ultimately have 100: "?y mod 100 = 0 \<longleftrightarrow> u = 25" by (simp only:)
    have "?y = (n100 * 100 + u * 4) + n400 * 400" unfolding y by simp
    then have "?y mod 400 = (n100 * 100 + u * 4) mod 400" by (simp only: mod_mult_self1)
    moreover have "u = 25 \<Longrightarrow> (n100 * 100 + u * 4) mod 400 = 0 \<longleftrightarrow> n100 = 3"
      using n(3) by (cases "n100 = 3") auto
    ultimately have 400: "u = 25 \<Longrightarrow> ?y mod 400 = 0 \<longleftrightarrow> n100 = 3" by (simp only:)
    have 40: "u \<noteq> 25 \<Longrightarrow> ?y mod 100 \<noteq> 0" using 100 by blast
    have "n4 \<noteq> 24 \<longleftrightarrow> u \<noteq> 25" by (simp add: u_def)
    with 4 100 400 40 True show ?thesis unfolding is_leap_def by metis
  next
    case False
    with 4 show ?thesis unfolding is_leap_def by metis
  qed
qed

lemma ord2ymd_valid:
  assumes "ord2ymd ord = (y, m, d)"
  shows "1 \<le> m \<and> m \<le> 12 \<and> 1 \<le> d \<and> d \<le> days_in_month (is_leap y) m"
proof -
  define n400 where "n400 = (ord - 1) div 146097"
  define r400 where "r400 = (ord - 1) mod 146097"
  define n100 where "n100 = r400 div 36524"
  define r100 where "r100 = r400 mod 36524"
  define n4 where "n4 = r100 div 1461"
  define r4 where "r4 = r100 mod 1461"
  define n1 where "n1 = r4 div 365"
  define r1 where "r1 = r4 mod 365"
  note defs = n400_def r400_def n100_def r100_def n4_def r4_def n1_def r1_def
  have r: "r100 < 36524" "r4 < 1461" "r1 < 365" "r400 < 146097" by (simp_all add: defs)
  have le: "n4 \<le> 24" "n100 \<le> 4" "n1 \<le> 4"
    using r by (simp_all add: n4_def n100_def n1_def div_le_mono less_mult_imp_div_less
        flip: less_Suc_eq_le)
  have eq: "ord2ymd ord = (if n1 = 4 \<or> n100 = 4 then (n400 * 400 + 1 + n100 * 100 + n4 * 4 + n1 - 1, 12, 31)
      else (n400 * 400 + 1 + n100 * 100 + n4 * 4 + n1, month_of_day (n1 = 3 \<and> (n4 \<noteq> 24 \<or> n100 = 3)) r1))"
    by (simp add: ord2ymd_def Let_def defs)
  show ?thesis
  proof (cases "n1 = 4 \<or> n100 = 4")
    case True
    with assms eq show ?thesis by (auto simp: days_in_month_def)
  next
    case False
    with le have small: "n1 \<le> 3" "n100 \<le> 3" by auto
    have "month_of_day (is_leap y) r1 = (m, d)"
      using assms eq False is_leap_cycle [OF small(1) le(1) small(2), of n400] by auto
    with r show ?thesis by (intro month_of_day_valid [of r1]) auto
  qed
qed

lemma ord2ymd_year:
  assumes "ord2ymd ord = (y, m, d)" and "1 \<le> ord"
  shows "1 \<le> y \<and> (y - 1) * 365 \<le> ord"
proof -
  define n where "n = ord - 1"
  define n400 where "n400 = n div 146097"
  define r400 where "r400 = n mod 146097"
  define n100 where "n100 = r400 div 36524"
  define r100 where "r100 = r400 mod 36524"
  define n4 where "n4 = r100 div 1461"
  define r4 where "r4 = r100 mod 1461"
  define n1 where "n1 = r4 div 365"
  define r1 where "r1 = r4 mod 365"
  note defs = n_def n400_def r400_def n100_def r100_def n4_def r4_def n1_def r1_def
  have split: "n = n400 * 146097 + r400" "r400 = n100 * 36524 + r100" "r100 = n4 * 1461 + r4" "r4 = n1 * 365 + r1"
    by (simp_all add: n400_def r400_def n100_def r100_def n4_def r4_def n1_def r1_def)
  have "y = (if n1 = 4 \<or> n100 = 4 then n400 * 400 + 1 + n100 * 100 + n4 * 4 + n1 - 1
      else n400 * 400 + 1 + n100 * 100 + n4 * 4 + n1)"
    using assms(1) by (auto simp: ord2ymd_def Let_def defs split: if_splits prod.splits)
  then show ?thesis using split assms(2) by (auto simp: n_def split: if_splits)
qed

lemma valid_add_seconds:
  assumes v: "valid_datetime d" and y: "dt_year (add_seconds d n) \<le> 9999"
  shows "valid_datetime (add_seconds d n)"
proof -
  define t where "t = dt_hour d * 3600 + dt_minute d * 60 + dt_second d + n"
  obtain y' m' d' where o: "ord2ymd (ymd2ord (dt_year d) (dt_month d) (dt_day d) + t div 86400) = (y', m', d')"
    by (metis prod_cases3)
  have a: "add_seconds d n = d\<lparr>dt_year := y', dt_month := m', dt_day := d',
      dt_hour := t mod 86400 div 3600, dt_minute := t mod 86400 mod 3600 div 60, dt_second := t mod 86400 mod 60\<rparr>"
    using o by (simp add: add_seconds_def t_def Let_def)
  have "1 \<le> ymd2ord (dt_year d) (dt_month d) (dt_day d) + t div 86400"
    using v by (simp add: valid_datetime_def ymd2ord_def)
  with ord2ymd_year [OF o] have "1 \<le> y'" by simp
  moreover have "t mod 86400 div 3600 < 24" "t mod 86400 mod 3600 div 60 < 60" "t mod 86400 mod 60 < 60"
    by (simp_all add: div_less_iff_less_mult)
  ultimately show ?thesis
    using v y ord2ymd_valid [OF o] by (simp add: valid_datetime_def a)
qed

lemma year_add_seconds:
  assumes "valid_datetime d"
  shows "(dt_year (add_seconds d n) - 1) * 365 \<le> ymd2ord (dt_year d) (dt_month d) (dt_day d) + 1 + n div 86400"
proof -
  define s where "s = dt_hour d * 3600 + dt_minute d * 60 + dt_second d"
  obtain y' m' d' where o: "ord2ymd (ymd2ord (dt_year d) (dt_month d) (dt_day d) + (s + n) div 86400) = (y', m', d')"
    by (metis prod_cases3)
  have "dt_year (add_seconds d n) = y'" using o by (simp add: add_seconds_def s_def Let_def)
  moreover have "s < 86400" using assms by (simp add: valid_datetime_def s_def)
  then have "(s + n) div 86400 \<le> 1 + n div 86400" by linarith
  moreover have "1 \<le> ymd2ord (dt_year d) (dt_month d) (dt_day d)"
    using assms by (simp add: valid_datetime_def ymd2ord_def)
  ultimately show ?thesis using ord2ymd_year [OF o] by linarith
qed

end
