(* ===== verification/Wire_Models.thy ===== *)
theory Wire_Models
  imports Py_Time
begin

text \<open>
  The wire contract of the DeepSee connector (\<open>app/connectors/deepsee/models.py\<close>): the
  dataclasses as records, the exception classes with their envelopes, and
  \<open>contract_error\<close>. A Python float that is only stored, compared or negated is a rational
  (finite floats are rationals and these operations are exact on them); entity IDs are
  typed \<open>int\<close> as the dataclasses declare them.
\<close>

section \<open>Constants\<close>

definition SUPPORTED_ENTITY_KEY_TYPE :: string where
  "SUPPORTED_ENTITY_KEY_TYPE = ''INT64''"

definition SUPPORTED_BITMAP_ENCODING :: string where
  "SUPPORTED_BITMAP_ENCODING = ''roaring64''"

definition CHANGE_TYPE_ADDED :: string where
  "CHANGE_TYPE_ADDED = ''added''"

definition CHANGE_TYPE_REMOVED :: string where
  "CHANGE_TYPE_REMOVED = ''removed''"

definition CHANGE_TYPE_SCORE_CHANGED :: string where
  "CHANGE_TYPE_SCORE_CHANGED = ''score_changed''"

definition VALID_CHANGE_TYPES :: "string list" where
  "VALID_CHANGE_TYPES = [CHANGE_TYPE_ADDED, CHANGE_TYPE_REMOVED, CHANGE_TYPE_SCORE_CHANGED]"

lemmas change_type_defs =
  CHANGE_TYPE_ADDED_def CHANGE_TYPE_REMOVED_def CHANGE_TYPE_SCORE_CHANGED_def VALID_CHANGE_TYPES_def

lemma change_types_distinct [simp]:
  "CHANGE_TYPE_ADDED \<noteq> CHANGE_TYPE_REMOVED" "CHANGE_TYPE_REMOVED \<noteq> CHANGE_TYPE_ADDED"
  "CHANGE_TYPE_ADDED \<noteq> CHANGE_TYPE_SCORE_CHANGED" "CHANGE_TYPE_SCORE_CHANGED \<noteq> CHANGE_TYPE_ADDED"
  "CHANGE_TYPE_REMOVED \<noteq> CHANGE_TYPE_SCORE_CHANGED" "CHANGE_TYPE_SCORE_CHANGED \<noteq> CHANGE_TYPE_REMOVED"
  by (simp_all add: change_type_defs)

section \<open>Messages\<close>

type_synonym score = rat

record change_event =
  ce_event_id :: string
  ce_entity_id :: int
  ce_change_type :: string
  ce_score :: "score option"
  ce_effective_at :: string
  ce_watermark :: string

definition py_list_repr :: "string list \<Rightarrow> string" where
  "py_list_repr xs = ''['' @ join_text '', '' (map py_repr xs) @ '']''"

definition mk_change_event ::
  "string \<Rightarrow> int \<Rightarrow> string \<Rightarrow> score option \<Rightarrow> string \<Rightarrow> string \<Rightarrow> py_exc + change_event" where
  \<comment> \<open>the constructor with its \<open>__post_init__\<close> check\<close>
  "mk_change_event event_id entity_id change_type sc effective_at watermark =
     (if change_type \<notin> set VALID_CHANGE_TYPES
      then Inl (ValueError (''Invalid change_type '' @ py_repr change_type @ ''; expected one of ''
                  @ py_list_repr (sort VALID_CHANGE_TYPES) @ ''.''))
      else Inr \<lparr>ce_event_id = event_id, ce_entity_id = entity_id, ce_change_type = change_type,
                ce_score = sc, ce_effective_at = effective_at, ce_watermark = watermark\<rparr>)"

record snapshot_page =
  sp_entity_key_type :: string
  sp_data_as_of :: string
  sp_watermark :: string
  sp_entity_ids :: "int list option"
  sp_membership_bitmap :: "string option"
  sp_bitmap_encoding :: "string option"
  sp_scores :: "(int, score) dict"
  sp_evidence_refs :: "(int, string) dict"
  sp_next_cursor :: "string option"

record change_batch =
  cb_events :: "change_event list"
  cb_data_as_of :: string
  cb_watermark :: string
  cb_next_cursor :: "string option"

text \<open>A relational row is a dict from column names to cells.\<close>

datatype cell = CInt int | CNum rat | CText string | CNone

type_synonym row = "(string, cell) dict"

fun cell_eq :: "cell \<Rightarrow> cell \<Rightarrow> bool" where
  \<comment> \<open>Python's \<open>==\<close>: an int equals the float of the same value\<close>
  "cell_eq (CInt i) (CNum q) = (of_int i = q)"
| "cell_eq (CNum q) (CInt i) = (q = of_int i)"
| "cell_eq a b = (a = b)"

definition row_get :: "row \<Rightarrow> string \<Rightarrow> cell" where
  \<comment> \<open>\<open>row.get(c)\<close>\<close>
  "row_get r c = (case dict_get r c of None \<Rightarrow> CNone | Some v \<Rightarrow> v)"

record cases_response =
  cr_resource :: string
  cr_rows :: "row list"
  cr_schema :: "(string, string) dict"
  cr_data_as_of :: string
  cr_watermark :: string
  cr_next_cursor :: "string option"

text \<open>
  \<open>contextql.providers.EntityFilter\<close> is not part of the repository: what the connector reads
  of one is its column, its encoding, its cardinality and the set \<open>ids()\<close> returns.
\<close>

record entity_filter =
  ef_column :: string
  ef_bitmap_encoding :: "string option"
  ef_cardinality :: int
  ef_ids :: "int list"

section \<open>Errors\<close>

record error_envelope =
  ee_code :: string
  ee_message :: string
  ee_retryable :: bool
  ee_retry_after_ms :: "int option"

datatype ds_class =
    DeepSeeRetryableError | DeepSeeTimeoutError | DeepSeeRateLimitError
  | DeepSeeTerminalError | DeepSeeAuthError | DeepSeeContractError | DeepSeeStaleDataError

text \<open>The exceptions a connector call can end with.\<close>

datatype ds_exc =
    DeepSee ds_class error_envelope
  | CredentialResolutionError string
  | Py py_exc

fun is_retryable_class :: "ds_class \<Rightarrow> bool" where
  \<comment> \<open>\<open>isinstance(exc, DeepSeeRetryableError)\<close>\<close>
  "is_retryable_class DeepSeeRetryableError = True"
| "is_retryable_class DeepSeeTimeoutError = True"
| "is_retryable_class DeepSeeRateLimitError = True"
| "is_retryable_class _ = False"

fun is_contract_class :: "ds_class \<Rightarrow> bool" where
  \<comment> \<open>\<open>isinstance(exc, DeepSeeContractError)\<close>\<close>
  "is_contract_class DeepSeeContractError = True"
| "is_contract_class DeepSeeStaleDataError = True"
| "is_contract_class _ = False"

fun is_retryable :: "ds_exc \<Rightarrow> bool" where
  "is_retryable (DeepSee c env) = is_retryable_class c"
| "is_retryable _ = False"

fun is_contract_error :: "ds_exc \<Rightarrow> bool" where
  "is_contract_error (DeepSee c env) = is_contract_class c"
| "is_contract_error _ = False"

fun ds_text :: "ds_exc \<Rightarrow> string" where
  \<comment> \<open>\<open>f"[{envelope.code}] {envelope.message}"\<close>\<close>
  "ds_text (DeepSee c env) = ''['' @ ee_code env @ ''] '' @ ee_message env"
| "ds_text (CredentialResolutionError m) = m"
| "ds_text (Py e) = exc_text e"

definition contract_error :: "string \<Rightarrow> ds_exc" where
  "contract_error m =
     DeepSee DeepSeeContractError
       \<lparr>ee_code = ''CONTRACT_VIOLATION'', ee_message = m, ee_retryable = False, ee_retry_after_ms = None\<rparr>"

lemma is_contract_error_contract_error [simp]: "is_contract_error (contract_error m)"
  by (simp add: contract_error_def)

lemma not_retryable_contract_error [simp]: "\<not> is_retryable (contract_error m)"
  by (simp add: contract_error_def)

lemma retryable_not_contract: "is_retryable e \<Longrightarrow> \<not> is_contract_error e"
  by (cases e; simp) (rename_tac c env; case_tac c; simp)

lemma mk_change_event_Inr:
  "mk_change_event i x t sc e w = Inr ev \<longleftrightarrow>
     t \<in> set VALID_CHANGE_TYPES \<and>
     ev = \<lparr>ce_event_id = i, ce_entity_id = x, ce_change_type = t, ce_score = sc,
           ce_effective_at = e, ce_watermark = w\<rparr>"
  by (auto simp: mk_change_event_def)

end
