(* ===== verification/Mock_Service.thy ===== *)
theory Mock_Service
  imports Wire_Models
begin

text \<open>
  The in-process DeepSee endpoint (\<open>app/connectors/deepsee/mock_service.py\<close>): its state, the
  world mutations that emit change events, and the three wire operations. An operation is a
  program on the service: the call counter and the failure queue change even when it raises.
  The roaring bitmap codec (pyroaring) is the parameter \<open>serialize\<close>.
\<close>

section \<open>Constants\<close>

definition FAILURE_RETRYABLE :: string where "FAILURE_RETRYABLE = ''retryable''"
definition FAILURE_TERMINAL :: string where "FAILURE_TERMINAL = ''terminal''"
definition FAILURE_AUTH :: string where "FAILURE_AUTH = ''auth''"
definition FAILURE_TIMEOUT :: string where "FAILURE_TIMEOUT = ''timeout''"
definition FAILURE_RATE_LIMIT :: string where "FAILURE_RATE_LIMIT = ''rate_limit''"

definition VALID_FAILURES :: "string list" where
  "VALID_FAILURES =
     [FAILURE_RETRYABLE, FAILURE_TERMINAL, FAILURE_AUTH, FAILURE_TIMEOUT, FAILURE_RATE_LIMIT]"

lemmas failure_defs =
  FAILURE_RETRYABLE_def FAILURE_TERMINAL_def FAILURE_AUTH_def FAILURE_TIMEOUT_def FAILURE_RATE_LIMIT_def

definition BASE_TIME :: datetime where
  "BASE_TIME = \<lparr>dt_year = 2026, dt_month = 7, dt_day = 1, dt_hour = 0, dt_minute = 0,
                dt_second = 0, dt_micro = 0, dt_tz = Some 0\<rparr>"

definition STALE_DATA_AS_OF :: string where
  "STALE_DATA_AS_OF = ''2000-01-01T00:00:00+00:00''"

definition RETRY_AFTER_MS :: int where "RETRY_AFTER_MS = 100"

definition BREAK_TYPES :: "string list" where
  "BREAK_TYPES = [''quantity_mismatch'', ''price_mismatch'', ''missing_confirmation'', ''ssi_mismatch'']"

definition ACTIONS :: "string list" where
  "ACTIONS = [''amend_and_resubmit'', ''affirm_with_counterparty'', ''escalate_to_desk'', ''cancel_and_rebook'']"

definition OWNERS :: "string list" where
  "OWNERS = [''ops-alice'', ''ops-bob'', ''ops-carol'']"

definition CASE_STATUSES :: "string list" where
  "CASE_STATUSES = [''open'', ''investigating'', ''resolved'']"

definition RESOURCE_SETTLEMENT_CASES :: string where
  "RESOURCE_SETTLEMENT_CASES = ''settlement_cases''"

definition RESOURCE_RECONCILIATION_EVIDENCE :: string where
  "RESOURCE_RECONCILIATION_EVIDENCE = ''reconciliation_evidence''"

definition VALID_RESOURCES :: "string list" where
  "VALID_RESOURCES = [RESOURCE_SETTLEMENT_CASES, RESOURCE_RECONCILIATION_EVIDENCE]"

definition CASE_SCHEMA :: "(string, string) dict" where
  "CASE_SCHEMA =
     [(''transaction_id'', ''INT64''), (''break_type'', ''VARCHAR''),
      (''recommended_action'', ''VARCHAR''), (''agent_decision'', ''VARCHAR''),
      (''confidence'', ''DOUBLE''), (''explanation'', ''VARCHAR''), (''evidence_ref'', ''VARCHAR''),
      (''case_status'', ''VARCHAR''), (''owner'', ''VARCHAR''), (''last_reviewed_at'', ''VARCHAR'')]"

definition default_membership :: "int \<Rightarrow> int \<Rightarrow> (int, score) dict" where
  \<comment> \<open>the decimal hundredths the float literals stand for\<close>
  "default_membership count start_id =
     map (\<lambda>offset. (start_id + offset, of_int (50 + offset mod 50) / 100)) [0..count - 1]"

section \<open>State\<close>

datatype filter_value = FScalar cell | FCollection "cell list"

record case_request =
  rq_resource :: string
  rq_filters :: "(string, filter_value) dict"
  rq_columns :: "string list"
  rq_limit :: "int option"
  rq_entity_filter_encoding :: "string option"
  rq_entity_filter_cardinality :: "int option"
  rq_entity_filter :: "entity_filter option"

record mock_service =
  ms_members :: "(int, score) dict"
  ms_page_size :: int
  ms_require_auth :: bool
  ms_bitmap_snapshot :: bool
  ms_malformed_bitmap :: bool
  ms_invalid_key_type :: bool
  ms_stale_data_as_of :: bool
  ms_duplicate_delivery :: bool
  ms_out_of_order :: bool
  ms_redeliver_from_start :: bool
  ms_events :: "change_event list"
  ms_seq :: nat
  ms_failures :: "string list"
  ms_call_count :: nat
  ms_last_case_request :: "case_request option"

definition mock_service_init :: "(int, score) dict option \<Rightarrow> int \<Rightarrow> mock_service" where
  \<comment> \<open>every behaviour flag at its default, \<open>False\<close>\<close>
  "mock_service_init members page_size =
     \<lparr>ms_members = (case members of None \<Rightarrow> default_membership 40 1000 | Some d \<Rightarrow> d),
      ms_page_size = page_size, ms_require_auth = False, ms_bitmap_snapshot = False,
      ms_malformed_bitmap = False, ms_invalid_key_type = False, ms_stale_data_as_of = False,
      ms_duplicate_delivery = False, ms_out_of_order = False, ms_redeliver_from_start = False,
      ms_events = [], ms_seq = 0, ms_failures = [], ms_call_count = 0,
      ms_last_case_request = None\<rparr>"

definition queue_failure :: "string \<Rightarrow> int \<Rightarrow> mock_service \<Rightarrow> py_exc + mock_service" where
  "queue_failure kind count s =
     (if kind \<notin> set VALID_FAILURES
      then Inl (ValueError (''Unknown failure kind '' @ py_repr kind @ ''; expected one of ''
                  @ py_list_repr (sort VALID_FAILURES) @ ''.''))
      else Inr (s\<lparr>ms_failures := ms_failures s @ replicate (nat count) kind\<rparr>))"

section \<open>World mutation\<close>

definition watermark_text :: "nat \<Rightarrow> string" where
  "watermark_text seq = pad_zeros 12 seq"

definition event_id_text :: "nat \<Rightarrow> string" where
  "event_id_text seq = ''evt-'' @ pad_zeros 8 seq"

definition record_event :: "int \<Rightarrow> string \<Rightarrow> score option \<Rightarrow> (ds_exc, mock_service, change_event) prog" where
  "record_event entity_id change_type sc =
     bindP (modP (\<lambda>s. s\<lparr>ms_seq := ms_seq s + 1\<rparr>)) (\<lambda>_.
     bindP (readP ms_seq) (\<lambda>seq.
     case mk_change_event (event_id_text seq) entity_id change_type sc
            (isoformat (add_seconds BASE_TIME seq)) (watermark_text seq) of
       Inl e \<Rightarrow> raise (Py e)
     | Inr event \<Rightarrow>
         bindP (modP (\<lambda>s. s\<lparr>ms_events := ms_events s @ [event]\<rparr>)) (\<lambda>_. ret event)))"

definition add_member :: "int \<Rightarrow> score \<Rightarrow> (ds_exc, mock_service, change_event) prog" where
  "add_member entity_id sc =
     bindP (modP (\<lambda>s. s\<lparr>ms_members := dict_set entity_id sc (ms_members s)\<rparr>)) (\<lambda>_.
     record_event entity_id CHANGE_TYPE_ADDED (Some sc))"

definition remove_member :: "int \<Rightarrow> (ds_exc, mock_service, change_event) prog" where
  "remove_member entity_id =
     bindP (modP (\<lambda>s. s\<lparr>ms_members := dict_pop entity_id (ms_members s)\<rparr>)) (\<lambda>_.
     record_event entity_id CHANGE_TYPE_REMOVED None)"

definition change_score :: "int \<Rightarrow> score \<Rightarrow> (ds_exc, mock_service, change_event) prog" where
  "change_score entity_id sc =
     bindP (readP (\<lambda>s. dict_get (ms_members s) entity_id)) (\<lambda>cur.
     case cur of
       None \<Rightarrow> raise (Py (ValueError (''Entity '' @ show_int entity_id @ '' is not a current member.'')))
     | Some _ \<Rightarrow>
         bindP (modP (\<lambda>s. s\<lparr>ms_members := dict_set entity_id sc (ms_members s)\<rparr>)) (\<lambda>_.
         record_event entity_id CHANGE_TYPE_SCORE_CHANGED (Some sc)))"

section \<open>Internals of the wire operations\<close>

definition mk_failure :: "string \<Rightarrow> ds_exc" where
  \<comment> \<open>the exception \<open>_raise_failure(kind)\<close> raises\<close>
  "mk_failure kind =
     (if kind = FAILURE_RETRYABLE then
        DeepSee DeepSeeRetryableError
          \<lparr>ee_code = ''SERVICE_UNAVAILABLE'', ee_message = ''DeepSee service temporarily unavailable (503).'',
           ee_retryable = True, ee_retry_after_ms = None\<rparr>
      else if kind = FAILURE_TIMEOUT then
        DeepSee DeepSeeTimeoutError
          \<lparr>ee_code = ''TIMEOUT'', ee_message = ''DeepSee request timed out.'',
           ee_retryable = True, ee_retry_after_ms = None\<rparr>
      else if kind = FAILURE_RATE_LIMIT then
        DeepSee DeepSeeRateLimitError
          \<lparr>ee_code = ''RATE_LIMITED'', ee_message = ''DeepSee rate limit exceeded.'',
           ee_retryable = True, ee_retry_after_ms = Some RETRY_AFTER_MS\<rparr>
      else if kind = FAILURE_AUTH then
        DeepSee DeepSeeAuthError
          \<lparr>ee_code = ''AUTH_FAILED'', ee_message = ''DeepSee rejected the supplied credential.'',
           ee_retryable = False, ee_retry_after_ms = None\<rparr>
      else
        DeepSee DeepSeeTerminalError
          \<lparr>ee_code = ''INTERNAL_ERROR'', ee_message = ''DeepSee reported an unrecoverable internal error.'',
           ee_retryable = False, ee_retry_after_ms = None\<rparr>)"

definition auth_failed :: ds_exc where
  "auth_failed =
     DeepSee DeepSeeAuthError
       \<lparr>ee_code = ''AUTH_FAILED'', ee_message = ''Missing or invalid DeepSee credential.'',
        ee_retryable = False, ee_retry_after_ms = None\<rparr>"

definition token_missing :: "string option \<Rightarrow> bool" where
  \<comment> \<open>\<open>not token\<close>\<close>
  "token_missing token = (case token of None \<Rightarrow> True | Some t \<Rightarrow> t = [])"

definition enter_call :: "string option \<Rightarrow> (ds_exc, mock_service, unit) prog" where
  "enter_call token =
     bindP (modP (\<lambda>s. s\<lparr>ms_call_count := ms_call_count s + 1\<rparr>)) (\<lambda>_.
     bindP (readP ms_failures) (\<lambda>failures.
     bindP (case failures of
              [] \<Rightarrow> ret ()
            | kind # rest \<Rightarrow>
                bindP (modP (\<lambda>s. s\<lparr>ms_failures := rest\<rparr>)) (\<lambda>_. raise (mk_failure kind))) (\<lambda>_.
     bindP (readP ms_require_auth) (\<lambda>require.
     guardP (\<not> (require \<and> token_missing token)) auth_failed))))"

definition mock_watermark :: "mock_service \<Rightarrow> string" where
  "mock_watermark s = watermark_text (ms_seq s)"

definition mock_data_as_of :: "mock_service \<Rightarrow> string" where
  "mock_data_as_of s =
     (if ms_stale_data_as_of s then STALE_DATA_AS_OF
      else isoformat (add_seconds BASE_TIME (ms_seq s)))"

definition mock_entity_key_type :: "mock_service \<Rightarrow> string" where
  "mock_entity_key_type s = (if ms_invalid_key_type s then ''STRING'' else SUPPORTED_ENTITY_KEY_TYPE)"

definition evidence_ref :: "int \<Rightarrow> string" where
  "evidence_ref entity_id = ''deepsee://case/'' @ show_int entity_id"

definition parse_cursor :: "string option \<Rightarrow> ds_exc + int" where
  \<comment> \<open>\<open>int(cursor) if cursor is not None else 0\<close>\<close>
  "parse_cursor cursor =
     (case cursor of None \<Rightarrow> Inr 0
      | Some c \<Rightarrow> (case py_int c of
          None \<Rightarrow> Inl (Py (ValueError (invalid_int_text c)))
        | Some i \<Rightarrow> Inr i))"

definition next_cursor_after :: "int \<Rightarrow> int \<Rightarrow> nat \<Rightarrow> string option" where
  \<comment> \<open>\<open>str(offset + page_size) if offset + page_size < len(...) else None\<close>\<close>
  "next_cursor_after offset page_size n =
     (if offset + page_size < int n then Some (show_int (offset + page_size)) else None)"

definition score_of :: "(int, score) dict \<Rightarrow> int \<Rightarrow> score" where
  \<comment> \<open>\<open>d[i]\<close> for a key that is present\<close>
  "score_of d i = (case dict_get d i of None \<Rightarrow> 0 | Some q \<Rightarrow> q)"

definition member_dict :: "mock_service \<Rightarrow> int list \<Rightarrow> (int, score) dict" where
  \<comment> \<open>\<open>{i: self._members[i] for i in ids}\<close>, the ids being members\<close>
  "member_dict s ids = map (\<lambda>i. (i, score_of (ms_members s) i)) ids"

section \<open>Wire operations\<close>

definition bitmap_snapshot_page :: "(int set \<Rightarrow> string) \<Rightarrow> mock_service \<Rightarrow> snapshot_page" where
  "bitmap_snapshot_page serialize s =
     \<lparr>sp_entity_key_type = mock_entity_key_type s, sp_data_as_of = mock_data_as_of s,
      sp_watermark = mock_watermark s, sp_entity_ids = None,
      sp_membership_bitmap =
        Some (if ms_malformed_bitmap s then ''this-is-not-a-roaring64-bitmap''
              else serialize (set (dict_keys (ms_members s)))),
      sp_bitmap_encoding = Some SUPPORTED_BITMAP_ENCODING,
      sp_scores = ms_members s,
      sp_evidence_refs = map (\<lambda>i. (i, evidence_ref i)) (dict_keys (ms_members s)),
      sp_next_cursor = None\<rparr>"

definition id_snapshot_page :: "mock_service \<Rightarrow> int \<Rightarrow> snapshot_page" where
  "id_snapshot_page s offset =
     (let ordered = sort (dict_keys (ms_members s));
          page_ids = py_slice ordered offset (offset + ms_page_size s)
      in \<lparr>sp_entity_key_type = mock_entity_key_type s, sp_data_as_of = mock_data_as_of s,
          sp_watermark = mock_watermark s, sp_entity_ids = Some page_ids,
          sp_membership_bitmap = None, sp_bitmap_encoding = None,
          sp_scores = member_dict s page_ids,
          sp_evidence_refs = map (\<lambda>i. (i, evidence_ref i)) page_ids,
          sp_next_cursor = next_cursor_after offset (ms_page_size s) (length ordered)\<rparr>)"

definition snapshot ::
  "(int set \<Rightarrow> string) \<Rightarrow> string option \<Rightarrow> string option \<Rightarrow> (ds_exc, mock_service, snapshot_page) prog" where
  "snapshot serialize cursor token =
     bindP (enter_call token) (\<lambda>_.
     bindP (readP ms_bitmap_snapshot) (\<lambda>bitmap.
     if bitmap then readP (bitmap_snapshot_page serialize)
     else bindP (liftE (parse_cursor cursor)) (\<lambda>offset. readP (\<lambda>s. id_snapshot_page s offset))))"

definition pending_events :: "mock_service \<Rightarrow> int \<Rightarrow> change_event list" where
  \<comment> \<open>the events \<open>changes\<close> pages through; the watermarks of the service's own events are integers\<close>
  "pending_events s since =
     (let p0 = (if ms_redeliver_from_start s then ms_events s
                else filter (\<lambda>e. case py_int (ce_watermark e) of None \<Rightarrow> False | Some w \<Rightarrow> w > since) (ms_events s));
          p1 = (if ms_out_of_order s then rev p0 else p0)
      in if ms_duplicate_delivery s then concat (map (\<lambda>e. [e, e]) p1) else p1)"

definition changes ::
  "string \<Rightarrow> string option \<Rightarrow> string option \<Rightarrow> (ds_exc, mock_service, change_batch) prog" where
  "changes since_watermark cursor token =
     bindP (enter_call token) (\<lambda>_.
     bindP (liftE (parse_cursor (Some since_watermark))) (\<lambda>since.
     bindP (readP (\<lambda>s. pending_events s since)) (\<lambda>pending.
     bindP (liftE (parse_cursor cursor)) (\<lambda>offset.
     readP (\<lambda>s.
       \<lparr>cb_events = py_slice pending offset (offset + ms_page_size s),
        cb_data_as_of = mock_data_as_of s, cb_watermark = mock_watermark s,
        cb_next_cursor = next_cursor_after offset (ms_page_size s) (length pending)\<rparr>)))))"

definition case_row :: "string \<Rightarrow> int \<Rightarrow> score \<Rightarrow> row" where
  "case_row resource entity_id sc =
     (let break_type = BREAK_TYPES ! nat (entity_id mod int (length BREAK_TYPES));
          prefix = (if resource = RESOURCE_RECONCILIATION_EVIDENCE then ''Reconciliation'' else ''Settlement'')
      in [(''transaction_id'', CInt entity_id),
          (''break_type'', CText break_type),
          (''recommended_action'', CText (ACTIONS ! nat (entity_id mod int (length ACTIONS)))),
          (''agent_decision'', CText (if entity_id mod 2 = 0 then ''auto_resolve'' else ''route_to_human'')),
          (''confidence'', CNum sc),
          (''explanation'', CText (prefix @ '' break on transaction '' @ show_int entity_id @ '': ''
                               @ break_type @ '' detected.'')),
          (''evidence_ref'', CText (evidence_ref entity_id)),
          (''case_status'', CText (CASE_STATUSES ! nat (entity_id mod int (length CASE_STATUSES)))),
          (''owner'', CText (OWNERS ! nat (entity_id mod int (length OWNERS)))),
          (''last_reviewed_at'', CText (isoformat (add_seconds BASE_TIME (60 * nat (entity_id mod 60)))))])"

fun filter_admits :: "string \<times> filter_value \<Rightarrow> row \<Rightarrow> bool" where
  "filter_admits (key, FCollection vs) r = list_ex (cell_eq (row_get r key)) vs"
| "filter_admits (key, FScalar v) r = cell_eq (row_get r key) v"

definition project_row :: "string list \<Rightarrow> row \<Rightarrow> row" where
  \<comment> \<open>\<open>{c: row.get(c) for c in columns}\<close>\<close>
  "project_row columns r = dict_update [] (map (\<lambda>c. (c, row_get r c)) columns)"

definition case_rows ::
  "string \<Rightarrow> (string, filter_value) dict \<Rightarrow> string list \<Rightarrow> int option \<Rightarrow> int list option \<Rightarrow> mock_service \<Rightarrow> row list" where
  "case_rows resource filters columns limit requested s =
     (let rows = map (\<lambda>(i, sc). case_row resource i sc)
                   (filter (\<lambda>(i, sc). case requested of None \<Rightarrow> True | Some ids \<Rightarrow> i \<in> set ids)
                     (sort (ms_members s)));
          filtered = foldl (\<lambda>rs f. filter (filter_admits f) rs) rows filters;
          projected = (if columns \<noteq> [] then map (project_row columns) filtered else filtered)
      in case limit of None \<Rightarrow> projected | Some n \<Rightarrow> py_slice_to projected n)"

definition case_request_of ::
  "string \<Rightarrow> (string, filter_value) dict option \<Rightarrow> string list option \<Rightarrow> int option \<Rightarrow> entity_filter option \<Rightarrow> case_request" where
  "case_request_of resource filters columns limit ef =
     \<lparr>rq_resource = resource, rq_filters = (case filters of None \<Rightarrow> [] | Some f \<Rightarrow> f),
      rq_columns = (case columns of None \<Rightarrow> [] | Some c \<Rightarrow> c), rq_limit = limit,
      rq_entity_filter_encoding = Option.bind ef ef_bitmap_encoding,
      rq_entity_filter_cardinality = map_option ef_cardinality ef,
      rq_entity_filter = ef\<rparr>"

definition answer_cases ::
  "string \<Rightarrow> (string, filter_value) dict option \<Rightarrow> string list option \<Rightarrow> int option \<Rightarrow> entity_filter option \<Rightarrow>
   mock_service \<Rightarrow> cases_response" where
  "answer_cases resource filters columns limit ef s =
     (let fs = (case filters of None \<Rightarrow> [] | Some f \<Rightarrow> f);
          cs = (case columns of None \<Rightarrow> [] | Some c \<Rightarrow> c)
      in \<lparr>cr_resource = resource,
          cr_rows = case_rows resource fs cs limit (map_option ef_ids ef) s,
          cr_schema = filter (\<lambda>(c, t). cs = [] \<or> c \<in> set cs) CASE_SCHEMA,
          cr_data_as_of = mock_data_as_of s, cr_watermark = mock_watermark s,
          cr_next_cursor = None\<rparr>)"

definition cases ::
  "string \<Rightarrow> (string, filter_value) dict option \<Rightarrow> string list option \<Rightarrow> int option \<Rightarrow> string option \<Rightarrow>
   entity_filter option \<Rightarrow> (ds_exc, mock_service, cases_response) prog" where
  "cases resource filters columns limit token ef =
     bindP (enter_call token) (\<lambda>_.
     bindP (modP (\<lambda>s. s\<lparr>ms_last_case_request := Some (case_request_of resource filters columns limit ef)\<rparr>)) (\<lambda>_.
     bindP (guardP (resource \<in> set VALID_RESOURCES)
             (DeepSee DeepSeeTerminalError
               \<lparr>ee_code = ''UNKNOWN_RESOURCE'',
                ee_message = ''Unknown resource '' @ py_repr resource @ ''; expected one of ''
                  @ py_list_repr (sort VALID_RESOURCES) @ ''.'',
                ee_retryable = False, ee_retry_after_ms = None\<rparr>)) (\<lambda>_.
     readP (answer_cases resource filters columns limit ef))))"

section \<open>Entering a call\<close>

definition after_call :: "mock_service \<Rightarrow> mock_service" where
  \<comment> \<open>the service after a call entered: counted, one queued failure consumed\<close>
  "after_call s = s\<lparr>ms_call_count := ms_call_count s + 1, ms_failures := tl (ms_failures s)\<rparr>"

lemma after_call_fields [simp]:
  "ms_members (after_call s) = ms_members s" "ms_events (after_call s) = ms_events s"
  "ms_seq (after_call s) = ms_seq s" "ms_page_size (after_call s) = ms_page_size s"
  "ms_failures (after_call s) = tl (ms_failures s)"
  "ms_call_count (after_call s) = ms_call_count s + 1"
  "ms_require_auth (after_call s) = ms_require_auth s"
  "ms_bitmap_snapshot (after_call s) = ms_bitmap_snapshot s"
  "ms_malformed_bitmap (after_call s) = ms_malformed_bitmap s"
  "ms_invalid_key_type (after_call s) = ms_invalid_key_type s"
  "ms_stale_data_as_of (after_call s) = ms_stale_data_as_of s"
  "ms_duplicate_delivery (after_call s) = ms_duplicate_delivery s"
  "ms_out_of_order (after_call s) = ms_out_of_order s"
  "ms_redeliver_from_start (after_call s) = ms_redeliver_from_start s"
  "ms_last_case_request (after_call s) = ms_last_case_request s"
  by (simp_all add: after_call_def)

lemma enter_call_failing:
  "ms_failures s = k # ks \<Longrightarrow> enter_call token s = (Inl (mk_failure k), after_call s)"
  by (simp add: enter_call_def after_call_def bindP_run)

lemma enter_call_clear:
  "ms_failures s = [] \<Longrightarrow>
   enter_call token s =
     ((if ms_require_auth s \<and> token_missing token then Inl auth_failed else Inr ()), after_call s)"
  by (auto simp: enter_call_def after_call_def bindP_run guardP_run)

lemma enter_call_ok:
  "ms_failures s = [] \<Longrightarrow> \<not> (ms_require_auth s \<and> token_missing token) \<Longrightarrow>
   enter_call token s = (Inr (), after_call s)"
  by (simp add: enter_call_clear)

lemma enter_call_bind:
  "ms_failures s = [] \<Longrightarrow> \<not> (ms_require_auth s \<and> token_missing token) \<Longrightarrow>
   bindP (enter_call token) f s = f () (after_call s)"
  by (rule bindP_Inr) (rule enter_call_ok)

lemma enter_call_state: "snd (enter_call token s) = after_call s"
  by (cases "ms_failures s") (simp_all add: enter_call_failing enter_call_clear)

lemma snapshot_failing:
  "ms_failures s = k # ks \<Longrightarrow> snapshot ser cursor token s = (Inl (mk_failure k), after_call s)"
  using bindP_Inl [OF enter_call_failing] by (simp add: snapshot_def)

lemma changes_failing:
  "ms_failures s = k # ks \<Longrightarrow> changes since cursor token s = (Inl (mk_failure k), after_call s)"
  using bindP_Inl [OF enter_call_failing] by (simp add: changes_def)

lemma cases_failing:
  "ms_failures s = k # ks \<Longrightarrow> cases r f c l token ef s = (Inl (mk_failure k), after_call s)"
  using bindP_Inl [OF enter_call_failing] by (simp add: cases_def)

lemma snapshot_state: "snd (snapshot ser cursor token s) = after_call s"
  using enter_call_state [of token s]
  by (auto simp: snapshot_def bindP_run split: prod.splits sum.splits)

lemma changes_state: "snd (changes since cursor token s) = after_call s"
  using enter_call_state [of token s]
  by (auto simp: changes_def bindP_run split: prod.splits sum.splits)

lemma service_metadata_after_call [simp]:
  "mock_entity_key_type (after_call s) = mock_entity_key_type s"
  "mock_data_as_of (after_call s) = mock_data_as_of s"
  "mock_watermark (after_call s) = mock_watermark s"
  by (simp_all add: mock_entity_key_type_def mock_data_as_of_def mock_watermark_def)

lemma pages_after_call [simp]:
  "id_snapshot_page (after_call s) k = id_snapshot_page s k"
  "bitmap_snapshot_page ser (after_call s) = bitmap_snapshot_page ser s"
  "pending_events (after_call s) since = pending_events s since"
  by (simp_all add: id_snapshot_page_def bitmap_snapshot_page_def member_dict_def pending_events_def)

lemma snapshot_ids_ok:
  assumes "ms_failures s = []" and "\<not> (ms_require_auth s \<and> token_missing token)"
    and "\<not> ms_bitmap_snapshot s" and "parse_cursor cursor = Inr k"
  shows "snapshot ser cursor token s = (Inr (id_snapshot_page s k), after_call s)"
  using assms(3,4) by (simp add: snapshot_def enter_call_bind [OF assms(1,2)])

lemma snapshot_bitmap_ok:
  assumes "ms_failures s = []" and "\<not> (ms_require_auth s \<and> token_missing token)" and "ms_bitmap_snapshot s"
  shows "snapshot ser cursor token s = (Inr (bitmap_snapshot_page ser s), after_call s)"
  using assms(3) by (simp add: snapshot_def enter_call_bind [OF assms(1,2)])

definition change_page :: "mock_service \<Rightarrow> int \<Rightarrow> int \<Rightarrow> change_batch" where
  \<comment> \<open>the page of changes after \<open>since\<close> that starts at \<open>offset\<close>\<close>
  "change_page s since offset =
     \<lparr>cb_events = py_slice (pending_events s since) offset (offset + ms_page_size s),
      cb_data_as_of = mock_data_as_of s, cb_watermark = mock_watermark s,
      cb_next_cursor = next_cursor_after offset (ms_page_size s) (length (pending_events s since))\<rparr>"

lemma changes_ok:
  assumes "ms_failures s = []" and "\<not> (ms_require_auth s \<and> token_missing token)"
    and "py_int since = Some n" and "parse_cursor cursor = Inr k"
  shows "changes since cursor token s = (Inr (change_page s n k), after_call s)"
  using assms(3,4)
  by (simp add: changes_def enter_call_bind [OF assms(1,2)] parse_cursor_def [of "Some since"] change_page_def)

definition asked :: "case_request \<Rightarrow> mock_service \<Rightarrow> mock_service" where
  "asked request s = s\<lparr>ms_last_case_request := Some request\<rparr>"

lemma asked_fields [simp]:
  "ms_members (asked rq s) = ms_members s" "ms_events (asked rq s) = ms_events s" "ms_seq (asked rq s) = ms_seq s"
  "mock_data_as_of (asked rq s) = mock_data_as_of s" "mock_watermark (asked rq s) = mock_watermark s"
  "ms_call_count (asked rq s) = ms_call_count s" "ms_failures (asked rq s) = ms_failures s"
  by (simp_all add: asked_def mock_data_as_of_def mock_watermark_def)

lemma answer_cases_after_call [simp]: "answer_cases r f c l ef (after_call s) = answer_cases r f c l ef s"
  and answer_cases_asked [simp]: "answer_cases r f c l ef (asked rq s) = answer_cases r f c l ef s"
  by (simp_all add: answer_cases_def case_rows_def Let_def)

lemma cases_ok:
  assumes "ms_failures s = []" and "\<not> (ms_require_auth s \<and> token_missing token)" and "resource \<in> set VALID_RESOURCES"
  shows "cases resource filters columns limit token ef s =
    (Inr (answer_cases resource filters columns limit ef s),
     asked (case_request_of resource filters columns limit ef) (after_call s))"
  using assms(3)
  by (simp add: cases_def enter_call_bind [OF assms(1,2)] asked_def [symmetric])

section \<open>World mutation: the event log describes the membership\<close>

definition apply_event :: "change_event \<Rightarrow> (int \<rightharpoonup> score) \<Rightarrow> (int \<rightharpoonup> score)" where
  \<comment> \<open>what one event says about the membership\<close>
  "apply_event e m =
     (if ce_change_type e = CHANGE_TYPE_ADDED then m(ce_entity_id e := ce_score e)
      else if ce_change_type e = CHANGE_TYPE_REMOVED then m(ce_entity_id e := None)
      else if ce_entity_id e \<in> dom m then m(ce_entity_id e := ce_score e) else m)"

definition replay :: "change_event list \<Rightarrow> (int \<rightharpoonup> score) \<Rightarrow> (int \<rightharpoonup> score)" where
  "replay es m = fold apply_event es m"

lemma replay_Nil [simp]: "replay [] m = m"
  by (simp add: replay_def)

lemma replay_Cons [simp]: "replay (e # es) m = replay es (apply_event e m)"
  by (simp add: replay_def)

lemma replay_append [simp]: "replay (es @ fs) m = replay fs (replay es m)"
  by (simp add: replay_def)

definition new_event :: "mock_service \<Rightarrow> int \<Rightarrow> string \<Rightarrow> score option \<Rightarrow> change_event" where
  "new_event s i t sc =
     \<lparr>ce_event_id = event_id_text (ms_seq s + 1), ce_entity_id = i, ce_change_type = t, ce_score = sc,
      ce_effective_at = isoformat (add_seconds BASE_TIME (ms_seq s + 1)),
      ce_watermark = watermark_text (ms_seq s + 1)\<rparr>"

lemma record_event_run:
  assumes "t \<in> set VALID_CHANGE_TYPES"
  shows "record_event i t sc s =
    (Inr (new_event s i t sc), s\<lparr>ms_seq := ms_seq s + 1, ms_events := ms_events s @ [new_event s i t sc]\<rparr>)"
  using assms by (simp add: record_event_def mk_change_event_def new_event_def)

lemma valid_change_types [simp]:
  "CHANGE_TYPE_ADDED \<in> set VALID_CHANGE_TYPES" "CHANGE_TYPE_REMOVED \<in> set VALID_CHANGE_TYPES"
  "CHANGE_TYPE_SCORE_CHANGED \<in> set VALID_CHANGE_TYPES"
  by (simp_all add: VALID_CHANGE_TYPES_def)

lemma new_event_members [simp]: "new_event (s\<lparr>ms_members := m\<rparr>) i t sc = new_event s i t sc"
  by (simp add: new_event_def)

lemma add_member_run:
  "add_member i q s =
    (let e = new_event s i CHANGE_TYPE_ADDED (Some q)
     in (Inr e, s\<lparr>ms_members := dict_set i q (ms_members s), ms_seq := ms_seq s + 1, ms_events := ms_events s @ [e]\<rparr>))"
  by (simp add: add_member_def record_event_run Let_def)

lemma remove_member_run:
  "remove_member i s =
    (let e = new_event s i CHANGE_TYPE_REMOVED None
     in (Inr e, s\<lparr>ms_members := dict_pop i (ms_members s), ms_seq := ms_seq s + 1, ms_events := ms_events s @ [e]\<rparr>))"
  by (simp add: remove_member_def record_event_run Let_def)

lemma change_score_run:
  "dict_get (ms_members s) i = Some q0 \<Longrightarrow> change_score i q s =
    (let e = new_event s i CHANGE_TYPE_SCORE_CHANGED (Some q)
     in (Inr e, s\<lparr>ms_members := dict_set i q (ms_members s), ms_seq := ms_seq s + 1, ms_events := ms_events s @ [e]\<rparr>))"
  by (simp add: change_score_def record_event_run Let_def)

lemma change_score_missing:
  "dict_get (ms_members s) i = None \<Longrightarrow> \<exists>m. change_score i q s = (Inl (Py (ValueError m)), s)"
  by (simp add: change_score_def)

text \<open>
  A well-formed service: its members are distinct, and its k-th event (from 1) carries the
  watermark and the event ID of sequence number k.
\<close>

definition mock_wf :: "mock_service \<Rightarrow> bool" where
  "mock_wf s \<longleftrightarrow>
     distinct (dict_keys (ms_members s)) \<and> length (ms_events s) = ms_seq s \<and>
     (\<forall>k < length (ms_events s).
        ce_watermark (ms_events s ! k) = watermark_text (k + 1) \<and>
        ce_event_id (ms_events s ! k) = event_id_text (k + 1) \<and>
        ce_change_type (ms_events s ! k) \<in> set VALID_CHANGE_TYPES)"

lemma mock_wf_init: "distinct (dict_keys d) \<Longrightarrow> mock_wf (mock_service_init (Some d) n)"
  by (simp add: mock_wf_def mock_service_init_def)

lemma mock_wf_after_call [simp]: "mock_wf (after_call s) = mock_wf s"
  by (simp add: mock_wf_def)

lemma mock_wf_extend:
  assumes "mock_wf s" and "distinct (dict_keys d)" and "t \<in> set VALID_CHANGE_TYPES"
  shows "mock_wf (s\<lparr>ms_members := d, ms_seq := ms_seq s + 1, ms_events := ms_events s @ [new_event s i t sc]\<rparr>)"
  using assms by (auto simp: mock_wf_def nth_append new_event_def less_Suc_eq)

text \<open>The ways the world behind the service changes, one step per mutation that succeeds.\<close>

inductive mutates :: "mock_service \<Rightarrow> mock_service \<Rightarrow> bool" where
  adds: "add_member i q s = (Inr e, s') \<Longrightarrow> mutates s s'"
| removes: "remove_member i s = (Inr e, s') \<Longrightarrow> mutates s s'"
| rescores: "change_score i q s = (Inr e, s') \<Longrightarrow> mutates s s'"

inductive_cases mutatesE: "mutates s s'"

lemma change_score_InrD:
  assumes "change_score i q s = (Inr e, s')"
  obtains q0 where "dict_get (ms_members s) i = Some q0" and
    "e = new_event s i CHANGE_TYPE_SCORE_CHANGED (Some q)" and
    "s' = s\<lparr>ms_members := dict_set i q (ms_members s), ms_seq := ms_seq s + 1, ms_events := ms_events s @ [e]\<rparr>"
proof (cases "dict_get (ms_members s) i")
  case None
  with assms show ?thesis using change_score_missing [of s i q] by auto
next
  case (Some q0)
  with assms show ?thesis by (intro that [of q0]) (auto simp: change_score_run Let_def)
qed

lemma apply_new_event [simp]:
  "apply_event (new_event s i CHANGE_TYPE_ADDED sc) m = m(i := sc)"
  "apply_event (new_event s i CHANGE_TYPE_REMOVED sc) m = m(i := None)"
  "apply_event (new_event s i CHANGE_TYPE_SCORE_CHANGED sc) m = (if i \<in> dom m then m(i := sc) else m)"
  by (simp_all add: apply_event_def new_event_def)

lemma mutates_event:
  assumes "mutates s s'" and "mock_wf s"
  shows "mock_wf s' \<and> (\<exists>e. ms_events s' = ms_events s @ [e] \<and>
      map_of (ms_members s') = apply_event e (map_of (ms_members s)))"
proof -
  from assms(2) have d: "distinct (dict_keys (ms_members s))" by (simp add: mock_wf_def)
  note ext = mock_wf_extend [OF assms(2)]
  from assms(1) show ?thesis
  proof cases
    case (adds i q e)
    then have "s' = s\<lparr>ms_members := dict_set i q (ms_members s), ms_seq := ms_seq s + 1,
        ms_events := ms_events s @ [new_event s i CHANGE_TYPE_ADDED (Some q)]\<rparr>"
      by (auto simp: add_member_run Let_def)
    with ext [OF distinct_update [OF d]] show ?thesis by (simp add: update_conv')
  next
    case (removes i e)
    then have "s' = s\<lparr>ms_members := dict_pop i (ms_members s), ms_seq := ms_seq s + 1,
        ms_events := ms_events s @ [new_event s i CHANGE_TYPE_REMOVED None]\<rparr>"
      by (auto simp: remove_member_run Let_def)
    with ext [OF distinct_delete [OF d]] show ?thesis by (simp add: delete_conv')
  next
    case (rescores i q e)
    then obtain q0 where q0: "dict_get (ms_members s) i = Some q0"
      and "s' = s\<lparr>ms_members := dict_set i q (ms_members s), ms_seq := ms_seq s + 1,
        ms_events := ms_events s @ [new_event s i CHANGE_TYPE_SCORE_CHANGED (Some q)]\<rparr>"
      by (elim change_score_InrD) simp
    with ext [OF distinct_update [OF d]] show ?thesis by (auto simp: update_conv' dom_def)
  qed
qed

text \<open>Hence the events emitted between two states of the world explain how its membership changed.\<close>

lemma mutations_replay:
  assumes "mutates\<^sup>*\<^sup>* s s'" and "mock_wf s"
  shows "mock_wf s' \<and> (\<exists>es. ms_events s' = ms_events s @ es \<and>
      map_of (ms_members s') = replay es (map_of (ms_members s)))"
  using assms
proof (induction rule: rtranclp_induct)
  case base
  then show ?case by auto
next
  case (step s1 s2)
  then obtain es where es: "ms_events s1 = ms_events s @ es" "mock_wf s1"
    "map_of (ms_members s1) = replay es (map_of (ms_members s))" by auto
  from mutates_event [OF step.hyps(2) es(2)] obtain e where
    "mock_wf s2" "ms_events s2 = ms_events s1 @ [e]"
    "map_of (ms_members s2) = apply_event e (map_of (ms_members s1))" by auto
  with es show ?case by (auto intro!: exI [of _ "es @ [e]"])
qed

end
