(* ===== verification/Credentials.thy ===== *)
theory Credentials
  imports Wire_Models
begin

text \<open>
  Credential references (\<open>app/connectors/deepsee/auth.py\<close>): \<open>env:<VAR>\<close> is resolved
  against the environment at call time; every failure names the reference, never the secret.
\<close>

definition DEFAULT_CREDENTIAL_REFERENCE :: string where
  "DEFAULT_CREDENTIAL_REFERENCE = ''env:CQL_DEEPSEE_TOKEN''"

definition ENV_SCHEME :: string where
  "ENV_SCHEME = ''env:''"

definition sq :: "string \<Rightarrow> string" where
  \<comment> \<open>text between single quotes\<close>
  "sq s = char_of (39 :: nat) # s @ [char_of (39 :: nat)]"

definition resolve_credential :: "(string, string) dict \<Rightarrow> string \<Rightarrow> ds_exc + string" where
  "resolve_credential environ reference =
     (if py_strip reference = [] then
        Inl (CredentialResolutionError
          (''Credential reference must be a non-empty string such as '' @ sq DEFAULT_CREDENTIAL_REFERENCE @ ''.''))
      else if \<not> starts_with ENV_SCHEME reference then
        Inl (CredentialResolutionError
          (''Unsupported credential reference scheme in '' @ py_repr reference @ ''; only ''
           @ sq ''env:<VAR>'' @ '' references are supported.''))
      else
        let variable = py_strip (drop (length ENV_SCHEME) reference) in
        if variable = [] then
          Inl (CredentialResolutionError
            (''Credential reference '' @ py_repr reference
             @ '' names no environment variable; expected the form '' @ sq ''env:<VAR>'' @ ''.''))
        else (case dict_get environ variable of
            None \<Rightarrow> Inl (CredentialResolutionError
              (''Credential reference '' @ py_repr reference @ '' could not be resolved: environment variable ''
               @ py_repr variable @ '' is not set. Set it to the DeepSee API token before starting the connector.''))
          | Some value \<Rightarrow>
              if value = [] then Inl (CredentialResolutionError
                (''Credential reference '' @ py_repr reference @ '' could not be resolved: environment variable ''
                 @ py_repr variable @ '' is not set. Set it to the DeepSee API token before starting the connector.''))
              else Inr value))"

lemma resolve_credential_InrD:
  assumes "resolve_credential environ reference = Inr token"
  shows "token \<noteq> []"
    and "starts_with ENV_SCHEME reference"
    and "dict_get environ (py_strip (drop (length ENV_SCHEME) reference)) = Some token"
    and "py_strip (drop (length ENV_SCHEME) reference) \<noteq> []"
  using assms by (auto simp: resolve_credential_def Let_def split: if_splits option.splits)

lemma resolve_credential_InlD:
  "resolve_credential environ reference = Inl e \<Longrightarrow> \<exists>m. e = CredentialResolutionError m"
  by (auto simp: resolve_credential_def Let_def split: if_splits option.splits)

text \<open>What a failed resolution says depends on the reference alone, not on any value of the environment.\<close>

lemma resolve_credential_error_independent:
  assumes "resolve_credential env1 reference = Inl e1" and "resolve_credential env2 reference = Inl e2"
  shows "e1 = e2"
  using assms by (auto simp: resolve_credential_def Let_def split: if_splits option.splits)

lemma resolve_credential_total:
  "py_strip (drop (length ENV_SCHEME) reference) \<noteq> [] \<Longrightarrow> starts_with ENV_SCHEME reference \<Longrightarrow> py_strip reference \<noteq> [] \<Longrightarrow>
   dict_get environ (py_strip (drop (length ENV_SCHEME) reference)) = Some token \<Longrightarrow> token \<noteq> [] \<Longrightarrow>
   resolve_credential environ reference = Inr token"
  by (simp add: resolve_credential_def)

end
