(* ===== verification/Paging.thy ===== *)
theory Paging
  imports Py_Text
begin

text \<open>
  Cursor pagination. The connector follows \<open>next_cursor\<close> in three places (the snapshot loops
  of the synchronizer and of the MCP provider, and the change feed); each loop counts its
  pages and refuses to go past a bound. \<open>page_loop\<close> is that loop, over any fetch operation
  and any accumulator; \<open>follow_pages\<close> starts it from the cursor of a first page.
  The interface \<open>paged_source\<close> says what a well-behaved source promises about the page at an
  offset, and proves once that the loop then reads the whole listing, in order.
\<close>

section \<open>The loop\<close>

function page_loop ::
  "(string option \<Rightarrow> ('e, 's, 'page) prog) \<Rightarrow> ('page \<Rightarrow> string option) \<Rightarrow> ('acc \<Rightarrow> 'page \<Rightarrow> 'acc) \<Rightarrow>
   'e \<Rightarrow> nat \<Rightarrow> nat \<Rightarrow> string option \<Rightarrow> 'acc \<Rightarrow> ('e, 's, 'acc) prog" where
  \<comment> \<open>\<open>while True: if pages >= max_pages: raise; page = fetch(cursor); ...; pages += 1\<close>\<close>
  "page_loop fetch next_cursor step too_many max_pages pages cursor acc s =
     (if pages \<ge> max_pages then (Inl too_many, s)
      else case fetch cursor s of
        (Inl e, s') \<Rightarrow> (Inl e, s')
      | (Inr page, s') \<Rightarrow>
          (case next_cursor page of
             None \<Rightarrow> (Inr (step acc page), s')
           | Some c \<Rightarrow>
               page_loop fetch next_cursor step too_many max_pages (pages + 1) (Some c) (step acc page) s'))"
  by pat_completeness auto
termination
  by (relation "measure (\<lambda>(fetch, next_cursor, step, too_many, max_pages, pages, cursor, acc, s). max_pages - pages)") auto

declare page_loop.simps [simp del]

definition follow_pages ::
  "(string option \<Rightarrow> ('e, 's, 'page) prog) \<Rightarrow> ('page \<Rightarrow> string option) \<Rightarrow> ('acc \<Rightarrow> 'page \<Rightarrow> 'acc) \<Rightarrow>
   'e \<Rightarrow> nat \<Rightarrow> nat \<Rightarrow> string option \<Rightarrow> 'acc \<Rightarrow> ('e, 's, 'acc) prog" where
  \<comment> \<open>\<open>while cursor is not None: if pages >= max_pages: raise; ...\<close>\<close>
  "follow_pages fetch next_cursor step too_many max_pages pages cursor acc =
     (case cursor of
        None \<Rightarrow> ret acc
      | Some c \<Rightarrow> page_loop fetch next_cursor step too_many max_pages pages (Some c) acc)"

text \<open>Any quantity that a fetch raises by at most \<open>k\<close> rises by at most \<open>k\<close> per remaining page.\<close>

lemma page_loop_bounded:
  assumes fetch: "\<And>c s. cnt (snd (fetch c s)) \<le> cnt s + (k :: nat)"
  shows "cnt (snd (page_loop fetch nxt step too_many max_pages pages cursor acc s)) \<le> cnt s + k * (max_pages - pages)"
proof (induction "max_pages - pages" arbitrary: pages cursor acc s)
  case 0
  then show ?case by (subst page_loop.simps) simp
next
  case (Suc d)
  obtain r s' where f: "fetch cursor s = (r, s')" by fastforce
  with fetch [of cursor s] have c: "cnt s' \<le> cnt s + k" by simp
  have lt: "\<not> pages \<ge> max_pages" and d: "d = max_pages - (pages + 1)" using Suc.hyps(2) by simp_all
  have m: "k * (max_pages - pages) = k + k * d" using Suc.hyps(2) by (metis mult_Suc_right)
  show ?case
  proof (cases r)
    case (Inl e)
    with f c lt m show ?thesis by (subst page_loop.simps) simp
  next
    case (Inr page)
    show ?thesis
    proof (cases "nxt page")
      case None
      with f Inr c lt m show ?thesis by (subst page_loop.simps) simp
    next
      case (Some cur)
      have "cnt (snd (page_loop fetch nxt step too_many max_pages (pages + 1) (Some cur) (step acc page) s')) \<le> cnt s' + k * d"
        using Suc.hyps(1) [OF d, of "Some cur" "step acc page" s'] unfolding d .
      with f Inr Some lt m c show ?thesis by (subst page_loop.simps) simp
    qed
  qed
qed

lemma follow_pages_bounded:
  assumes "\<And>c s. cnt (snd (fetch c s)) \<le> cnt s + (k :: nat)"
  shows "cnt (snd (follow_pages fetch nxt step too_many max_pages pages cursor acc s)) \<le> cnt s + k * (max_pages - pages)"
  using page_loop_bounded [where cnt = cnt and fetch = fetch, OF assms]
  by (cases cursor) (simp_all add: follow_pages_def)

text \<open>A source that always names a next page is refused, never followed forever.\<close>

lemma page_loop_endless:
  assumes step: "\<And>c s. I c s \<Longrightarrow> \<exists>page s' c'. fetch c s = (Inr page, s') \<and> nxt page = Some c' \<and> I (Some c') s'"
    and "I cursor s"
  shows "fst (page_loop fetch nxt step too_many max_pages pages cursor acc s) = Inl too_many"
  using assms(2)
proof (induction "max_pages - pages" arbitrary: pages cursor acc s)
  case 0
  then show ?case by (subst page_loop.simps) simp
next
  case (Suc d)
  obtain page s' c where "fetch cursor s = (Inr page, s')" and "nxt page = Some c" "I (Some c) s'"
    using step [OF Suc.prems] by blast
  with Suc.hyps(1) [of "pages + 1" "Some c" s' "step acc page"] Suc.hyps(2)
  show ?case by (subst page_loop.simps) simp
qed

section \<open>Offsets of the pages of a listing\<close>

function page_offsets :: "nat \<Rightarrow> nat \<Rightarrow> nat \<Rightarrow> nat list" where
  \<comment> \<open>the offsets a paginating client visits from offset \<open>k\<close>; always one page at least\<close>
  "page_offsets psz len k = (if 0 < psz \<and> k + psz < len then k # page_offsets psz len (k + psz) else [k])"
  by pat_completeness auto
termination
  by (relation "measure (\<lambda>(psz, len, k). len - k)") auto

declare page_offsets.simps [simp del]

lemma page_offsets_nonempty [simp]: "page_offsets psz len k \<noteq> []"
  by (simp add: page_offsets.simps)

lemma page_offsets_Cons: "page_offsets psz len k = k # tl (page_offsets psz len k)"
  by (subst (1 2) page_offsets.simps) simp

lemma take_then_drop: "take n (drop k xs) @ drop (k + n) xs = drop k xs"
  using append_take_drop_id [of n "drop k xs"] by (simp add: add.commute)

lemma concat_pages:
  "0 < psz \<Longrightarrow> concat (map (\<lambda>k. take psz (drop k xs)) (page_offsets psz (length xs) k)) = drop k xs"
proof (induction psz "length xs" k rule: page_offsets.induct)
  case (1 psz k)
  then show ?case
    by (cases "k + psz < length xs"; subst page_offsets.simps) (simp_all add: take_then_drop)
qed

lemma length_page_offsets: "0 < psz \<Longrightarrow> length (page_offsets psz len k) \<le> Suc ((len - k) div psz)"
proof (induction psz len k rule: page_offsets.induct)
  case (1 psz len k)
  show ?case
  proof (cases "k + psz < len")
    case True
    then have l: "len - k = psz + (len - (k + psz))" by linarith
    have "(psz + (len - (k + psz))) div psz = (len - (k + psz)) div psz + 1"
      using "1.prems" by (intro div_add_self1) simp
    then have "(len - k) div psz = Suc ((len - (k + psz)) div psz)" unfolding l by simp
    with 1 True show ?thesis by (subst page_offsets.simps) simp
  qed (subst page_offsets.simps, simp)
qed

section \<open>The interface of a paginated source\<close>

definition cursor_at :: "nat \<Rightarrow> string option \<Rightarrow> bool" where
  \<comment> \<open>the cursor stands for offset \<open>k\<close>\<close>
  "cursor_at k cursor \<longleftrightarrow> (cursor = None \<and> k = 0) \<or> cursor = Some (show_int (int k))"

text \<open>
  \<open>view s\<close> is what the source's answers depend on: while the source is \<open>ready\<close>, a fetch at the
  cursor of offset \<open>k\<close> returns the page at \<open>k\<close>, leaves the view as it is and the source ready.
\<close>

locale paged_source =
  fixes fetch :: "string option \<Rightarrow> ('e, 's, 'page) prog"
    and next_cursor :: "'page \<Rightarrow> string option"
    and page_at :: "'v \<Rightarrow> nat \<Rightarrow> 'page"
    and view :: "'s \<Rightarrow> 'v"
    and page_size :: "'v \<Rightarrow> nat"
    and total :: "'v \<Rightarrow> nat"
    and ready :: "'s \<Rightarrow> bool"
  assumes fetch_ready:
      "ready s \<Longrightarrow> cursor_at k cursor \<Longrightarrow>
       \<exists>s'. fetch cursor s = (Inr (page_at (view s) k), s') \<and> ready s' \<and> view s' = view s"
    and next_page:
      "ready s \<Longrightarrow> next_cursor (page_at (view s) k) =
         (if k + page_size (view s) < total (view s) then Some (show_int (int (k + page_size (view s)))) else None)"
    and page_size_pos: "ready s \<Longrightarrow> 0 < page_size (view s)"
begin

lemma loop_reads_all:
  assumes "ready s" and "cursor_at k cursor"
    and "length (page_offsets (page_size (view s)) (total (view s)) k) \<le> max_pages - pages"
  shows "\<exists>s'. page_loop fetch next_cursor step too_many max_pages pages cursor acc s =
      (Inr (foldl step acc (map (page_at (view s)) (page_offsets (page_size (view s)) (total (view s)) k))), s')
      \<and> ready s' \<and> view s' = view s"
  using assms
proof (induction "max_pages - pages" arbitrary: pages k cursor acc s)
  case 0
  then show ?case by simp
next
  case (Suc d)
  let ?z = "page_size (view s)" and ?t = "total (view s)"
  from fetch_ready [OF Suc.prems(1,2)] obtain s1 where
    f: "fetch cursor s = (Inr (page_at (view s) k), s1)" and s1: "ready s1" "view s1 = view s" by blast
  note nx = next_page [OF Suc.prems(1), of k]
  have lt: "\<not> pages \<ge> max_pages" using Suc.hyps(2) by simp
  show ?case
  proof (cases "k + ?z < ?t")
    case True
    have po: "page_offsets ?z ?t k = k # page_offsets ?z ?t (k + ?z)"
      using True page_size_pos [OF Suc.prems(1)] by (subst page_offsets.simps) simp
    have "cursor_at (k + ?z) (Some (show_int (int (k + ?z))))" by (simp add: cursor_at_def)
    moreover from Suc.hyps(2) have d: "d = max_pages - (pages + 1)" by simp
    ultimately obtain s2 where "page_loop fetch next_cursor step too_many max_pages (pages + 1) (Some (show_int (int (k + ?z))))
        (step acc (page_at (view s) k)) s1 =
      (Inr (foldl step (step acc (page_at (view s) k)) (map (page_at (view s)) (page_offsets ?z ?t (k + ?z)))), s2)"
      "ready s2" "view s2 = view s"
      using Suc.hyps(1) [OF d s1(1), of "k + ?z" _ "step acc (page_at (view s) k)"] Suc.hyps(2) Suc.prems(3) po s1(2)
      by auto
    with f lt nx True po show ?thesis by (subst page_loop.simps) simp
  next
    case False
    then have "page_offsets ?z ?t k = [k]" by (subst page_offsets.simps) simp
    with f lt nx False s1 show ?thesis by (subst page_loop.simps) simp
  qed
qed

lemma follow_reads_all:
  assumes "ready s" and "length (page_offsets (page_size (view s)) (total (view s)) 0) \<le> max_pages"
    and "0 < max_pages"
  shows "\<exists>s'. bindP (fetch None) (\<lambda>first. follow_pages fetch next_cursor step too_many max_pages 1
            (next_cursor first) (init first)) s =
      (Inr (foldl step (init (page_at (view s) 0))
          (map (page_at (view s)) (tl (page_offsets (page_size (view s)) (total (view s)) 0)))), s')
      \<and> ready s' \<and> view s' = view s"
proof -
  let ?z = "page_size (view s)" and ?t = "total (view s)"
  from fetch_ready [OF assms(1), of 0 None] obtain s1 where
    f: "fetch None s = (Inr (page_at (view s) 0), s1)" and s1: "ready s1" "view s1 = view s"
    by (auto simp: cursor_at_def)
  note nx = next_page [OF assms(1), of 0]
  show ?thesis
  proof (cases "?z < ?t")
    case True
    have po: "page_offsets ?z ?t 0 = 0 # page_offsets ?z ?t ?z"
      using True page_size_pos [OF assms(1)] by (subst page_offsets.simps) simp
    have "cursor_at ?z (Some (show_int (int ?z)))" by (simp add: cursor_at_def)
    from loop_reads_all [OF s1(1) this, of max_pages 1 step too_many "init (page_at (view s) 0)"]
      assms(2) po s1(2) f nx True
    show ?thesis by (auto simp: bindP_run follow_pages_def)
  next
    case False
    then have "page_offsets ?z ?t 0 = [0]" by (subst page_offsets.simps) simp
    with f nx False s1 show ?thesis by (simp add: bindP_run follow_pages_def)
  qed
qed

end

end
