(* ===== verification/DeepSee_Client.thy ===== *)
theory DeepSee_Client
  imports Mock_Service Credentials Paging
begin

text \<open>
  The client of the wire contract (\<open>app/connectors/deepsee/client.py\<close>): credential
  resolution per request, retries with capped exponential backoff, and validation of what
  comes back. It runs in a \<open>world\<close>: the service it calls, the delays it slept so far (the
  injectable \<open>sleeper\<close>), the clock (the injectable \<open>now\<close>: the n-th reading is
  \<open>w_clock n\<close>), and the process environment.
\<close>

section \<open>State\<close>

record client =
  cl_credential_reference :: "string option"
  cl_max_retries :: int
  cl_backoff_base_ms :: int
  cl_backoff_cap_ms :: int
  cl_max_payload_bytes :: int
  cl_max_data_age :: "int option"  \<comment> \<open>a \<open>timedelta\<close>, in microseconds\<close>

definition client_init ::
  "string option \<Rightarrow> int \<Rightarrow> int \<Rightarrow> int \<Rightarrow> int \<Rightarrow> int option \<Rightarrow> client" where
  "client_init credential_reference max_retries backoff_base_ms backoff_cap_ms max_payload_bytes max_data_age =
     \<lparr>cl_credential_reference = credential_reference, cl_max_retries = max 0 max_retries,
      cl_backoff_base_ms = backoff_base_ms, cl_backoff_cap_ms = backoff_cap_ms,
      cl_max_payload_bytes = max_payload_bytes, cl_max_data_age = max_data_age\<rparr>"

definition DEFAULT_MAX_RETRIES :: int where "DEFAULT_MAX_RETRIES = 3"
definition DEFAULT_BACKOFF_BASE_MS :: int where "DEFAULT_BACKOFF_BASE_MS = 50"
definition DEFAULT_BACKOFF_CAP_MS :: int where "DEFAULT_BACKOFF_CAP_MS = 1000"

record world =
  w_service :: mock_service
  w_sleeps :: "rat list"
  w_clock :: "nat \<Rightarrow> datetime"
  w_clock_reads :: nat
  w_environ :: "(string, string) dict"

definition on_service :: "(ds_exc, mock_service, 'a) prog \<Rightarrow> (ds_exc, world, 'a) prog" where
  "on_service op = (\<lambda>w. case op (w_service w) of (r, s') \<Rightarrow> (r, w\<lparr>w_service := s'\<rparr>))"

definition now :: "(ds_exc, world, datetime) prog" where
  "now = (\<lambda>w. (Inr (w_clock w (w_clock_reads w)), w\<lparr>w_clock_reads := w_clock_reads w + 1\<rparr>))"

definition sleep :: "rat \<Rightarrow> world \<Rightarrow> world" where
  "sleep seconds w = w\<lparr>w_sleeps := w_sleeps w @ [seconds]\<rparr>"

section \<open>Retry\<close>

definition retry_delay_seconds :: "client \<Rightarrow> ds_exc \<Rightarrow> nat \<Rightarrow> rat" where
  "retry_delay_seconds cl exc attempt =
     (let delay_ms =
        (case exc of
           DeepSee DeepSeeRateLimitError env \<Rightarrow>
             (case ee_retry_after_ms env of
                Some ms \<Rightarrow> ms
              | None \<Rightarrow> cl_backoff_base_ms cl * 2 ^ attempt)
         | _ \<Rightarrow> cl_backoff_base_ms cl * 2 ^ attempt)
      in of_int (min delay_ms (cl_backoff_cap_ms cl)) / 1000)"

function call_with_retry :: "client \<Rightarrow> (ds_exc, world, 'a) prog \<Rightarrow> nat \<Rightarrow> (ds_exc, world, 'a) prog" where
  "call_with_retry cl operation attempt w =
     (case operation w of
        (Inr x, w') \<Rightarrow> (Inr x, w')
      | (Inl e, w') \<Rightarrow>
          if is_retryable e \<and> int attempt < cl_max_retries cl
          then call_with_retry cl operation (attempt + 1) (sleep (retry_delay_seconds cl e attempt) w')
          else (Inl e, w'))"
  by pat_completeness auto
termination
  by (relation "measure (\<lambda>(cl, operation, attempt, w). nat (cl_max_retries cl) - attempt)") auto

declare call_with_retry.simps [simp del]

section \<open>Validation\<close>

definition invalid_isoformat :: "string \<Rightarrow> ds_exc" where
  "invalid_isoformat s = Py (ValueError (''Invalid isoformat string: '' @ py_repr s))"

definition parse_iso :: "string \<Rightarrow> ds_exc + datetime" where
  "parse_iso value =
     (case fromisoformat value of
        None \<Rightarrow> Inl (invalid_isoformat value)
      | Some parsed \<Rightarrow> Inr (case dt_tz parsed of None \<Rightarrow> parsed\<lparr>dt_tz := Some 0\<rparr> | Some _ \<Rightarrow> parsed))"

definition token_of :: "client \<Rightarrow> (ds_exc, world, string option) prog" where
  "token_of cl =
     (case cl_credential_reference cl of
        None \<Rightarrow> ret None
      | Some r \<Rightarrow> bindP (readP w_environ) (\<lambda>environ. bindP (liftE (resolve_credential environ r)) (\<lambda>t. ret (Some t))))"

definition validate_bitmap_payload :: "client \<Rightarrow> string \<Rightarrow> string option \<Rightarrow> ds_exc + unit" where
  "validate_bitmap_payload cl payload encoding =
     (if int (length payload) > cl_max_payload_bytes cl then
        Inl (contract_error (''Membership bitmap payload of '' @ show_nat (length payload) @ '' bytes exceeds the ''
          @ show_int (cl_max_payload_bytes cl) @ ''-byte limit; refusing to decode.''))
      else if encoding \<noteq> Some SUPPORTED_BITMAP_ENCODING then
        Inl (contract_error (''Unsupported bitmap encoding ''
          @ (case encoding of None \<Rightarrow> ''None'' | Some e \<Rightarrow> py_repr e)
          @ ''; expected '' @ py_repr SUPPORTED_BITMAP_ENCODING @ ''.''))
      else Inr ())"

definition validate_key_type :: "string \<Rightarrow> ds_exc + unit" where
  "validate_key_type entity_key_type =
     (if entity_key_type \<noteq> SUPPORTED_ENTITY_KEY_TYPE then
        Inl (contract_error (''Unsupported entity key type '' @ py_repr entity_key_type @ ''; only ''
          @ py_repr SUPPORTED_ENTITY_KEY_TYPE @ '' keys are supported (plan design decision 11).''))
      else Inr ())"

definition validate_entity_ids :: "int list option \<Rightarrow> ds_exc + unit" where
  \<comment> \<open>the ids are typed \<open>int\<close>; what is left of the check is the sign\<close>
  "validate_entity_ids entity_ids =
     (case entity_ids of
        None \<Rightarrow> Inl (contract_error ''Snapshot page carries neither entity_ids nor a bitmap.'')
      | Some ids \<Rightarrow>
          (case find (\<lambda>i. i < 0) ids of
             Some i \<Rightarrow> Inl (contract_error (''Entity ID '' @ show_int i
               @ '' is not a non-negative integer; only INT64 keys are supported.''))
           | None \<Rightarrow> Inr ()))"

definition stale_error :: "string \<Rightarrow> int \<Rightarrow> int \<Rightarrow> ds_exc" where
  \<comment> \<open>the message shows both durations; they are given in microseconds here\<close>
  "stale_error data_as_of age bound =
     DeepSee DeepSeeStaleDataError
       \<lparr>ee_code = ''STALE_DATA'',
        ee_message = ''data_as_of '' @ data_as_of @ '' is '' @ show_int age
          @ '' old, exceeding the configured staleness bound of '' @ show_int bound @ ''.'',
        ee_retryable = False, ee_retry_after_ms = None\<rparr>"

definition validate_freshness :: "client \<Rightarrow> string \<Rightarrow> (ds_exc, world, unit) prog" where
  "validate_freshness cl data_as_of =
     (case cl_max_data_age cl of
        None \<Rightarrow> ret ()
      | Some bound \<Rightarrow>
          bindP (liftE (parse_iso data_as_of)) (\<lambda>as_of.
          bindP now (\<lambda>t.
          let age = instant t - instant as_of in
          guardP (age \<le> bound) (stale_error data_as_of age bound))))"

section \<open>Public operations\<close>

definition validate_page :: "client \<Rightarrow> snapshot_page \<Rightarrow> (ds_exc, world, unit) prog" where
  \<comment> \<open>what \<open>fetch_snapshot\<close> checks after the call\<close>
  "validate_page cl page =
     bindP (validate_freshness cl (sp_data_as_of page)) (\<lambda>_.
     bindP (liftE (validate_key_type (sp_entity_key_type page))) (\<lambda>_.
     liftE (case sp_membership_bitmap page of
              Some payload \<Rightarrow> validate_bitmap_payload cl payload (sp_bitmap_encoding page)
            | None \<Rightarrow> validate_entity_ids (sp_entity_ids page))))"

definition fetch_snapshot ::
  "(int set \<Rightarrow> string) \<Rightarrow> client \<Rightarrow> string option \<Rightarrow> (ds_exc, world, snapshot_page) prog" where
  "fetch_snapshot serialize cl cursor =
     bindP (token_of cl) (\<lambda>token.
     bindP (call_with_retry cl (on_service (snapshot serialize cursor token)) 0) (\<lambda>page.
     bindP (validate_page cl page) (\<lambda>_. ret page)))"

definition fetch_changes ::
  "client \<Rightarrow> string \<Rightarrow> string option \<Rightarrow> (ds_exc, world, change_batch) prog" where
  "fetch_changes cl since_watermark cursor =
     bindP (token_of cl) (\<lambda>token.
     bindP (call_with_retry cl (on_service (changes since_watermark cursor token)) 0) (\<lambda>batch.
     bindP (validate_freshness cl (cb_data_as_of batch)) (\<lambda>_. ret batch)))"

definition fetch_cases ::
  "client \<Rightarrow> string \<Rightarrow> (string, filter_value) dict option \<Rightarrow> string list option \<Rightarrow> int option \<Rightarrow>
   entity_filter option \<Rightarrow> (ds_exc, world, cases_response) prog" where
  "fetch_cases cl resource filters columns limit ef =
     bindP (token_of cl) (\<lambda>token.
     bindP (call_with_retry cl (on_service (cases resource filters columns limit token ef)) 0) (\<lambda>response.
     bindP (validate_freshness cl (cr_data_as_of response)) (\<lambda>_. ret response)))"

text \<open>\<open>BitMap64.deserialize\<close> (pyroaring) is the parameter \<open>deserialize\<close>: the error text or the set.\<close>

definition decode_membership_bitmap ::
  "(string \<Rightarrow> string + int set) \<Rightarrow> client \<Rightarrow> snapshot_page \<Rightarrow> ds_exc + int set" where
  "decode_membership_bitmap deserialize cl page =
     (case sp_membership_bitmap page of
        None \<Rightarrow> Inl (contract_error ''Snapshot page carries no bitmap payload.'')
      | Some payload \<Rightarrow>
          (case validate_bitmap_payload cl payload (sp_bitmap_encoding page) of
             Inl e \<Rightarrow> Inl e
           | Inr _ \<Rightarrow>
               (case deserialize payload of
                  Inl m \<Rightarrow> Inl (contract_error (''Malformed roaring64 bitmap payload: '' @ m))
                | Inr ids \<Rightarrow> Inr ids)))"

section \<open>Delays\<close>

lemma retry_delay_le_cap: "retry_delay_seconds cl e attempt \<le> of_int (cl_backoff_cap_ms cl) / 1000"
  by (auto simp: retry_delay_seconds_def Let_def divide_right_mono)

lemma retry_delay_exponential:
  "(\<And>env. e \<noteq> DeepSee DeepSeeRateLimitError env) \<Longrightarrow>
   retry_delay_seconds cl e attempt =
     of_int (min (cl_backoff_base_ms cl * 2 ^ attempt) (cl_backoff_cap_ms cl)) / 1000"
  by (auto simp: retry_delay_seconds_def Let_def split: ds_exc.splits ds_class.splits)

lemma retry_delay_rate_limit:
  "ee_retry_after_ms env = Some ms \<Longrightarrow>
   retry_delay_seconds cl (DeepSee DeepSeeRateLimitError env) attempt = of_int (min ms (cl_backoff_cap_ms cl)) / 1000"
  by (simp add: retry_delay_seconds_def)

section \<open>The retry loop over any operation\<close>

lemma w_service_sleep [simp]: "w_service (sleep d w) = w_service w"
  and w_sleeps_sleep [simp]: "w_sleeps (sleep d w) = w_sleeps w @ [d]"
  and w_clock_sleep [simp]: "w_clock (sleep d w) = w_clock w" "w_clock_reads (sleep d w) = w_clock_reads w"
  and w_environ_sleep [simp]: "w_environ (sleep d w) = w_environ w"
  by (simp_all add: sleep_def)

lemma retry_first_success: "operation w = (Inr x, w') \<Longrightarrow> call_with_retry cl operation attempt w = (Inr x, w')"
  by (subst call_with_retry.simps) simp

lemma retry_terminal:
  "operation w = (Inl e, w') \<Longrightarrow> \<not> is_retryable e \<Longrightarrow> call_with_retry cl operation attempt w = (Inl e, w')"
  by (subst call_with_retry.simps) simp

lemma retry_exhausted:
  "operation w = (Inl e, w') \<Longrightarrow> cl_max_retries cl \<le> int attempt \<Longrightarrow>
   call_with_retry cl operation attempt w = (Inl e, w')"
  by (subst call_with_retry.simps) simp

lemma retry_again:
  "operation w = (Inl e, w') \<Longrightarrow> is_retryable e \<Longrightarrow> int attempt < cl_max_retries cl \<Longrightarrow>
   call_with_retry cl operation attempt w =
     call_with_retry cl operation (Suc attempt) (sleep (retry_delay_seconds cl e attempt) w')"
  by (subst call_with_retry.simps) simp

lemmas retry_steps = retry_first_success retry_terminal retry_exhausted retry_again

lemma retry_sleeps:
  assumes op: "\<And>w. w_sleeps (snd (operation w)) = w_sleeps w"
    and run: "call_with_retry cl operation attempt w = (r, w')"
  shows "\<exists>ds. w_sleeps w' = w_sleeps w @ ds \<and> length ds \<le> nat (cl_max_retries cl) - attempt \<and>
      (\<forall>d \<in> set ds. d \<le> of_int (cl_backoff_cap_ms cl) / 1000) \<and>
      (\<forall>e. r = Inl e \<longrightarrow> is_retryable e \<longrightarrow> length ds = nat (cl_max_retries cl) - attempt)"
  using run
proof (induction "nat (cl_max_retries cl) - attempt" arbitrary: attempt w)
  case 0
  then have ge: "cl_max_retries cl \<le> int attempt" by linarith
  obtain r1 w1 where o: "operation w = (r1, w1)" by fastforce
  with ge 0 op [of w] show ?case
    by (cases r1) (auto simp: retry_steps)
next
  case (Suc d)
  then have lt: "int attempt < cl_max_retries cl" and d: "d = nat (cl_max_retries cl) - Suc attempt" by linarith+
  obtain r1 w1 where o: "operation w = (r1, w1)" by fastforce
  with op [of w] have s1: "w_sleeps w1 = w_sleeps w" by simp
  show ?case
  proof (cases "\<exists>e. r1 = Inl e \<and> is_retryable e")
    case True
    then obtain e where e: "r1 = Inl e" "is_retryable e" by blast
    let ?d = "retry_delay_seconds cl e attempt"
    have "call_with_retry cl operation (Suc attempt) (sleep ?d w1) = (r, w')"
      using Suc.prems retry_again [where operation = operation, OF o [unfolded e(1)] e(2) lt] by simp
    from Suc.hyps(1) [OF d this] obtain ds where ds: "w_sleeps w' = w_sleeps w @ (?d # ds)"
      "length ds \<le> nat (cl_max_retries cl) - Suc attempt" "\<forall>d \<in> set ds. d \<le> of_int (cl_backoff_cap_ms cl) / 1000"
      "\<forall>e. r = Inl e \<longrightarrow> is_retryable e \<longrightarrow> length ds = nat (cl_max_retries cl) - Suc attempt"
      by (auto simp: s1)
    with lt retry_delay_le_cap [of cl e attempt] show ?thesis
      by (intro exI [of _ "?d # ds"]) (auto simp: nat_less_iff)
  next
    case False
    with o Suc.prems have "r = r1 \<and> w' = w1" by (cases r1) (auto simp: retry_steps)
    with False s1 show ?thesis by (auto intro!: exI [of _ "[]"])
  qed
qed

lemma retry_bounded:
  assumes op: "\<And>w. cnt (snd (operation w)) \<le> cnt w + (1 :: nat)"
    and sl: "\<And>d w. cnt (sleep d w) = cnt w"
  shows "cnt (snd (call_with_retry cl operation attempt w)) \<le> cnt w + 1 + (nat (cl_max_retries cl) - attempt)"
proof (induction "nat (cl_max_retries cl) - attempt" arbitrary: attempt w)
  case 0
  then have ge: "cl_max_retries cl \<le> int attempt" by linarith
  obtain r1 w1 where o: "operation w = (r1, w1)" by fastforce
  with ge op [of w] show ?case by (cases r1) (simp_all add: retry_steps)
next
  case (Suc d)
  then have lt: "int attempt < cl_max_retries cl" and d: "d = nat (cl_max_retries cl) - Suc attempt" by linarith+
  obtain r1 w1 where o: "operation w = (r1, w1)" by fastforce
  with op [of w] have c1: "cnt w1 \<le> cnt w + 1" by simp
  show ?case
  proof (cases "\<exists>e. r1 = Inl e \<and> is_retryable e")
    case True
    then obtain e where e: "r1 = Inl e" "is_retryable e" by blast
    from Suc.hyps(1) [OF d, of "sleep (retry_delay_seconds cl e attempt) w1"] c1 Suc.hyps(2)
    show ?thesis unfolding retry_again [where operation = operation, OF o [unfolded e(1)] e(2) lt] sl by linarith
  next
    case False
    with o c1 show ?thesis by (cases r1) (simp_all add: retry_steps)
  qed
qed

section \<open>Operations that fail a known number of times\<close>

fun backoff_delays :: "client \<Rightarrow> nat \<Rightarrow> ds_exc list \<Rightarrow> rat list" where
  \<comment> \<open>the delays slept when these exceptions are raised in a row, from this attempt on\<close>
  "backoff_delays cl attempt [] = []"
| "backoff_delays cl attempt (e # es) = retry_delay_seconds cl e attempt # backoff_delays cl (Suc attempt) es"

lemma length_backoff_delays [simp]: "length (backoff_delays cl attempt es) = length es"
  by (induction es arbitrary: attempt) auto

text \<open>
  The contract of a service operation behind the retry loop: \<open>failing s\<close> are the exceptions
  its next calls raise, \<open>after s\<close> the service after one such call.
\<close>

locale flaky_operation =
  fixes operation :: "(ds_exc, mock_service, 'a) prog"
    and failing :: "mock_service \<Rightarrow> ds_exc list"
    and after :: "mock_service \<Rightarrow> mock_service"
  assumes fails: "failing s = e # es \<Longrightarrow> operation s = (Inl e, after s)"
    and failing_after: "failing (after s) = tl (failing s)"
begin

lemma absorbs:
  assumes "failing (w_service w) = es @ rest" and "list_all is_retryable es"
    and "int (attempt + length es) \<le> cl_max_retries cl"
  shows "call_with_retry cl (on_service operation) attempt w =
    call_with_retry cl (on_service operation) (attempt + length es)
      (w\<lparr>w_service := (after ^^ length es) (w_service w),
         w_sleeps := w_sleeps w @ backoff_delays cl attempt es\<rparr>)"
  using assms
proof (induction es arbitrary: attempt w)
  case Nil
  then show ?case by simp
next
  case (Cons e es)
  let ?w = "sleep (retry_delay_seconds cl e attempt) (w\<lparr>w_service := after (w_service w)\<rparr>)"
  have o: "on_service operation w = (Inl e, w\<lparr>w_service := after (w_service w)\<rparr>)"
    using Cons.prems(1) fails [of "w_service w" e "es @ rest"] by (simp add: on_service_def)
  have "failing (w_service ?w) = es @ rest"
    using Cons.prems(1) failing_after [of "w_service w"] by simp
  with Cons.IH [of ?w "Suc attempt"] Cons.prems
  show ?case
    by (simp add: retry_again [where operation = "on_service operation", OF o] sleep_def funpow_swap1)
qed

lemma propagates_terminal:
  assumes "failing (w_service w) = es @ e # rest" and "list_all is_retryable es" and "\<not> is_retryable e"
    and "int (length es) \<le> cl_max_retries cl"
  shows "call_with_retry cl (on_service operation) 0 w =
    (Inl e, w\<lparr>w_service := (after ^^ Suc (length es)) (w_service w),
              w_sleeps := w_sleeps w @ backoff_delays cl 0 es\<rparr>)"
proof -
  let ?w = "w\<lparr>w_service := (after ^^ length es) (w_service w), w_sleeps := w_sleeps w @ backoff_delays cl 0 es\<rparr>"
  have "failing ((after ^^ n) s) = drop n (failing s)" for n s
    by (induction n) (simp_all add: failing_after drop_Suc tl_drop)
  then have "failing (w_service ?w) = e # rest" using assms(1) by simp
  then have "on_service operation ?w = (Inl e, ?w\<lparr>w_service := after (w_service ?w)\<rparr>)"
    using fails [of "w_service ?w" e rest] by (simp add: on_service_def)
  with assms absorbs [of w es "e # rest" 0 cl] show ?thesis
    by (simp add: retry_terminal)
qed

lemma gives_up:
  assumes "failing (w_service w) = es @ e # rest" and "list_all is_retryable es"
    and "int (length es) = cl_max_retries cl"
  shows "call_with_retry cl (on_service operation) 0 w =
    (Inl e, w\<lparr>w_service := (after ^^ Suc (length es)) (w_service w),
              w_sleeps := w_sleeps w @ backoff_delays cl 0 es\<rparr>)"
proof -
  let ?w = "w\<lparr>w_service := (after ^^ length es) (w_service w), w_sleeps := w_sleeps w @ backoff_delays cl 0 es\<rparr>"
  have "failing ((after ^^ n) s) = drop n (failing s)" for n s
    by (induction n) (simp_all add: failing_after drop_Suc tl_drop)
  then have "failing (w_service ?w) = e # rest" using assms(1) by simp
  then have "on_service operation ?w = (Inl e, ?w\<lparr>w_service := after (w_service ?w)\<rparr>)"
    using fails [of "w_service ?w" e rest] by (simp add: on_service_def)
  with assms absorbs [of w es "e # rest" 0 cl] show ?thesis
    by (simp add: retry_exhausted)
qed

lemma succeeds:
  assumes "list_all is_retryable (failing (w_service w))"
    and "int (length (failing (w_service w))) \<le> cl_max_retries cl"
    and ok: "operation ((after ^^ length (failing (w_service w))) (w_service w)) = (Inr x, s')"
  shows "call_with_retry cl (on_service operation) 0 w =
    (Inr x, w\<lparr>w_service := s', w_sleeps := w_sleeps w @ backoff_delays cl 0 (failing (w_service w))\<rparr>)"
proof -
  let ?es = "failing (w_service w)"
  let ?w = "w\<lparr>w_service := (after ^^ length ?es) (w_service w), w_sleeps := w_sleeps w @ backoff_delays cl 0 ?es\<rparr>"
  have "on_service operation ?w = (Inr x, ?w\<lparr>w_service := s'\<rparr>)"
    using ok by (simp add: on_service_def)
  with assms(1,2) absorbs [of w ?es "[]" 0 cl] show ?thesis
    by (simp add: retry_first_success)
qed

end

definition queued_failures :: "mock_service \<Rightarrow> ds_exc list" where
  "queued_failures s = map mk_failure (ms_failures s)"

lemma queued_failures_Cons:
  "queued_failures s = e # es \<longleftrightarrow> (\<exists>k ks. ms_failures s = k # ks \<and> e = mk_failure k \<and> es = map mk_failure ks)"
  by (auto simp: queued_failures_def)

lemma queued_failures_after_call: "queued_failures (after_call s) = tl (queued_failures s)"
  by (simp add: queued_failures_def map_tl)

interpretation snapshot_op: flaky_operation "snapshot ser cursor token" queued_failures after_call
  for ser cursor token
  by unfold_locales (auto simp: queued_failures_Cons snapshot_failing queued_failures_after_call)

interpretation changes_op: flaky_operation "changes since cursor token" queued_failures after_call
  for since cursor token
  by unfold_locales (auto simp: queued_failures_Cons changes_failing queued_failures_after_call)

interpretation cases_op: flaky_operation "cases r f c l token ef" queued_failures after_call
  for r f c l token ef
  by unfold_locales (auto simp: queued_failures_Cons cases_failing queued_failures_after_call)

section \<open>When a request succeeds\<close>

definition service_view :: "mock_service \<Rightarrow> mock_service" where
  \<comment> \<open>the service without what calls change: its counter and its failure queue\<close>
  "service_view s = s\<lparr>ms_failures := [], ms_call_count := 0\<rparr>"

definition authorised :: "client \<Rightarrow> world \<Rightarrow> bool" where
  "authorised cl w \<longleftrightarrow>
     (case cl_credential_reference cl of
        None \<Rightarrow> \<not> ms_require_auth (w_service w)
      | Some r \<Rightarrow> (\<exists>t. resolve_credential (w_environ w) r = Inr t))"

definition fresh :: "client \<Rightarrow> world \<Rightarrow> bool" where
  \<comment> \<open>at no reading of the clock is the service's data older than the bound\<close>
  "fresh cl w \<longleftrightarrow>
     (case cl_max_data_age cl of
        None \<Rightarrow> True
      | Some bound \<Rightarrow> (\<exists>d. parse_iso (mock_data_as_of (w_service w)) = Inr d \<and>
                         (\<forall>n. instant (w_clock w n) - instant d \<le> bound)))"

definition transient_failures :: "client \<Rightarrow> world \<Rightarrow> bool" where
  \<comment> \<open>what is queued to fail is retryable, and the retries outlast it\<close>
  "transient_failures cl w \<longleftrightarrow>
     list_all is_retryable (queued_failures (w_service w)) \<and>
     int (length (ms_failures (w_service w))) \<le> cl_max_retries cl"

definition client_able :: "client \<Rightarrow> world \<Rightarrow> bool" where
  \<comment> \<open>a request succeeds\<close>
  "client_able cl w \<longleftrightarrow> authorised cl w \<and> fresh cl w \<and> transient_failures cl w"

definition client_ready :: "client \<Rightarrow> world \<Rightarrow> bool" where
  \<comment> \<open>and the service makes progress when it paginates\<close>
  "client_ready cl w \<longleftrightarrow> client_able cl w \<and> 0 < ms_page_size (w_service w)"

lemma service_view_after [simp]: "service_view ((after_call ^^ n) s) = service_view s"
  by (induction n) (simp_all add: service_view_def after_call_def)

lemma after_calls: "(after_call ^^ n) s = s\<lparr>ms_call_count := ms_call_count s + n, ms_failures := drop n (ms_failures s)\<rparr>"
  by (induction n) (simp_all add: after_call_def drop_Suc tl_drop)

lemma service_view_eqD:
  assumes "service_view s = service_view s'"
  shows "ms_members s = ms_members s'" "ms_events s = ms_events s'" "ms_seq s = ms_seq s'"
    "ms_page_size s = ms_page_size s'" "ms_require_auth s = ms_require_auth s'"
    "ms_bitmap_snapshot s = ms_bitmap_snapshot s'" "ms_invalid_key_type s = ms_invalid_key_type s'"
    "mock_data_as_of s = mock_data_as_of s'" "pending_events s n = pending_events s' n"
  using assms
  by (cases s; cases s'; simp add: service_view_def mock_data_as_of_def pending_events_def)+

lemma service_view_page_size [simp]: "ms_page_size (service_view s) = ms_page_size s"
  and service_view_members [simp]: "ms_members (service_view s) = ms_members s"
  and service_view_events [simp]: "ms_events (service_view s) = ms_events s"
  and service_view_seq [simp]: "ms_seq (service_view s) = ms_seq s"
  and service_view_data_as_of [simp]: "mock_data_as_of (service_view s) = mock_data_as_of s"
  and service_view_pending [simp]: "pending_events (service_view s) n = pending_events s n"
  and service_view_watermark [simp]: "mock_watermark (service_view s) = mock_watermark s"
  by (simp_all add: service_view_def mock_data_as_of_def pending_events_def mock_watermark_def)

lemma service_view_pages [simp]:
  "id_snapshot_page (service_view s) k = id_snapshot_page s k"
  "change_page (service_view s) n k = change_page s n k"
  by (simp_all add: id_snapshot_page_def change_page_def member_dict_def service_view_def
      mock_entity_key_type_def mock_data_as_of_def mock_watermark_def pending_events_def)

lemma token_of_ready:
  assumes "authorised cl w"
  obtains token where "token_of cl w = (Inr token, w)"
    and "\<not> (ms_require_auth (w_service w) \<and> token_missing token)"
proof (cases "cl_credential_reference cl")
  case None
  with assms that [of None] show ?thesis by (simp add: token_of_def authorised_def)
next
  case (Some r)
  with assms obtain t where t: "resolve_credential (w_environ w) r = Inr t" by (auto simp: authorised_def)
  then have "t \<noteq> []" by (rule resolve_credential_InrD)
  with Some t that [of "Some t"] show ?thesis by (simp add: token_of_def token_missing_def)
qed

text \<open>The clock is read once, when an age bound is configured.\<close>

definition clock_read :: "client \<Rightarrow> world \<Rightarrow> world" where
  "clock_read cl w =
     (case cl_max_data_age cl of None \<Rightarrow> w | Some _ \<Rightarrow> w\<lparr>w_clock_reads := w_clock_reads w + 1\<rparr>)"

lemma clock_read_fields [simp]:
  "w_service (clock_read cl w) = w_service w" "w_sleeps (clock_read cl w) = w_sleeps w"
  "w_clock (clock_read cl w) = w_clock w" "w_environ (clock_read cl w) = w_environ w"
  by (simp_all add: clock_read_def split: option.splits)

lemma validate_freshness_fresh:
  "fresh cl w \<Longrightarrow> validate_freshness cl (mock_data_as_of (w_service w)) w = (Inr (), clock_read cl w)"
  by (auto simp: fresh_def validate_freshness_def now_def clock_read_def bindP_run Let_def guardP_run
      split: option.splits)

lemma fresh_frame:
  "w_clock w' = w_clock w \<Longrightarrow> mock_data_as_of (w_service w') = mock_data_as_of (w_service w) \<Longrightarrow> fresh cl w' = fresh cl w"
  by (simp add: fresh_def split: option.splits)

lemma authorised_frame:
  "w_environ w' = w_environ w \<Longrightarrow> ms_require_auth (w_service w') = ms_require_auth (w_service w) \<Longrightarrow>
   authorised cl w' = authorised cl w"
  by (simp add: authorised_def split: option.splits)

definition served :: "client \<Rightarrow> world \<Rightarrow> world" where
  \<comment> \<open>the world after a request whose transient failures were all retried\<close>
  "served cl w =
     w\<lparr>w_service := after_call ((after_call ^^ length (ms_failures (w_service w))) (w_service w)),
       w_sleeps := w_sleeps w @ backoff_delays cl 0 (queued_failures (w_service w))\<rparr>"

lemma served_fields [simp]:
  "service_view (w_service (served cl w)) = service_view (w_service w)"
  "ms_failures (w_service (served cl w)) = []"
  "ms_call_count (w_service (served cl w)) = ms_call_count (w_service w) + length (ms_failures (w_service w)) + 1"
  "w_clock (served cl w) = w_clock w" "w_environ (served cl w) = w_environ w"
  "w_sleeps (served cl w) = w_sleeps w @ backoff_delays cl 0 (queued_failures (w_service w))"
  by (simp_all add: served_def after_calls, simp_all add: service_view_def after_call_def)

lemma calls_done:
  "ms_failures ((after_call ^^ length (queued_failures s)) s) = []"
  by (simp add: after_calls queued_failures_def)

lemma length_queued_failures [simp]: "length (queued_failures s) = length (ms_failures s)"
  by (simp add: queued_failures_def)

text \<open>What a request leaves of the world it ran in: everything its readiness depends on.\<close>

definition after_request :: "client \<Rightarrow> world \<Rightarrow> world" where
  "after_request cl w = clock_read cl (served cl w)"

lemma after_request_fields [simp]:
  "service_view (w_service (after_request cl w)) = service_view (w_service w)"
  "ms_failures (w_service (after_request cl w)) = []"
  "ms_call_count (w_service (after_request cl w)) = ms_call_count (w_service w) + length (ms_failures (w_service w)) + 1"
  "w_clock (after_request cl w) = w_clock w" "w_environ (after_request cl w) = w_environ w"
  by (simp_all add: after_request_def)

lemma client_able_after_request: "client_able cl w \<Longrightarrow> client_able cl (after_request cl w)"
  using service_view_eqD [OF after_request_fields(1) [of cl w]]
  by (simp add: client_able_def fresh_frame [of "after_request cl w" w] authorised_frame [of "after_request cl w" w]
      transient_failures_def queued_failures_def)

lemma client_ready_after_request: "client_ready cl w \<Longrightarrow> client_ready cl (after_request cl w)"
  using client_able_after_request service_view_eqD [OF after_request_fields(1) [of cl w]]
  by (simp add: client_ready_def)

lemma client_ableD:
  assumes "client_able cl w"
  shows "authorised cl w" "fresh cl w" "list_all is_retryable (queued_failures (w_service w))"
    "int (length (queued_failures (w_service w))) \<le> cl_max_retries cl"
  using assms by (simp_all add: client_able_def transient_failures_def)

lemma client_readyD:
  assumes "client_ready cl w"
  shows "authorised cl w" "fresh cl w" "list_all is_retryable (queued_failures (w_service w))"
    "int (length (queued_failures (w_service w))) \<le> cl_max_retries cl" "0 < ms_page_size (w_service w)"
    "client_able cl w"
  using assms by (simp_all add: client_ready_def client_able_def transient_failures_def)

lemma after_calls_view:
  "ms_require_auth ((after_call ^^ n) s) = ms_require_auth s"
  "ms_bitmap_snapshot ((after_call ^^ n) s) = ms_bitmap_snapshot s"
  "id_snapshot_page ((after_call ^^ n) s) k = id_snapshot_page s k"
  "bitmap_snapshot_page ser ((after_call ^^ n) s) = bitmap_snapshot_page ser s"
  "change_page ((after_call ^^ n) s) m k = change_page s m k"
  by (induction n) (simp_all add: change_page_def)

lemma served_alt:
  "w\<lparr>w_service := after_call ((after_call ^^ length (queued_failures (w_service w))) (w_service w)),
     w_sleeps := w_sleeps w @ backoff_delays cl 0 (queued_failures (w_service w))\<rparr> = served cl w"
  by (simp add: served_def)

lemma validate_freshness_served:
  assumes "client_able cl w"
  shows "validate_freshness cl (mock_data_as_of (w_service w)) (served cl w) = (Inr (), after_request cl w)"
proof -
  have "mock_data_as_of (w_service (served cl w)) = mock_data_as_of (w_service w)"
    using service_view_eqD(8) [OF served_fields(1)] .
  with client_ableD(2) [OF assms] validate_freshness_fresh [of cl "served cl w"] fresh_frame [of "served cl w" w cl]
  show ?thesis by (simp add: after_request_def)
qed

lemma fetch_changes_ready:
  assumes ready: "client_able cl w" and n: "py_int since = Some n" and k: "parse_cursor cursor = Inr k"
  shows "fetch_changes cl since cursor w = (Inr (change_page (w_service w) n k), after_request cl w)"
proof -
  let ?s = "(after_call ^^ length (queued_failures (w_service w))) (w_service w)"
  from client_ableD(1) [OF ready] obtain token where t: "token_of cl w = (Inr token, w)"
    and auth: "\<not> (ms_require_auth (w_service w) \<and> token_missing token)" by (rule token_of_ready)
  have "changes since cursor token ?s = (Inr (change_page (w_service w) n k), after_call ?s)"
    using changes_ok [OF calls_done _ n k, of "w_service w" token] auth by (simp add: after_calls_view)
  from changes_op.succeeds [OF client_ableD(3,4) [OF ready] this]
  have "call_with_retry cl (on_service (changes since cursor token)) 0 w =
      (Inr (change_page (w_service w) n k), served cl w)"
    by (simp only: served_alt)
  with t validate_freshness_served [OF ready] show ?thesis
    by (simp add: fetch_changes_def bindP_run change_page_def)
qed

lemma fetch_cases_ready:
  assumes ready: "client_able cl w" and res: "resource \<in> set VALID_RESOURCES"
  shows "\<exists>w'. fetch_cases cl resource filters columns limit ef w =
      (Inr (answer_cases resource filters columns limit ef (w_service w)), w') \<and>
      w_sleeps w' = w_sleeps w @ backoff_delays cl 0 (queued_failures (w_service w)) \<and>
      ms_members (w_service w') = ms_members (w_service w) \<and> ms_events (w_service w') = ms_events (w_service w)"
proof -
  let ?s = "(after_call ^^ length (queued_failures (w_service w))) (w_service w)"
  let ?rq = "case_request_of resource filters columns limit ef"
  from client_ableD(1) [OF ready] obtain token where t: "token_of cl w = (Inr token, w)"
    and auth: "\<not> (ms_require_auth (w_service w) \<and> token_missing token)" by (rule token_of_ready)
  have ans: "answer_cases resource filters columns limit ef ((after_call ^^ n) s) = answer_cases resource filters columns limit ef s" for n s
    by (induction n) simp_all
  have "cases resource filters columns limit token ef ?s =
      (Inr (answer_cases resource filters columns limit ef (w_service w)), asked ?rq (after_call ?s))"
    using cases_ok [OF calls_done _ res, of "w_service w" token filters columns limit ef] auth by (simp add: after_calls_view ans)
  from cases_op.succeeds [OF client_ableD(3,4) [OF ready] this]
  have call: "call_with_retry cl (on_service (cases resource filters columns limit token ef)) 0 w =
      (Inr (answer_cases resource filters columns limit ef (w_service w)),
       w\<lparr>w_service := asked ?rq (after_call ?s), w_sleeps := w_sleeps w @ backoff_delays cl 0 (queued_failures (w_service w))\<rparr>)"
    (is "_ = (_, ?w)") .
  have das: "mock_data_as_of (w_service ?w) = mock_data_as_of (w_service w)"
    using service_view_eqD(8) [OF service_view_after] by simp
  with client_ableD(2) [OF ready] validate_freshness_fresh [of cl ?w] fresh_frame [of ?w w cl]
  have "validate_freshness cl (mock_data_as_of (w_service w)) ?w = (Inr (), clock_read cl ?w)" by simp
  moreover have "cr_data_as_of (answer_cases resource filters columns limit ef (w_service w)) = mock_data_as_of (w_service w)"
    by (simp add: answer_cases_def Let_def)
  ultimately have "fetch_cases cl resource filters columns limit ef w =
      (Inr (answer_cases resource filters columns limit ef (w_service w)), clock_read cl ?w)"
    using t call by (simp add: fetch_cases_def bindP_run)
  then show ?thesis by (simp add: after_calls)
qed

lemma id_page_ids_subset: "set (the (sp_entity_ids (id_snapshot_page s k))) \<subseteq> set (dict_keys (ms_members s))"
  by (auto simp: id_snapshot_page_def Let_def py_slice_def dest!: in_set_dropD in_set_takeD)

lemma id_snapshot_page_meta [simp]:
  "sp_data_as_of (id_snapshot_page s k) = mock_data_as_of s"
  "sp_entity_key_type (id_snapshot_page s k) = mock_entity_key_type s"
  "sp_membership_bitmap (id_snapshot_page s k) = None"
  "sp_watermark (id_snapshot_page s k) = mock_watermark s"
  "sp_entity_ids (id_snapshot_page s k) =
     Some (py_slice (sort (dict_keys (ms_members s))) k (k + ms_page_size s))"
  "sp_next_cursor (id_snapshot_page s k) = next_cursor_after k (ms_page_size s) (length (ms_members s))"
  by (simp_all add: id_snapshot_page_def Let_def)

definition snapshots_ready :: "client \<Rightarrow> world \<Rightarrow> bool" where
  \<comment> \<open>ready, and the snapshot comes in pages of INT64 ids\<close>
  "snapshots_ready cl w \<longleftrightarrow>
     client_ready cl w \<and> \<not> ms_bitmap_snapshot (w_service w) \<and> \<not> ms_invalid_key_type (w_service w) \<and>
     list_all (\<lambda>i. 0 \<le> i) (dict_keys (ms_members (w_service w)))"

lemma snapshots_readyD: "snapshots_ready cl w \<Longrightarrow> client_ready cl w"
  by (simp add: snapshots_ready_def)

lemma validate_id_page:
  assumes "snapshots_ready cl w"
  shows "validate_page cl (id_snapshot_page (w_service w) k) (served cl w) = (Inr (), after_request cl w)"
proof -
  have key: "validate_key_type (mock_entity_key_type (w_service w)) = Inr ()"
    using assms by (simp add: snapshots_ready_def validate_key_type_def mock_entity_key_type_def)
  have "\<forall>i \<in> set (the (sp_entity_ids (id_snapshot_page (w_service w) k))). 0 \<le> i"
    using assms id_page_ids_subset [of "w_service w" k] by (auto simp: snapshots_ready_def list_all_iff)
  then have "validate_entity_ids (sp_entity_ids (id_snapshot_page (w_service w) k)) = Inr ()"
    by (auto simp: validate_entity_ids_def find_Some_iff not_less split: option.splits)
  with key assms validate_freshness_served [of cl w] client_readyD(6) [of cl w] show ?thesis
    by (simp add: validate_page_def bindP_run snapshots_ready_def)
qed

lemma fetch_snapshot_ready:
  assumes ready: "snapshots_ready cl w" and k: "parse_cursor cursor = Inr k"
  shows "fetch_snapshot ser cl cursor w = (Inr (id_snapshot_page (w_service w) k), after_request cl w)"
proof -
  let ?s = "(after_call ^^ length (queued_failures (w_service w))) (w_service w)"
  from ready have cr: "client_ready cl w" and ids: "\<not> ms_bitmap_snapshot (w_service w)"
    by (simp_all add: snapshots_ready_def)
  from client_readyD(1) [OF cr] obtain token where t: "token_of cl w = (Inr token, w)"
    and auth: "\<not> (ms_require_auth (w_service w) \<and> token_missing token)" by (rule token_of_ready)
  have "snapshot ser cursor token ?s = (Inr (id_snapshot_page (w_service w) k), after_call ?s)"
    using snapshot_ids_ok [OF calls_done _ _ k, of "w_service w" token ser] auth ids by (simp add: after_calls_view)
  from snapshot_op.succeeds [OF client_readyD(3,4) [OF cr] this]
  have "call_with_retry cl (on_service (snapshot ser cursor token)) 0 w =
      (Inr (id_snapshot_page (w_service w) k), served cl w)"
    by (simp only: served_alt)
  with t validate_id_page [OF ready, of k] show ?thesis
    by (simp add: fetch_snapshot_def bindP_run)
qed

lemma snapshots_ready_after_request:
  assumes "snapshots_ready cl w"
  shows "snapshots_ready cl (after_request cl w)"
  using assms client_ready_after_request [of cl w] service_view_eqD [OF after_request_fields(1) [of cl w]]
  by (simp add: snapshots_ready_def)

lemma parse_cursor_at: "cursor_at k cursor \<Longrightarrow> parse_cursor cursor = Inr (int k)"
  by (auto simp: cursor_at_def parse_cursor_def)

lemma next_cursor_after_nat:
  "0 < p \<Longrightarrow> next_cursor_after (int k) p n = (if k + nat p < n then Some (show_int (int (k + nat p))) else None)"
  by (auto simp: next_cursor_after_def)

section \<open>The client as a paginated source\<close>

interpretation snapshots: paged_source "fetch_snapshot ser cl" sp_next_cursor "\<lambda>v k. id_snapshot_page v (int k)"
  "\<lambda>w. service_view (w_service w)" "\<lambda>v. nat (ms_page_size v)" "\<lambda>v. length (ms_members v)" "snapshots_ready cl"
  for ser cl
  by unfold_locales
     (auto simp: fetch_snapshot_ready parse_cursor_at snapshots_ready_after_request next_cursor_after_nat
       dest!: snapshots_readyD client_readyD(5))

definition changes_ready :: "client \<Rightarrow> string \<Rightarrow> world \<Rightarrow> bool" where
  \<comment> \<open>ready, and the watermark asked from is an integer\<close>
  "changes_ready cl since w \<longleftrightarrow> client_ready cl w \<and> py_int since \<noteq> None"

interpretation feed: paged_source "fetch_changes cl since" cb_next_cursor
  "\<lambda>v k. change_page v (the (py_int since)) (int k)"
  "\<lambda>w. service_view (w_service w)" "\<lambda>v. nat (ms_page_size v)"
  "\<lambda>v. length (pending_events v (the (py_int since)))" "changes_ready cl since"
  for cl since
proof unfold_locales
  fix s k cursor
  assume r: "changes_ready cl since s"
  then obtain n where n: "py_int since = Some n" and cr: "client_ready cl s" by (auto simp: changes_ready_def)
  from client_readyD(5) [OF cr] show "0 < nat (ms_page_size (service_view (w_service s)))" by simp
  from client_readyD(5) [OF cr] show "cb_next_cursor (change_page (service_view (w_service s)) (the (py_int since)) (int k)) =
      (if k + nat (ms_page_size (service_view (w_service s)))
          < length (pending_events (service_view (w_service s)) (the (py_int since)))
       then Some (show_int (int (k + nat (ms_page_size (service_view (w_service s)))))) else None)"
    by (simp add: change_page_def next_cursor_after_nat)
  assume "cursor_at k cursor"
  then have "parse_cursor cursor = Inr (int k)" by (rule parse_cursor_at)
  from fetch_changes_ready [OF client_readyD(6) [OF cr] n this] client_ready_after_request [OF cr] n
  show "\<exists>s'. fetch_changes cl since cursor s =
      (Inr (change_page (service_view (w_service s)) (the (py_int since)) (int k)), s') \<and>
      changes_ready cl since s' \<and> service_view (w_service s') = service_view (w_service s)"
    by (simp add: changes_ready_def)
qed

end
