(* ===== verification/Snapshot_Pages.thy ===== *)
theory Snapshot_Pages
  imports DeepSee_Client
begin

text \<open>
  Collecting the pages of a snapshot, as the synchronizer and the MCP provider both do
  (\<open>_collect_id_pages\<close> of \<open>synchronizer.py\<close>, \<open>_id_list_result\<close> of \<open>mcp_provider.py\<close>): the
  accumulator, the page bound, and what has been collected when a ready service was read.
\<close>

section \<open>The accumulator\<close>

definition MAX_PAGES :: nat where "MAX_PAGES = 10000"

record id_pages =
  ip_members :: "int list"
  ip_scores :: "(int, score) dict"
  ip_data_as_of :: string
  ip_watermark :: string

definition page_ids :: "snapshot_page \<Rightarrow> int list" where
  \<comment> \<open>\<open>page.entity_ids or ()\<close>\<close>
  "page_ids p = (case sp_entity_ids p of None \<Rightarrow> [] | Some ids \<Rightarrow> ids)"

definition first_id_page :: "snapshot_page \<Rightarrow> id_pages" where
  "first_id_page p =
     \<lparr>ip_members = page_ids p, ip_scores = sp_scores p, ip_data_as_of = sp_data_as_of p,
      ip_watermark = sp_watermark p\<rparr>"

definition add_id_page :: "id_pages \<Rightarrow> snapshot_page \<Rightarrow> id_pages" where
  "add_id_page acc p =
     \<lparr>ip_members = ip_members acc @ page_ids p, ip_scores = dict_update (ip_scores acc) (sp_scores p),
      ip_data_as_of = sp_data_as_of p, ip_watermark = sp_watermark p\<rparr>"

definition too_many_pages :: "string \<Rightarrow> ds_exc" where
  "too_many_pages what =
     contract_error (what @ '' pagination exceeded '' @ show_nat MAX_PAGES
       @ '' pages; refusing unbounded cursor chain.'')"

section \<open>What is collected\<close>

definition collected :: "mock_service \<Rightarrow> int list \<Rightarrow> id_pages \<Rightarrow> bool" where
  \<comment> \<open>pages of the service's membership, with the scores of the ids read so far\<close>
  "collected s ids p \<longleftrightarrow>
     ip_members p = ids \<and> (\<forall>i \<in> set ids. map_of (ip_scores p) i = map_of (ms_members s) i) \<and>
     ip_data_as_of p = mock_data_as_of s \<and> ip_watermark p = mock_watermark s"

definition snapshot_fits :: "mock_service \<Rightarrow> bool" where
  "snapshot_fits s \<longleftrightarrow> length (page_offsets (nat (ms_page_size s)) (length (ms_members s)) 0) \<le> MAX_PAGES"

lemma member_dict_map:
  assumes "set ids \<subseteq> set (dict_keys (ms_members s))"
  shows "map_of (member_dict s ids) i = (if i \<in> set ids then map_of (ms_members s) i else None)"
proof -
  have "map_of (member_dict s ids) i = (if i \<in> set ids then Some (score_of (ms_members s) i) else None)"
    by (induction ids) (auto simp: member_dict_def)
  moreover have "i \<in> set ids \<Longrightarrow> map_of (ms_members s) i \<noteq> None"
    using assms by (auto simp: map_of_eq_None_iff)
  ultimately show ?thesis by (auto simp: score_of_def split: option.splits)
qed

lemma id_page_scores: "sp_scores (id_snapshot_page s k) = member_dict s (page_ids (id_snapshot_page s k))"
  by (simp add: id_snapshot_page_def Let_def page_ids_def)

lemma id_page_ids: "set (page_ids (id_snapshot_page s k)) \<subseteq> set (dict_keys (ms_members s))"
  using id_page_ids_subset [of s k] by (simp add: page_ids_def)

lemma distinct_member_dict: "distinct ids \<Longrightarrow> distinct (dict_keys (member_dict s ids))"
  by (simp add: member_dict_def comp_def)

lemma collected_first: "collected s (page_ids (id_snapshot_page s k)) (first_id_page (id_snapshot_page s k))"
  using id_page_ids [of s k] by (simp add: collected_def first_id_page_def id_page_scores member_dict_map)

lemma collected_next:
  assumes "collected s ids p"
  shows "collected s (ids @ page_ids (id_snapshot_page s k)) (add_id_page p (id_snapshot_page s k))"
proof -
  let ?ids = "page_ids (id_snapshot_page s k)"
  have "rev (member_dict s ?ids) = member_dict s (rev ?ids)" by (simp add: member_dict_def rev_map)
  with member_dict_map [of "rev ?ids" s] id_page_ids [of s k]
  have "map_of (rev (member_dict s ?ids)) i = (if i \<in> set ?ids then map_of (ms_members s) i else None)" for i by simp
  moreover have mem: "i \<in> set ?ids \<Longrightarrow> map_of (ms_members s) i = None \<Longrightarrow> False" for i
    using id_page_ids [of s k] by (auto simp: map_of_eq_None_iff)
  ultimately show ?thesis using assms
    by (auto dest: mem simp: collected_def add_id_page_def id_page_scores map_of_dict_update map_add_def split: option.splits)
qed

lemma collected_all:
  "collected s ids p \<Longrightarrow>
   collected s (ids @ concat (map (\<lambda>k. page_ids (id_snapshot_page s (int k))) ks))
     (foldl add_id_page p (map (\<lambda>k. id_snapshot_page s (int k)) ks))"
proof (induction ks arbitrary: ids p)
  case (Cons k ks)
  from Cons.IH [OF collected_next [OF Cons.prems, of "int k"]] show ?case by simp
qed auto

lemma id_pages_tile:
  assumes "0 < nat (ms_page_size s)"
  shows "page_ids (id_snapshot_page s 0) @ concat (map (\<lambda>k. page_ids (id_snapshot_page s (int k)))
      (tl (page_offsets (nat (ms_page_size s)) (length (ms_members s)) 0))) = sort (dict_keys (ms_members s))"
proof -
  let ?z = "nat (ms_page_size s)" and ?ids = "sort (dict_keys (ms_members s))"
  let ?ks = "page_offsets ?z (length (ms_members s)) 0"
  have "page_ids (id_snapshot_page s (int k)) = take ?z (drop k ?ids)" for k
    using assms by (simp add: page_ids_def py_slice_nonneg)
  then have cat: "concat (map (\<lambda>k. page_ids (id_snapshot_page s (int k))) ?ks) = ?ids"
    using concat_pages [OF assms, of ?ids 0] by simp
  have "concat (map (\<lambda>k. page_ids (id_snapshot_page s (int k))) (0 # tl ?ks)) = ?ids"
    using cat by (simp only: page_offsets_Cons [symmetric])
  then show ?thesis by (simp only: list.map concat.simps of_nat_0)
qed

lemma snapshot_fits_bounds:
  assumes "snapshot_fits s"
  shows "length (page_offsets (nat (ms_page_size s)) (length (ms_members s)) 0) \<le> MAX_PAGES" "0 < MAX_PAGES"
  using assms unfolding snapshot_fits_def MAX_PAGES_def by simp_all

end
