(* ===== verification/Sync_State.thy ===== *)
theory Sync_State
  imports Wire_Models
begin

text \<open>
  Durable synchronizer state (\<open>app/repositories/synchronizer_state.py\<close>): the tables
  \<open>context_sync_state\<close> and \<open>context_sync_events\<close>, loading a context's watermark and seen
  events, and committing a watermark with its events in one transaction.
  SQLite may fail at any statement: \<open>fault k\<close> is what the k-th statement of a commit raises,
  if it does. Inserts and the upsert take the text of \<open>datetime('now')\<close> as a parameter.
\<close>

section \<open>The two tables\<close>

record sync_state_row =
  ss_committed_watermark :: "string option"
  ss_ordering_boundary :: "string option"
  ss_updated_at :: string

record sync_event_row =
  sv_watermark :: string
  sv_applied_at :: string

record sync_db =
  db_sync_state :: "(string, sync_state_row) dict"  \<comment> \<open>by \<open>context_id\<close>\<close>
  db_sync_events :: "(string \<times> string, sync_event_row) dict"  \<comment> \<open>by \<open>context_id\<close>, \<open>event_id\<close>\<close>

definition state_load :: "sync_db \<Rightarrow> string \<Rightarrow> string option \<times> string set" where
  "state_load db context_id =
     ((case dict_get (db_sync_state db) context_id of
         None \<Rightarrow> None
       | Some r \<Rightarrow> ss_committed_watermark r),
      set (map (snd \<circ> fst) (filter (\<lambda>r. fst (fst r) = context_id) (db_sync_events db))))"

section \<open>Statements\<close>

type_synonym sql_faults = "nat \<Rightarrow> ds_exc option"

definition exec_stmt :: "sql_faults \<Rightarrow> nat \<Rightarrow> ('s \<Rightarrow> 's) \<Rightarrow> (ds_exc, 's, unit) prog" where
  "exec_stmt fault k f = (case fault k of Some e \<Rightarrow> raise e | None \<Rightarrow> modP f)"

definition insert_or_ignore_event :: "string \<Rightarrow> string \<Rightarrow> string \<Rightarrow> string \<Rightarrow> sync_db \<Rightarrow> sync_db" where
  "insert_or_ignore_event db_now context_id event_id watermark db =
     (case dict_get (db_sync_events db) (context_id, event_id) of
        Some _ \<Rightarrow> db
      | None \<Rightarrow> db\<lparr>db_sync_events := dict_set (context_id, event_id)
          \<lparr>sv_watermark = watermark, sv_applied_at = db_now\<rparr> (db_sync_events db)\<rparr>)"

definition upsert_sync_state :: "string \<Rightarrow> string \<Rightarrow> string \<Rightarrow> sync_db \<Rightarrow> sync_db" where
  \<comment> \<open>the insert and its \<open>ON CONFLICT\<close> update store the same values\<close>
  "upsert_sync_state db_now context_id watermark db =
     db\<lparr>db_sync_state := dict_set context_id
       \<lparr>ss_committed_watermark = Some watermark, ss_ordering_boundary = Some watermark, ss_updated_at = db_now\<rparr>
       (db_sync_state db)\<rparr>"

fun insert_events :: "sql_faults \<Rightarrow> string \<Rightarrow> string \<Rightarrow> nat \<Rightarrow> (string, string) dict \<Rightarrow> (ds_exc, sync_db, unit) prog" where
  "insert_events fault db_now context_id k [] = ret ()"
| "insert_events fault db_now context_id k ((event_id, event_watermark) # rest) =
     bindP (exec_stmt fault k (insert_or_ignore_event db_now context_id event_id event_watermark))
       (\<lambda>_. insert_events fault db_now context_id (Suc k) rest)"

definition state_commit ::
  "sql_faults \<Rightarrow> string \<Rightarrow> string \<Rightarrow> string \<Rightarrow> (string, string) dict \<Rightarrow> (ds_exc, sync_db, unit) prog" where
  \<comment> \<open>statement 0 is \<open>BEGIN IMMEDIATE\<close>, the last one the \<open>COMMIT\<close>\<close>
  "state_commit fault db_now context_id watermark event_watermarks =
     transaction
       (bindP (exec_stmt fault 0 id) (\<lambda>_.
        bindP (insert_events fault db_now context_id 1 event_watermarks) (\<lambda>_.
        bindP (exec_stmt fault (Suc (length event_watermarks)) (upsert_sync_state db_now context_id watermark)) (\<lambda>_.
        exec_stmt fault (Suc (Suc (length event_watermarks))) id))))"

section \<open>What a commit does\<close>

lemma exec_stmt_Inr: "exec_stmt fault k f s = (Inr u, s') \<longleftrightarrow> fault k = None \<and> s' = f s"
  by (auto simp: exec_stmt_def split: option.splits)

lemma exec_stmt_ok [simp]: "fault k = None \<Longrightarrow> exec_stmt fault k f s = (Inr (), f s)"
  by (simp add: exec_stmt_def)

lemma state_load_insert [simp]:
  "state_load (insert_or_ignore_event db_now c e wm db) c' =
     (fst (state_load db c'), if c' = c then insert e (snd (state_load db c')) else snd (state_load db c'))"
proof -
  have keys: "snd (state_load d c') = {x. (c', x) \<in> set (dict_keys (db_sync_events d))}" for d
    by (force simp: state_load_def)
  have st: "db_sync_state (insert_or_ignore_event db_now c e wm db) = db_sync_state db"
    by (simp add: insert_or_ignore_event_def split: option.splits)
  have ins: "set (dict_keys (db_sync_events (insert_or_ignore_event db_now c e wm db))) =
      insert (c, e) (set (dict_keys (db_sync_events db)))"
    by (cases "dict_get (db_sync_events db) (c, e)")
       (auto simp: insert_or_ignore_event_def dom_update rev_image_eqI dest!: map_of_SomeD)
  have "snd (state_load (insert_or_ignore_event db_now c e wm db) c') =
      (if c' = c then insert e (snd (state_load db c')) else snd (state_load db c'))"
    unfolding keys ins by auto
  moreover have "fst (state_load (insert_or_ignore_event db_now c e wm db) c') = fst (state_load db c')"
    by (simp add: state_load_def st)
  ultimately show ?thesis by (simp add: prod_eq_iff)
qed

lemma state_load_upsert [simp]:
  "state_load (upsert_sync_state db_now c wm db) c' =
     (if c' = c then Some wm else fst (state_load db c'), snd (state_load db c'))"
  by (simp add: state_load_def upsert_sync_state_def update_conv')

lemma insert_events_load:
  "insert_events fault db_now c k evs db = (Inr u, db') \<Longrightarrow>
   state_load db' c' =
     (fst (state_load db c'), if c' = c then snd (state_load db c') \<union> set (dict_keys evs) else snd (state_load db c'))"
proof (induction evs arbitrary: k db)
  case (Cons ev evs)
  obtain e wm where [simp]: "ev = (e, wm)" by fastforce
  from Cons.prems have "insert_events fault db_now c (Suc k) evs (insert_or_ignore_event db_now c e wm db) = (Inr u, db')"
    by (auto elim!: bindP_InrD simp: exec_stmt_Inr)
  from Cons.IH [OF this] show ?case by auto
qed (auto simp: ret_def)

lemma insert_events_no_fault: "(\<And>k. fault k = None) \<Longrightarrow> fst (insert_events fault db_now c k evs db) = Inr ()"
proof (induction evs arbitrary: k db)
  case (Cons ev evs)
  then show ?case by (cases ev) (simp add: bindP_run)
qed simp

lemma state_commit_load:
  assumes "state_commit fault db_now c wm evs db = (Inr u, db')"
  shows "state_load db' c' =
     (if c' = c then (Some wm, snd (state_load db c) \<union> set (dict_keys evs)) else state_load db c')"
proof -
  from assms obtain db1 where i: "insert_events fault db_now c 1 evs db = (Inr (), db1)"
    and d: "db' = upsert_sync_state db_now c wm db1"
    by (auto simp: state_commit_def transaction_Inr exec_stmt_Inr elim!: bindP_InrD)
  show ?thesis
    using insert_events_load [OF i, of c'] by (auto simp: d)
qed

lemma state_commit_failed: "state_commit fault db_now c wm evs db = (Inl e, db') \<Longrightarrow> db' = db"
  unfolding state_commit_def by (rule transaction_Inl)

lemma state_commit_no_fault:
  assumes "\<And>k. fault k = None"
  shows "\<exists>db'. state_commit fault db_now c wm evs db = (Inr (), db')"
proof -
  obtain db1 where "insert_events fault db_now c 1 evs db = (Inr (), db1)"
    using insert_events_no_fault [of fault db_now c 1 evs db] assms by (metis prod.collapse)
  then show ?thesis
    using assms by (simp add: state_commit_def transaction_def bindP_run)
qed

section \<open>The contract of a state repository\<close>

locale state_repository =
  fixes load :: "'db \<Rightarrow> string \<Rightarrow> string option \<times> string set"
    and commit :: "string \<Rightarrow> string \<Rightarrow> (string, string) dict \<Rightarrow> (ds_exc, 'db, unit) prog"
  assumes load_committed: "commit c wm evs db = (Inr u, db') \<Longrightarrow>
      load db' c' = (if c' = c then (Some wm, snd (load db c) \<union> set (dict_keys evs)) else load db c')"
    and failed_commit: "commit c wm evs db = (Inl e, db') \<Longrightarrow> db' = db"
begin

lemma load_after_commit:
  assumes "commit c wm evs db = (r, db')"
  shows "load db' c = (case r of Inr _ \<Rightarrow> (Some wm, snd (load db c) \<union> set (dict_keys evs)) | Inl _ \<Rightarrow> load db c)"
  using assms load_committed [of c wm evs db _ db' c] failed_commit [of c wm evs db _ db']
  by (cases r) auto

lemma other_contexts_kept:
  "commit c wm evs db = (r, db') \<Longrightarrow> c' \<noteq> c \<Longrightarrow> load db' c' = load db c'"
  using load_committed [of c wm evs db _ db' c'] failed_commit [of c wm evs db _ db'] by (cases r) auto

text \<open>Committing the same state again changes nothing that a load can see.\<close>

lemma commit_twice:
  assumes "commit c wm evs db = (Inr u, db1)" and "commit c wm evs db1 = (Inr u', db2)"
  shows "load db2 c' = load db1 c'"
  using load_committed [OF assms(1)] load_committed [OF assms(2)] by auto

end

interpretation sqlite: state_repository state_load "state_commit fault db_now" for fault db_now
  by unfold_locales (fact state_commit_load, fact state_commit_failed)

end
