(* ===== verification/Membership_Store.thy ===== *)
theory Membership_Store
  imports Wire_Models
begin

text \<open>
  The membership store the synchronizer publishes to (\<open>contextql.membership\<close>) is not part of
  the repository: it is a parameter, the record of the operations the synchronizer calls. A
  store may or may not have the staging operations (the code asks \<open>hasattr\<close>). What the
  synchronizer relies on is stated by \<open>store_contract\<close>: an operation that returns has
  published, one that raises has not, staging publishes nothing before its commit.
\<close>

section \<open>Operations\<close>

record snapshot_args =
  sa_members :: "int list"
  sa_computed_at :: datetime
  sa_data_as_of :: datetime
  sa_source_watermark :: string
  sa_scores :: "(int, score) dict"

record delta_args =
  da_additions :: "int list"
  da_removals :: "int list"
  da_score_changes :: "(int, score) dict"
  da_computed_at :: datetime
  da_data_as_of :: datetime
  da_source_watermark :: string

record ('m, 'g, 'p) store_api =
  api_stage_snapshot :: "(string \<Rightarrow> snapshot_args \<Rightarrow> (ds_exc, 'm, 'g) prog) option"
  api_put_snapshot :: "string \<Rightarrow> snapshot_args \<Rightarrow> (ds_exc, 'm, 'p) prog"
  api_stage_delta :: "(string \<Rightarrow> delta_args \<Rightarrow> (ds_exc, 'm, 'g) prog) option"
  api_apply_delta :: "string \<Rightarrow> delta_args \<Rightarrow> (ds_exc, 'm, 'p) prog"
  api_commit_snapshot :: "'g \<Rightarrow> (ds_exc, 'm, 'p) prog"

text \<open>How the synchronizer publishes: stage and commit where the store can, directly otherwise.\<close>

definition publish_snapshot :: "('m, 'g, 'p) store_api \<Rightarrow> string \<Rightarrow> snapshot_args \<Rightarrow> (ds_exc, 'm, 'p) prog" where
  "publish_snapshot api context_id a =
     (case api_stage_snapshot api of
        Some stage \<Rightarrow> bindP (stage context_id a) (api_commit_snapshot api)
      | None \<Rightarrow> api_put_snapshot api context_id a)"

definition publish_delta :: "('m, 'g, 'p) store_api \<Rightarrow> string \<Rightarrow> delta_args \<Rightarrow> (ds_exc, 'm, 'p) prog" where
  "publish_delta api context_id a =
     (case api_stage_delta api of
        Some stage \<Rightarrow> bindP (stage context_id a) (api_commit_snapshot api)
      | None \<Rightarrow> api_apply_delta api context_id a)"

section \<open>What publishing means\<close>

definition snapshot_ok :: "snapshot_args \<Rightarrow> bool" where
  \<comment> \<open>every member comes with a score\<close>
  "snapshot_ok a \<longleftrightarrow> set (sa_members a) \<subseteq> dom (map_of (sa_scores a))"

definition snapshot_view :: "snapshot_args \<Rightarrow> (int \<rightharpoonup> score)" where
  "snapshot_view a = map_of (sa_scores a) |` set (sa_members a)"

definition delta_ok :: "delta_args \<Rightarrow> (int \<rightharpoonup> score) \<Rightarrow> bool" where
  \<comment> \<open>a delta without contradictions over the published membership\<close>
  "delta_ok a m \<longleftrightarrow>
     set (da_additions a) \<inter> set (da_removals a) = {} \<and>
     set (da_additions a) \<subseteq> dom (map_of (da_score_changes a)) \<and>
     dom (map_of (da_score_changes a)) \<subseteq> set (da_additions a) \<union> dom m \<and>
     dom (map_of (da_score_changes a)) \<inter> set (da_removals a) = {}"

definition delta_view :: "delta_args \<Rightarrow> (int \<rightharpoonup> score) \<Rightarrow> (int \<rightharpoonup> score)" where
  "delta_view a m = (m |` (- set (da_removals a))) ++ map_of (da_score_changes a)"

definition publishes :: "('m \<Rightarrow> string \<Rightarrow> (int \<rightharpoonup> score)) \<Rightarrow> string \<Rightarrow> (int \<rightharpoonup> score) \<Rightarrow> 'm \<Rightarrow> ('e + 'a) \<times> 'm \<Rightarrow> bool" where
  \<comment> \<open>the outcome of an operation that, when it returns, has published \<open>v\<close> for context \<open>c\<close>\<close>
  "publishes view c v m r \<longleftrightarrow>
     view (snd r) = (case fst r of Inl _ \<Rightarrow> view m | Inr _ \<Rightarrow> (view m)(c := v))"

definition store_contract :: "('m, 'g, 'p) store_api \<Rightarrow> ('m \<Rightarrow> string \<Rightarrow> (int \<rightharpoonup> score)) \<Rightarrow> bool" where
  "store_contract api view \<longleftrightarrow>
     (\<forall>c a m. snapshot_ok a \<longrightarrow> publishes view c (snapshot_view a) m (api_put_snapshot api c a m)) \<and>
     (\<forall>c a m. delta_ok a (view m c) \<longrightarrow> publishes view c (delta_view a (view m c)) m (api_apply_delta api c a m)) \<and>
     (\<forall>stage c a m r m'. api_stage_snapshot api = Some stage \<longrightarrow> snapshot_ok a \<longrightarrow> stage c a m = (r, m') \<longrightarrow>
        view m' = view m \<and>
        (\<forall>g. r = Inr g \<longrightarrow> publishes view c (snapshot_view a) m' (api_commit_snapshot api g m'))) \<and>
     (\<forall>stage c a m r m'. api_stage_delta api = Some stage \<longrightarrow> delta_ok a (view m c) \<longrightarrow> stage c a m = (r, m') \<longrightarrow>
        view m' = view m \<and>
        (\<forall>g. r = Inr g \<longrightarrow> publishes view c (delta_view a (view m c)) m' (api_commit_snapshot api g m')))"

definition store_up :: "('m, 'g, 'p) store_api \<Rightarrow> bool" where
  \<comment> \<open>no operation of the store raises\<close>
  "store_up api \<longleftrightarrow>
     (\<forall>c a m e m'. publish_snapshot api c a m \<noteq> (Inl e, m')) \<and>
     (\<forall>c a m e m'. publish_delta api c a m \<noteq> (Inl e, m'))"

lemma publishes_Inr: "publishes view c v m (Inr p, m') \<longleftrightarrow> view m' = (view m)(c := v)"
  and publishes_Inl: "publishes view c v m (Inl e, m') \<longleftrightarrow> view m' = view m"
  by (simp_all add: publishes_def)

lemma publish_snapshot_publishes:
  assumes "store_contract api view" and "snapshot_ok a"
  shows "publishes view c (snapshot_view a) m (publish_snapshot api c a m)"
proof (cases "api_stage_snapshot api")
  case None
  with assms show ?thesis by (simp add: store_contract_def publish_snapshot_def)
next
  case (Some stage)
  obtain r m' where s: "stage c a m = (r, m')" by fastforce
  from assms Some s have v: "view m' = view m"
    "\<And>g. r = Inr g \<Longrightarrow> publishes view c (snapshot_view a) m' (api_commit_snapshot api g m')"
    by (auto simp: store_contract_def)
  then show ?thesis using s Some
    by (cases r) (simp_all add: publish_snapshot_def bindP_run publishes_def split: sum.split)
qed

lemma publish_delta_publishes:
  assumes "store_contract api view" and "delta_ok a (view m c)"
  shows "publishes view c (delta_view a (view m c)) m (publish_delta api c a m)"
proof (cases "api_stage_delta api")
  case None
  with assms show ?thesis by (simp add: store_contract_def publish_delta_def)
next
  case (Some stage)
  obtain r m' where s: "stage c a m = (r, m')" by fastforce
  from assms Some s have v: "view m' = view m"
    "\<And>g. r = Inr g \<Longrightarrow> publishes view c (delta_view a (view m c)) m' (api_commit_snapshot api g m')"
    by (auto simp: store_contract_def)
  then show ?thesis using s Some
    by (cases r) (simp_all add: publish_delta_def bindP_run publishes_def split: sum.split)
qed

text \<open>Applying a delta again, as an at-least-once recovery does, changes nothing and stays well formed.\<close>

lemma delta_view_idem: "delta_view a (delta_view a m) = delta_view a m"
  by (auto simp: delta_view_def fun_eq_iff map_add_def restrict_map_def split: option.splits)

lemma delta_ok_again: "delta_ok a m \<Longrightarrow> delta_ok a (delta_view a m)"
  by (auto simp: delta_ok_def delta_view_def)

section \<open>A concrete store\<close>

text \<open>A store that keeps the published map of each context, with and without staging.\<close>

definition map_store :: "(string \<Rightarrow> (int \<rightharpoonup> score), string \<times> (int \<rightharpoonup> score), unit) store_api" where
  "map_store =
     \<lparr>api_stage_snapshot = Some (\<lambda>c a. ret (c, snapshot_view a)),
      api_put_snapshot = (\<lambda>c a. modP (\<lambda>m. m(c := snapshot_view a))),
      api_stage_delta = Some (\<lambda>c a m. (Inr (c, delta_view a (m c)), m)),
      api_apply_delta = (\<lambda>c a. modP (\<lambda>m. m(c := delta_view a (m c)))),
      api_commit_snapshot = (\<lambda>g. modP (\<lambda>m. m(fst g := snd g)))\<rparr>"

lemma map_store_contract: "store_contract map_store (\<lambda>m. m)"
  by (auto simp: store_contract_def map_store_def publishes_def ret_def modP_def)

lemma map_store_up: "store_up map_store"
  by (simp add: store_up_def map_store_def publish_snapshot_def publish_delta_def bindP_run)

end
