(* ===== verification/Synchronizer.thy ===== *)
theory Synchronizer
  imports Snapshot_Pages Sync_State Membership_Store
begin

text \<open>
  The incremental synchronizer (\<open>app/connectors/deepsee/synchronizer.py\<close>): bootstrap from a
  full snapshot, then pull change events, drop duplicates and stale ones, order them by
  watermark, fold them into a net delta, publish it, and only then advance the watermark.
  The synchronizer's own clock reads the clock of the world, like the client's.
\<close>

section \<open>Watermarks\<close>

definition parse_watermark :: "string option \<Rightarrow> ds_exc + int" where
  "parse_watermark value =
     (case value of
        None \<Rightarrow> Inl (contract_error ''Malformed watermark None; expected an integer string.'')
      | Some v \<Rightarrow>
          (case py_int v of
             None \<Rightarrow> Inl (contract_error (''Malformed watermark '' @ py_repr v @ ''; expected an integer string.''))
           | Some i \<Rightarrow> Inr i))"

record sync_report =
  rp_applied_additions :: nat
  rp_applied_removals :: nat
  rp_applied_score_changes :: nat
  rp_duplicates_skipped :: nat
  rp_out_of_order_rejected :: nat
  rp_committed_watermark :: string

definition applied_total :: "sync_report \<Rightarrow> nat" where
  "applied_total r = rp_applied_additions r + rp_applied_removals r + rp_applied_score_changes r"

section \<open>Folding events\<close>

record folded_changes =
  fc_additions :: "(int, score) dict"
  fc_removals :: "int set"
  fc_score_changes :: "(int, score) dict"

definition added_score :: "score option \<Rightarrow> score" where
  \<comment> \<open>\<open>float(event.score or 1.0)\<close>: both None and 0.0 are falsy\<close>
  "added_score sc = (case sc of None \<Rightarrow> 1 | Some q \<Rightarrow> if q = 0 then 1 else q)"

definition fold_step :: "change_event \<Rightarrow> folded_changes \<Rightarrow> ds_exc + folded_changes" where
  "fold_step e f =
     (let i = ce_entity_id e in
      if ce_change_type e = CHANGE_TYPE_ADDED then
        Inr (f\<lparr>fc_additions := dict_set i (added_score (ce_score e)) (fc_additions f),
               fc_removals := fc_removals f - {i}\<rparr>)
      else if ce_change_type e = CHANGE_TYPE_REMOVED then
        Inr (f\<lparr>fc_removals := insert i (fc_removals f),
               fc_additions := dict_pop i (fc_additions f),
               fc_score_changes := dict_pop i (fc_score_changes f)\<rparr>)
      else if ce_change_type e = CHANGE_TYPE_SCORE_CHANGED then
        (case ce_score e of
           None \<Rightarrow> Inl (contract_error (''score_changed event '' @ ce_event_id e @ '' carries no score.''))
         | Some q \<Rightarrow>
             if i \<in> set (dict_keys (fc_additions f))
             then Inr (f\<lparr>fc_additions := dict_set i q (fc_additions f)\<rparr>)
             else Inr (f\<lparr>fc_score_changes := dict_set i q (fc_score_changes f)\<rparr>))
      else Inr f)"

fun fold_loop :: "change_event list \<Rightarrow> folded_changes \<Rightarrow> ds_exc + folded_changes" where
  "fold_loop [] f = Inr f"
| "fold_loop (e # es) f = (case fold_step e f of Inl x \<Rightarrow> Inl x | Inr f' \<Rightarrow> fold_loop es f')"

definition fold_events :: "change_event list \<Rightarrow> ds_exc + folded_changes" where
  "fold_events ordered = fold_loop ordered \<lparr>fc_additions = [], fc_removals = {}, fc_score_changes = []\<rparr>"

section \<open>State\<close>

record synchronizer =
  sy_context_id :: string
  sy_committed_watermark :: "string option"
  sy_seen_event_ids :: "string set"

text \<open>What a synchronizer acts on, and the objects it was built with.\<close>

record 'm sync_env =
  se_self :: synchronizer
  se_world :: world
  se_store :: 'm
  se_repo :: "sync_db option"  \<comment> \<open>the database behind the state repository, if there is one\<close>

record ('m, 'g, 'p) sync_deps =
  d_client :: client
  d_store :: "('m, 'g, 'p) store_api"
  d_serialize :: "int set \<Rightarrow> string"
  d_deserialize :: "string \<Rightarrow> string + int set"
  d_fault :: sql_faults
  d_db_now :: string

definition synchronizer_init :: "string \<Rightarrow> sync_db option \<Rightarrow> synchronizer" where
  "synchronizer_init context_id repo =
     (case repo of
        Some db \<Rightarrow> (case state_load db context_id of (watermark, seen) \<Rightarrow>
          \<lparr>sy_context_id = context_id, sy_committed_watermark = watermark, sy_seen_event_ids = seen\<rparr>)
      | None \<Rightarrow> \<lparr>sy_context_id = context_id, sy_committed_watermark = None, sy_seen_event_ids = {}\<rparr>)"

definition on_world :: "(ds_exc, world, 'a) prog \<Rightarrow> (ds_exc, 'm sync_env, 'a) prog" where
  "on_world op = (\<lambda>e. case op (se_world e) of (r, w) \<Rightarrow> (r, e\<lparr>se_world := w\<rparr>))"

definition on_store :: "(ds_exc, 'm, 'a) prog \<Rightarrow> (ds_exc, 'm sync_env, 'a) prog" where
  "on_store op = (\<lambda>e. case op (se_store e) of (r, m) \<Rightarrow> (r, e\<lparr>se_store := m\<rparr>))"

definition commit_state ::
  "('m, 'g, 'p) sync_deps \<Rightarrow> string \<Rightarrow> string \<Rightarrow> (string, string) dict \<Rightarrow> (ds_exc, 'm sync_env, unit) prog" where
  \<comment> \<open>\<open>if self._state_repository is not None: self._state_repository.commit(...)\<close>\<close>
  "commit_state d context_id watermark evs =
     (\<lambda>e. case se_repo e of
        None \<Rightarrow> (Inr (), e)
      | Some db \<Rightarrow> (case state_commit (d_fault d) (d_db_now d) context_id watermark evs db of
          (r, db') \<Rightarrow> (r, e\<lparr>se_repo := Some db'\<rparr>)))"

definition event_watermarks :: "change_event list \<Rightarrow> (string, string) dict" where
  \<comment> \<open>\<open>{event.event_id: event.watermark for event in ordered}\<close>\<close>
  "event_watermarks es = dict_update [] (map (\<lambda>e. (ce_event_id e, ce_watermark e)) es)"

definition commit_and_advance ::
  "('m, 'g, 'p) sync_deps \<Rightarrow> string \<Rightarrow> string \<Rightarrow> change_event list \<Rightarrow> (ds_exc, 'm sync_env, unit) prog" where
  \<comment> \<open>the durable commit, then the watermark and the seen events in memory; \<open>bootstrap\<close> passes no events\<close>
  "commit_and_advance d context_id watermark events =
     bindP (commit_state d context_id watermark (event_watermarks events)) (\<lambda>_.
     modP (\<lambda>e. e\<lparr>se_self := (se_self e)
       \<lparr>sy_committed_watermark := Some watermark,
        sy_seen_event_ids := sy_seen_event_ids (se_self e) \<union> ce_event_id ` set events\<rparr>\<rparr>))"

section \<open>Bootstrap\<close>

definition collect_id_pages ::
  "(int set \<Rightarrow> string) \<Rightarrow> client \<Rightarrow> snapshot_page \<Rightarrow> (ds_exc, world, id_pages) prog" where
  "collect_id_pages serialize cl first_page =
     follow_pages (fetch_snapshot serialize cl) sp_next_cursor add_id_page (too_many_pages ''Snapshot'')
       MAX_PAGES 1 (sp_next_cursor first_page) (first_id_page first_page)"

definition full_membership ::
  "(int set \<Rightarrow> string) \<Rightarrow> (string \<Rightarrow> string + int set) \<Rightarrow> client \<Rightarrow> (ds_exc, world, id_pages) prog" where
  \<comment> \<open>the first half of \<open>bootstrap\<close>: what the source says the membership is; a bitmap iterates in order\<close>
  "full_membership serialize deserialize cl =
     bindP (fetch_snapshot serialize cl None) (\<lambda>first_page.
     case sp_membership_bitmap first_page of
       Some _ \<Rightarrow>
         bindP (liftE (decode_membership_bitmap deserialize cl first_page)) (\<lambda>ids.
         ret (first_id_page first_page\<lparr>ip_members := sorted_list_of_set ids\<rparr>))
     | None \<Rightarrow> collect_id_pages serialize cl first_page)"

definition bootstrap :: "('m, 'g, 'p) sync_deps \<Rightarrow> (ds_exc, 'm sync_env, 'p) prog" where
  "bootstrap d =
     bindP (on_world (full_membership (d_serialize d) (d_deserialize d) (d_client d))) (\<lambda>p.
     bindP (readP (sy_context_id \<circ> se_self)) (\<lambda>context_id.
     bindP (on_world now) (\<lambda>computed_at.
     bindP (liftE (parse_iso (ip_data_as_of p))) (\<lambda>data_as_of.
     bindP (on_store (publish_snapshot (d_store d) context_id
       \<lparr>sa_members = ip_members p, sa_computed_at = computed_at, sa_data_as_of = data_as_of,
        sa_source_watermark = ip_watermark p, sa_scores = ip_scores p\<rparr>)) (\<lambda>snapshot.
     bindP (commit_and_advance d context_id (ip_watermark p) []) (\<lambda>_.
     ret snapshot))))))"

section \<open>Incremental sync\<close>

definition fetch_all_changes :: "client \<Rightarrow> string \<Rightarrow> (ds_exc, world, change_event list \<times> string) prog" where
  \<comment> \<open>the events of every page and the \<open>data_as_of\<close> of the last\<close>
  "fetch_all_changes cl committed_watermark =
     page_loop (fetch_changes cl committed_watermark) cb_next_cursor
       (\<lambda>acc batch. (fst acc @ cb_events batch, cb_data_as_of batch))
       (too_many_pages ''Change-feed'') MAX_PAGES 0 None ([], [])"

fun filter_loop ::
  "string set \<Rightarrow> int \<Rightarrow> change_event list \<Rightarrow> string set \<Rightarrow> change_event list \<Rightarrow> nat \<Rightarrow> nat \<Rightarrow>
   ds_exc + change_event list \<times> nat \<times> nat" where
  "filter_loop seen boundary [] batch_event_ids applicable duplicates out_of_order =
     Inr (applicable, duplicates, out_of_order)"
| "filter_loop seen boundary (e # es) batch_event_ids applicable duplicates out_of_order =
     (if ce_event_id e \<in> seen \<or> ce_event_id e \<in> batch_event_ids then
        filter_loop seen boundary es batch_event_ids applicable (duplicates + 1) out_of_order
      else (case parse_watermark (Some (ce_watermark e)) of
          Inl x \<Rightarrow> Inl x
        | Inr w \<Rightarrow>
            if w \<le> boundary then filter_loop seen boundary es batch_event_ids applicable duplicates (out_of_order + 1)
            else filter_loop seen boundary es (insert (ce_event_id e) batch_event_ids) (applicable @ [e])
                   duplicates out_of_order))"

definition filter_events :: "synchronizer \<Rightarrow> change_event list \<Rightarrow> ds_exc + change_event list \<times> nat \<times> nat" where
  "filter_events self events =
     (case parse_watermark (Some (case sy_committed_watermark self of
                                    None \<Rightarrow> ''0'' | Some w \<Rightarrow> if w = [] then ''0'' else w)) of
        Inl x \<Rightarrow> Inl x
      | Inr boundary \<Rightarrow> filter_loop (sy_seen_event_ids self) boundary events {} [] 0 0)"

definition watermark_value :: "change_event \<Rightarrow> int" where
  "watermark_value e = (case parse_watermark (Some (ce_watermark e)) of Inl _ \<Rightarrow> 0 | Inr w \<Rightarrow> w)"

definition sort_by_watermark :: "change_event list \<Rightarrow> ds_exc + change_event list" where
  \<comment> \<open>\<open>sorted(applicable, key=lambda e: parse_watermark(e.watermark))\<close>\<close>
  "sort_by_watermark es =
     (case mapE (\<lambda>e. parse_watermark (Some (ce_watermark e))) es of
        Inl x \<Rightarrow> Inl x
      | Inr _ \<Rightarrow> Inr (sort_key watermark_value es))"

definition needs_bootstrap :: ds_exc where
  "needs_bootstrap = contract_error ''Synchronizer requires bootstrap() before sync_once().''"

definition delta_of :: "folded_changes \<Rightarrow> datetime \<Rightarrow> datetime \<Rightarrow> string \<Rightarrow> delta_args" where
  \<comment> \<open>\<open>delta_kwargs\<close>\<close>
  "delta_of f computed_at data_as_of watermark =
     \<lparr>da_additions = sort (dict_keys (fc_additions f)), da_removals = sorted_list_of_set (fc_removals f),
      da_score_changes = dict_update (fc_additions f) (fc_score_changes f),
      da_computed_at = computed_at, da_data_as_of = data_as_of, da_source_watermark = watermark\<rparr>"

definition apply_events ::
  "('m, 'g, 'p) sync_deps \<Rightarrow> change_event list \<Rightarrow> string \<Rightarrow> nat \<Rightarrow> nat \<Rightarrow> (ds_exc, 'm sync_env, sync_report) prog" where
  \<comment> \<open>\<open>sync_once\<close> from \<open>ordered = ...\<close> on, the applicable events not being empty\<close>
  "apply_events d applicable data_as_of duplicates out_of_order =
     bindP (liftE (sort_by_watermark applicable)) (\<lambda>ordered.
     bindP (liftE (fold_events ordered)) (\<lambda>folded.
     let new_watermark = ce_watermark (last ordered) in
     bindP (readP (sy_context_id \<circ> se_self)) (\<lambda>context_id.
     bindP (on_world now) (\<lambda>computed_at.
     bindP (liftE (parse_iso data_as_of)) (\<lambda>as_of.
     bindP (on_store (publish_delta (d_store d) context_id (delta_of folded computed_at as_of new_watermark))) (\<lambda>_.
     bindP (commit_and_advance d context_id new_watermark ordered) (\<lambda>_.
     ret \<lparr>rp_applied_additions = length (fc_additions folded), rp_applied_removals = card (fc_removals folded),
          rp_applied_score_changes = length (fc_score_changes folded), rp_duplicates_skipped = duplicates,
          rp_out_of_order_rejected = out_of_order, rp_committed_watermark = new_watermark\<rparr>)))))))"

definition sync_once :: "('m, 'g, 'p) sync_deps \<Rightarrow> (ds_exc, 'm sync_env, sync_report) prog" where
  "sync_once d =
     bindP (readP (sy_committed_watermark \<circ> se_self)) (\<lambda>committed.
     case committed of
       None \<Rightarrow> raise needs_bootstrap
     | Some committed_watermark \<Rightarrow>
         bindP (on_world (fetch_all_changes (d_client d) committed_watermark)) (\<lambda>(events, data_as_of).
         bindP (readP se_self) (\<lambda>self.
         bindP (liftE (filter_events self events)) (\<lambda>(applicable, duplicates, out_of_order).
         if applicable = [] then
           ret \<lparr>rp_applied_additions = 0, rp_applied_removals = 0, rp_applied_score_changes = 0,
                rp_duplicates_skipped = duplicates, rp_out_of_order_rejected = out_of_order,
                rp_committed_watermark = committed_watermark\<rparr>
         else apply_events d applicable data_as_of duplicates out_of_order))))"

section \<open>The net delta of an event sequence\<close>

text \<open>
  A feed that describes the membership it runs over: only entities outside are added, with a
  score that is not falsy, and only members are rescored.
\<close>

definition event_ok :: "change_event \<Rightarrow> (int \<rightharpoonup> score) \<Rightarrow> bool" where
  "event_ok e m \<longleftrightarrow>
     (if ce_change_type e = CHANGE_TYPE_ADDED then ce_entity_id e \<notin> dom m \<and> ce_score e \<noteq> None \<and> ce_score e \<noteq> Some 0
      else if ce_change_type e = CHANGE_TYPE_REMOVED then True
      else ce_change_type e = CHANGE_TYPE_SCORE_CHANGED \<and> ce_entity_id e \<in> dom m \<and> ce_score e \<noteq> None)"

fun feed_ok :: "change_event list \<Rightarrow> (int \<rightharpoonup> score) \<Rightarrow> bool" where
  "feed_ok [] m = True"
| "feed_ok (e # es) m \<longleftrightarrow> event_ok e m \<and> feed_ok es (apply_event e m)"

definition folds_at :: "bool \<Rightarrow> score option \<Rightarrow> score option \<Rightarrow> score option \<Rightarrow> score option \<Rightarrow> bool" where
  \<comment> \<open>at one entity: whether it is in the removals, its addition, its score change, the score before and now\<close>
  "folds_at r a s m c \<longleftrightarrow>
     c = (if s \<noteq> None then s else if a \<noteq> None then a else if r then None else m) \<and>
     (s \<noteq> None \<longrightarrow> m \<noteq> None \<and> a = None \<and> \<not> r) \<and> (a \<noteq> None \<longrightarrow> \<not> r)"

definition folds_from :: "folded_changes \<Rightarrow> (int \<rightharpoonup> score) \<Rightarrow> (int \<rightharpoonup> score) \<Rightarrow> bool" where
  \<comment> \<open>applied to \<open>m\<close>, the delta folded so far gives \<open>cur\<close>, and it has no contradictions\<close>
  "folds_from f m cur \<longleftrightarrow>
     (\<forall>x. folds_at (x \<in> fc_removals f) (map_of (fc_additions f) x) (map_of (fc_score_changes f) x) (m x) (cur x)) \<and>
     finite (fc_removals f) \<and>
     distinct (dict_keys (fc_additions f)) \<and> distinct (dict_keys (fc_score_changes f))"

lemma mem_dict_keys: "i \<in> fst ` set d \<longleftrightarrow> map_of d i \<noteq> None"
  by (simp add: map_of_eq_None_iff)

lemmas folds_from_step = folds_from_def update_conv' delete_conv' distinct_update distinct_delete

lemma folds_from_added:
  assumes "folds_from f m cur" and "i \<notin> dom cur"
  shows "folds_from (f\<lparr>fc_additions := dict_set i q (fc_additions f), fc_removals := fc_removals f - {i}\<rparr>) m (cur(i \<mapsto> q))"
proof -
  have "folds_at r a s b None \<Longrightarrow> folds_at False (Some q) s b (Some q)" for r a s b
    by (auto simp: folds_at_def split: if_splits)
  with assms show ?thesis by (auto simp: folds_from_step domIff) metis
qed

lemma folds_from_removed:
  assumes "folds_from f m cur"
  shows "folds_from (f\<lparr>fc_removals := insert i (fc_removals f), fc_additions := dict_pop i (fc_additions f),
      fc_score_changes := dict_pop i (fc_score_changes f)\<rparr>) m (cur(i := None))"
  using assms by (simp add: folds_from_step) (simp add: folds_at_def)

lemma folds_from_rescored_new:
  assumes "folds_from f m cur" and "map_of (fc_additions f) i \<noteq> None"
  shows "folds_from (f\<lparr>fc_additions := dict_set i q (fc_additions f)\<rparr>) m (cur(i \<mapsto> q))"
proof -
  have step: "folds_at r a s b c \<Longrightarrow> a \<noteq> None \<Longrightarrow> folds_at r (Some q) s b (Some q)" for r a s b c
    by (auto simp: folds_at_def)
  from assms(1) have "folds_at (i \<in> fc_removals f) (map_of (fc_additions f) i) (map_of (fc_score_changes f) i) (m i) (cur i)"
    by (simp add: folds_from_def)
  from step [OF this assms(2)]
  have "folds_at (i \<in> fc_removals f) (Some q) (map_of (fc_score_changes f) i) (m i) (Some q)" .
  with assms(1) show ?thesis by (simp add: folds_from_step)
qed

lemma folds_from_rescored:
  assumes "folds_from f m cur" and "map_of (fc_additions f) i = None" and "i \<in> dom cur"
  shows "folds_from (f\<lparr>fc_score_changes := dict_set i q (fc_score_changes f)\<rparr>) m (cur(i \<mapsto> q))"
proof -
  have "folds_at r None s b c \<Longrightarrow> c \<noteq> None \<Longrightarrow> folds_at r None (Some q) b (Some q)" for r s b c
    by (auto simp: folds_at_def split: if_splits)
  with assms show ?thesis by (auto simp: folds_from_step domIff) metis
qed

lemma fold_step_follows:
  assumes "folds_from f m cur" and "event_ok e cur"
  shows "\<exists>f'. fold_step e f = Inr f' \<and> folds_from f' m (apply_event e cur)"
proof -
  let ?i = "ce_entity_id e"
  consider (add) q where "ce_change_type e = CHANGE_TYPE_ADDED" "?i \<notin> dom cur" "ce_score e = Some q" "q \<noteq> 0"
    | (rem) "ce_change_type e = CHANGE_TYPE_REMOVED"
    | (resc) q where "ce_change_type e = CHANGE_TYPE_SCORE_CHANGED" "?i \<in> dom cur" "ce_score e = Some q"
    using assms(2) by (auto simp: event_ok_def split: if_splits)
  then show ?thesis
  proof cases
    case add
    with folds_from_added [OF assms(1), of ?i q] show ?thesis
      by (simp add: fold_step_def added_score_def apply_event_def Let_def)
  next
    case rem
    with folds_from_removed [OF assms(1), of ?i] show ?thesis
      by (simp add: fold_step_def apply_event_def Let_def)
  next
    case resc
    with folds_from_rescored_new [OF assms(1), of ?i q] folds_from_rescored [OF assms(1), of ?i q] show ?thesis
      by (cases "map_of (fc_additions f) ?i") (simp_all add: fold_step_def apply_event_def Let_def mem_dict_keys)
  qed
qed

lemma fold_loop_follows:
  "folds_from f m cur \<Longrightarrow> feed_ok es cur \<Longrightarrow> \<exists>f'. fold_loop es f = Inr f' \<and> folds_from f' m (replay es cur)"
proof (induction es arbitrary: f cur)
  case (Cons e es)
  from fold_step_follows [OF Cons.prems(1), of e] Cons.prems(2) obtain f1 where
    "fold_step e f = Inr f1" "folds_from f1 m (apply_event e cur)" by auto
  with Cons.IH [of f1 "apply_event e cur"] Cons.prems(2) show ?case by auto
qed auto

lemma fold_events_follows:
  assumes "feed_ok es m"
  obtains f where "fold_events es = Inr f" and "folds_from f m (replay es m)"
proof -
  have "folds_from \<lparr>fc_additions = [], fc_removals = {}, fc_score_changes = []\<rparr> m m"
    by (simp add: folds_from_def folds_at_def)
  from fold_loop_follows [OF this assms] that show thesis by (auto simp: fold_events_def)
qed

text \<open>
  The delta also fits a store that is ahead of the synchronizer, one that a lost commit left
  with the effect of the first of these events.
\<close>

lemma folds_from_self: "folds_from f m cur \<Longrightarrow> folds_from f cur cur"
proof -
  have "folds_at r a s b c \<Longrightarrow> folds_at r a s c c" for r a s b c by (auto simp: folds_at_def)
  then show "folds_from f m cur \<Longrightarrow> folds_from f cur cur" unfolding folds_from_def by blast
qed

lemma feed_ok_append: "feed_ok (es1 @ es2) m \<longleftrightarrow> feed_ok es1 m \<and> feed_ok es2 (replay es1 m)"
  by (induction es1 arbitrary: m) auto

lemma fold_loop_append:
  "fold_loop (es1 @ es2) f = (case fold_loop es1 f of Inl x \<Rightarrow> Inl x | Inr f' \<Rightarrow> fold_loop es2 f')"
  by (induction es1 arbitrary: f) (auto split: sum.splits)

lemma fold_events_ahead:
  assumes "feed_ok (es1 @ es2) m"
  obtains f where "fold_events (es1 @ es2) = Inr f" and "folds_from f (replay es1 m) (replay (es1 @ es2) m)"
proof -
  obtain f1 where f1: "fold_events es1 = Inr f1" "folds_from f1 m (replay es1 m)"
    using assms fold_events_follows [of es1 m] by (auto simp: feed_ok_append)
  from fold_loop_follows [OF folds_from_self [OF f1(2)], of es2] assms that f1(1) show thesis
    by (auto simp: feed_ok_append fold_events_def fold_loop_append)
qed

lemma folds_from_delta:
  assumes "folds_from f m cur"
  shows "delta_ok (delta_of f t d wm) m" and "delta_view (delta_of f t d wm) m = cur"
proof -
  have sc: "map_of (dict_update (fc_additions f) (fc_score_changes f)) = map_of (fc_additions f) ++ map_of (fc_score_changes f)"
    using assms by (simp add: folds_from_def map_of_dict_update_distinct)
  have fin: "finite (fc_removals f)" using assms by (simp add: folds_from_def)
  have at: "folds_at (x \<in> fc_removals f) (map_of (fc_additions f) x) (map_of (fc_score_changes f) x) (m x) (cur x)" for x
    using assms by (simp add: folds_from_def)
  have keys: "set (sort (dict_keys (fc_additions f))) = dom (map_of (fc_additions f))"
    by (simp add: dom_map_of_conv_image_fst)
  note da = delta_of_def sc keys set_sorted_list_of_set [OF fin] delta_args.simps dom_map_add
  show "delta_ok (delta_of f t d wm) m"
    unfolding delta_ok_def da using at by (fastforce simp: folds_at_def)
  show "delta_view (delta_of f t d wm) m = cur"
    unfolding delta_view_def da
  proof
    fix x
    show "(m |` (- fc_removals f) ++ (map_of (fc_additions f) ++ map_of (fc_score_changes f))) x = cur x"
      using at [of x] by (auto simp: folds_at_def map_add_def split: option.splits)
  qed
qed

section \<open>Filtering and ordering\<close>

definition watermark_ok :: "change_event \<Rightarrow> bool" where
  "watermark_ok e \<longleftrightarrow> py_int (ce_watermark e) \<noteq> None"

lemma parse_watermark_ok:
  "watermark_ok e \<Longrightarrow> parse_watermark (Some (ce_watermark e)) = Inr (watermark_value e)"
  by (auto simp: watermark_ok_def parse_watermark_def watermark_value_def)

definition applicable_in :: "string set \<Rightarrow> int \<Rightarrow> change_event \<Rightarrow> bool" where
  "applicable_in seen boundary e \<longleftrightarrow> ce_event_id e \<notin> seen \<and> boundary < watermark_value e"

lemma filter_loop_spec:
  assumes "list_all watermark_ok es" and "inj_on ce_event_id (set es \<union> B)"
  shows "\<exists>A d k. filter_loop seen boundary es (ce_event_id ` B) app dup ooo = Inr (app @ A, dup + d, ooo + k) \<and>
      length A + d + k = length es \<and> distinct A \<and>
      set A = {e \<in> set es. applicable_in seen boundary e} - B"
  using assms
proof (induction es arbitrary: B app dup ooo)
  case (Cons e es)
  have inj: "inj_on ce_event_id (set es \<union> B)" and inj': "inj_on ce_event_id (set es \<union> insert e B)"
    using Cons.prems(2) by (auto intro: inj_on_subset)
  have ok: "list_all watermark_ok es" and pw: "parse_watermark (Some (ce_watermark e)) = Inr (watermark_value e)"
    using Cons.prems(1) by (simp_all add: parse_watermark_ok)
  have mem: "ce_event_id e \<in> ce_event_id ` B \<longleftrightarrow> e \<in> B"
    using Cons.prems(2) by (auto simp: inj_on_def)
  consider (dup) "ce_event_id e \<in> seen \<or> e \<in> B"
    | (old) "ce_event_id e \<notin> seen" "e \<notin> B" "watermark_value e \<le> boundary"
    | (new) "ce_event_id e \<notin> seen" "e \<notin> B" "\<not> watermark_value e \<le> boundary" by blast
  then show ?case
  proof cases
    case dup
    obtain A d o2 where A: "filter_loop seen boundary es (ce_event_id ` B) app (dup + 1) ooo = Inr (app @ A, dup + 1 + d, ooo + o2)"
      "length A + d + o2 = length es" "distinct A" "set A = {e \<in> set es. applicable_in seen boundary e} - B"
      using Cons.IH [OF ok inj] by blast
    have "{x \<in> set (e # es). applicable_in seen boundary x} - B = {x \<in> set es. applicable_in seen boundary x} - B"
      using dup by (auto simp: applicable_in_def)
    with A dup mem show ?thesis
      by (intro exI [of _ A] exI [of _ "Suc d"] exI [of _ o2] conjI) simp_all
  next
    case old
    obtain A d o2 where A: "filter_loop seen boundary es (ce_event_id ` B) app dup (ooo + 1) = Inr (app @ A, dup + d, ooo + 1 + o2)"
      "length A + d + o2 = length es" "distinct A" "set A = {e \<in> set es. applicable_in seen boundary e} - B"
      using Cons.IH [OF ok inj] by blast
    have "{x \<in> set (e # es). applicable_in seen boundary x} - B = {x \<in> set es. applicable_in seen boundary x} - B"
      using old by (auto simp: applicable_in_def)
    with A old mem pw show ?thesis
      by (intro exI [of _ A] exI [of _ d] exI [of _ "Suc o2"] conjI) simp_all
  next
    case new
    obtain A d o2 where A: "filter_loop seen boundary es (insert (ce_event_id e) (ce_event_id ` B)) (app @ [e]) dup ooo
        = Inr ((app @ [e]) @ A, dup + d, ooo + o2)"
      "length A + d + o2 = length es" "distinct A" "set A = {e \<in> set es. applicable_in seen boundary e} - insert e B"
      using Cons.IH [OF ok inj'] unfolding image_insert by blast
    have "set (e # A) = {x \<in> set (e # es). applicable_in seen boundary x} - B" "e \<notin> set A"
      unfolding list.set A(4) using new by (auto simp: applicable_in_def)
    with A(1-3) new mem pw show ?thesis
      by (intro exI [of _ "e # A"] exI [of _ d] exI [of _ o2] conjI) simp_all
  qed
qed auto

text \<open>Two lists of the same events sorted by an injective key are the same list.\<close>

lemma sort_key_unique:
  assumes "set xs = set ys" and "distinct xs" and "sorted (map f ys)" and "distinct (map f ys)"
  shows "sort_key f xs = ys"
proof -
  from assms(4) have inj: "inj_on f (set ys)" and dy: "distinct ys" by (simp_all add: distinct_map)
  have "map f (sort_key f xs) = map f ys"
  proof (rule sorted_distinct_set_unique)
    show "distinct (map f (sort_key f xs))" using assms inj by (simp add: distinct_map)
  qed (use assms in simp_all)
  with inj assms(1) show ?thesis by (intro map_inj_on [of f]) simp_all
qed

lemma sort_by_watermark_ok:
  "list_all watermark_ok es \<Longrightarrow> sort_by_watermark es = Inr (sort_key watermark_value es)"
  using mapE_Inr [of es "\<lambda>e. parse_watermark (Some (ce_watermark e))" watermark_value]
  by (simp add: sort_by_watermark_def parse_watermark_ok list_all_iff)

lemma event_watermarks_keys: "set (dict_keys (event_watermarks es)) = ce_event_id ` set es"
proof -
  have "set (dict_keys (dict_update d (map (\<lambda>e. (ce_event_id e, ce_watermark e)) es))) =
      set (dict_keys d) \<union> ce_event_id ` set es" for d
    by (induction es arbitrary: d) (auto simp: dict_update_Cons dom_update)
  then show ?thesis by (simp add: event_watermarks_def)
qed

end
