(* ===== verification/Sync_Correct.thy ===== *)
theory Sync_Correct
  imports Synchronizer
begin

text \<open>
  The synchronizer against the service it reads: what a bootstrap and a sync leave in the
  membership store, in the synchronizer and in the durable state.
\<close>

section \<open>The service's dates parse\<close>

lemma valid_base_time: "valid_datetime BASE_TIME"
  by (simp add: valid_datetime_def BASE_TIME_def days_in_month_def is_leap_def)

lemma base_ord: "ymd2ord (dt_year BASE_TIME) (dt_month BASE_TIME) (dt_day BASE_TIME) \<le> 740000"
  by (simp add: BASE_TIME_def ymd2ord_def days_before_year_def days_before_month_table is_leap_def)

lemma valid_service_time:
  assumes "n < 10 ^ 11"
  shows "valid_datetime (add_seconds BASE_TIME n)"
proof (rule valid_add_seconds [OF valid_base_time])
  have "n div 86400 \<le> 10 ^ 11 div 86400" using assms by (intro div_le_mono) simp
  then show "dt_year (add_seconds BASE_TIME n) \<le> 9999"
    using year_add_seconds [OF valid_base_time, of n] base_ord by simp
qed

lemma stale_data_as_of_iso:
  "STALE_DATA_AS_OF = isoformat \<lparr>dt_year = 2000, dt_month = 1, dt_day = 1, dt_hour = 0, dt_minute = 0,
     dt_second = 0, dt_micro = 0, dt_tz = Some 0\<rparr>"
  by (simp add: STALE_DATA_AS_OF_def isoformat_def iso_offset_def pad_zeros_def digit_chars show_nat.simps)

lemma parse_iso_isoformat:
  "valid_datetime d \<Longrightarrow> dt_tz d = Some off \<Longrightarrow> parse_iso (isoformat d) = Inr d"
  by (simp add: parse_iso_def fromisoformat_isoformat)

lemma data_as_of_parses:
  assumes "ms_seq s < 10 ^ 11"
  shows "\<exists>d. parse_iso (mock_data_as_of s) = Inr d"
proof (cases "ms_stale_data_as_of s")
  case True
  have "valid_datetime \<lparr>dt_year = 2000, dt_month = 1, dt_day = 1, dt_hour = 0, dt_minute = 0,
      dt_second = 0, dt_micro = 0, dt_tz = Some 0\<rparr>"
    by (simp add: valid_datetime_def days_in_month_def)
  from parse_iso_isoformat [OF this] True show ?thesis by (simp add: mock_data_as_of_def stale_data_as_of_iso)
next
  case False
  have "dt_tz (add_seconds BASE_TIME (ms_seq s)) = Some 0"
    by (simp add: add_seconds_def Let_def BASE_TIME_def split: prod.splits)
  with parse_iso_isoformat [OF valid_service_time [OF assms]] False show ?thesis
    by (simp add: mock_data_as_of_def)
qed

section \<open>The event log of a well-formed service\<close>

lemma log_watermark:
  assumes "mock_wf s" and "k < ms_seq s"
  shows "watermark_ok (ms_events s ! k)" "watermark_value (ms_events s ! k) = int k + 1"
    "ce_event_id (ms_events s ! k) = event_id_text (k + 1)" "ce_watermark (ms_events s ! k) = watermark_text (k + 1)"
  using assms
  by (auto simp: mock_wf_def watermark_ok_def watermark_value_def parse_watermark_def watermark_text_def)

lemma log_nth:
  assumes "mock_wf s"
  shows "e \<in> set (ms_events s) \<longleftrightarrow> (\<exists>k < ms_seq s. e = ms_events s ! k)"
  using assms by (auto simp: mock_wf_def in_set_conv_nth)

lemma event_id_text_inj [simp]: "event_id_text m = event_id_text n \<longleftrightarrow> m = n"
  by (simp add: event_id_text_def pad_zeros_inj)

lemma log_ids_inj:
  assumes "mock_wf s"
  shows "inj_on ce_event_id (set (ms_events s))"
  by (rule inj_onI) (auto simp: log_nth [OF assms] log_watermark [OF assms])

lemma log_watermarks_ok:
  assumes "mock_wf s"
  shows "list_all watermark_ok (ms_events s)"
  by (auto simp: list_all_iff log_nth [OF assms] log_watermark [OF assms])

lemma log_sorted:
  assumes "mock_wf s"
  shows "sorted (map watermark_value (drop n (ms_events s)))" "distinct (map watermark_value (drop n (ms_events s)))"
proof -
  have "length (ms_events s) = ms_seq s" using assms by (simp add: mock_wf_def)
  then have "map watermark_value (ms_events s) = map (\<lambda>k. int k + 1) [0..<ms_seq s]"
    by (intro nth_equalityI) (simp_all add: log_watermark [OF assms])
  then have m: "map watermark_value (drop n (ms_events s)) = map (\<lambda>k. int k + 1) [n..<ms_seq s]"
    by (simp flip: drop_map) (simp add: drop_map)
  show "sorted (map watermark_value (drop n (ms_events s)))"
    unfolding m by (simp add: sorted_iff_nth_mono)
  show "distinct (map watermark_value (drop n (ms_events s)))"
    unfolding m by (simp add: distinct_map inj_on_def)
qed

lemma log_after:
  assumes "mock_wf s"
  shows "{e \<in> set (ms_events s). int n < watermark_value e} = set (drop n (ms_events s))"
proof -
  have len: "length (ms_events s) = ms_seq s" using assms by (simp add: mock_wf_def)
  have "e \<in> set (drop n (ms_events s)) \<longleftrightarrow> (\<exists>k < ms_seq s. n \<le> k \<and> e = ms_events s ! k)" for e
  proof
    assume "e \<in> set (drop n (ms_events s))"
    then obtain j where "j < ms_seq s - n" "e = ms_events s ! (n + j)" by (auto simp: in_set_conv_nth len)
    then show "\<exists>k < ms_seq s. n \<le> k \<and> e = ms_events s ! k" by (intro exI [of _ "n + j"]) auto
  next
    assume "\<exists>k < ms_seq s. n \<le> k \<and> e = ms_events s ! k"
    then obtain k where k: "k < ms_seq s" "n \<le> k" "e = ms_events s ! k" by blast
    then have "e = drop n (ms_events s) ! (k - n)" "k - n < length (drop n (ms_events s))" by (simp_all add: len)
    then show "e \<in> set (drop n (ms_events s))" by (metis nth_mem)
  qed
  then show ?thesis by (auto simp: log_nth [OF assms] log_watermark [OF assms])
qed

lemma pending_set:
  assumes "mock_wf s"
  shows "set (pending_events s (int n)) \<subseteq> set (ms_events s)"
    and "{e \<in> set (pending_events s (int n)). int n < watermark_value e} = set (drop n (ms_events s))"
proof -
  have "\<forall>e \<in> set (ms_events s). (case py_int (ce_watermark e) of None \<Rightarrow> False | Some w \<Rightarrow> int n < w)
      = (int n < watermark_value e)"
    using log_watermarks_ok [OF assms]
    by (auto simp: list_all_iff watermark_ok_def watermark_value_def parse_watermark_def split: option.splits)
  then have eq: "set (pending_events s (int n)) = (if ms_redeliver_from_start s then set (ms_events s)
      else {e \<in> set (ms_events s). int n < watermark_value e})"
    by (auto simp: pending_events_def Let_def)
  show "set (pending_events s (int n)) \<subseteq> set (ms_events s)" unfolding eq by auto
  show "{e \<in> set (pending_events s (int n)). int n < watermark_value e} = set (drop n (ms_events s))"
    unfolding eq log_after [OF assms, symmetric] by auto
qed

section \<open>What a sync reads\<close>

definition feed_fits :: "mock_service \<Rightarrow> nat \<Rightarrow> bool" where
  \<comment> \<open>the change feed after the first \<open>n\<close> events takes at most \<open>MAX_PAGES\<close> pages\<close>
  "feed_fits s n \<longleftrightarrow>
     length (page_offsets (nat (ms_page_size s)) (length (pending_events s (int n))) 0) \<le> MAX_PAGES"

lemma foldl_batches:
  "foldl (\<lambda>acc b. (fst acc @ f b, g b)) acc bs =
     (fst acc @ concat (map f bs), if bs = [] then snd acc else g (last bs))"
  by (induction bs arbitrary: acc) auto

lemma fetch_all_changes_ready:
  assumes ready: "client_ready cl w" and fits: "feed_fits (w_service w) n"
  shows "\<exists>w'. fetch_all_changes cl (watermark_text n) w =
      (Inr (pending_events (w_service w) (int n), mock_data_as_of (w_service w)), w') \<and>
      client_ready cl w' \<and> service_view (w_service w') = service_view (w_service w)"
proof -
  let ?s = "w_service w" and ?L = "pending_events (w_service w) (int n)"
  let ?ks = "page_offsets (nat (ms_page_size ?s)) (length ?L) 0"
  have n: "py_int (watermark_text n) = Some (int n)" by (simp add: watermark_text_def)
  with ready have "changes_ready cl (watermark_text n) w" by (simp add: changes_ready_def)
  moreover have "cursor_at 0 None" by (simp add: cursor_at_def)
  ultimately obtain w' where w': "fetch_all_changes cl (watermark_text n) w =
      (Inr (foldl (\<lambda>acc batch. (fst acc @ cb_events batch, cb_data_as_of batch)) ([], [])
          (map (\<lambda>k. change_page ?s (int n) (int k)) ?ks)), w')"
    "changes_ready cl (watermark_text n) w'" "service_view (w_service w') = service_view ?s"
    using feed.loop_reads_all [of cl "watermark_text n" w 0 None MAX_PAGES 0
        "\<lambda>acc batch. (fst acc @ cb_events batch, cb_data_as_of batch)" "too_many_pages ''Change-feed''" "([], [])"] fits
    by (auto simp: n fetch_all_changes_def feed_fits_def)
  have pos: "0 < nat (ms_page_size ?s)" using client_readyD(5) [OF ready] by simp
  have "cb_events (change_page ?s (int n) (int k)) = take (nat (ms_page_size ?s)) (drop k ?L)" for k
    using pos by (simp add: change_page_def py_slice_nonneg)
  then have "concat (map (cb_events \<circ> (\<lambda>k. change_page ?s (int n) (int k))) ?ks) = ?L"
    using concat_pages [OF pos, of ?L 0] by (simp add: comp_def)
  then have "foldl (\<lambda>acc batch. (fst acc @ cb_events batch, cb_data_as_of batch)) ([], [])
      (map (\<lambda>k. change_page ?s (int n) (int k)) ?ks) = (?L, mock_data_as_of ?s)"
    by (simp add: foldl_batches last_map change_page_def [of _ _ "int (last _)"])
  with w' show ?thesis by (auto simp: changes_ready_def)
qed

lemma filter_events_pending:
  assumes wf: "mock_wf s" and n: "n \<le> ms_seq s"
    and self: "sy_committed_watermark self = Some (watermark_text n)"
    and seen: "sy_seen_event_ids self \<subseteq> ce_event_id ` set (take n (ms_events s))"
  shows "\<exists>A d k. filter_events self (pending_events s (int n)) = Inr (A, d, k) \<and>
      sort_by_watermark A = Inr (drop n (ms_events s)) \<and>
      (ms_seq s - n) + d + k = length (pending_events s (int n)) \<and> (A = [] \<longleftrightarrow> n = ms_seq s)"
proof -
  let ?L = "pending_events s (int n)" and ?seen = "sy_seen_event_ids self"
  note sub = pending_set(1) [OF wf, of n]
  have len: "length (ms_events s) = ms_seq s" using wf by (simp add: mock_wf_def)
  have ok: "list_all watermark_ok ?L" using log_watermarks_ok [OF wf] sub by (auto simp: list_all_iff)
  have inj: "inj_on ce_event_id (set ?L \<union> {})" using log_ids_inj [OF wf] sub by (auto intro: inj_on_subset)
  obtain A d k where A: "filter_loop ?seen (int n) ?L {} [] 0 0 = Inr (A, d, k)"
    "length A + d + k = length ?L" "distinct A" "set A = {e \<in> set ?L. applicable_in ?seen (int n) e}"
    using filter_loop_spec [OF ok inj, of ?seen "int n" "[]" 0 0] by (simp only: image_empty append_Nil add_0 Diff_empty) blast
  have new: "ce_event_id e \<notin> ?seen" if "e \<in> set (drop n (ms_events s))" for e
  proof
    assume "ce_event_id e \<in> ?seen"
    with seen obtain e' where e': "e' \<in> set (take n (ms_events s))" "ce_event_id e = ce_event_id e'" by blast
    moreover have "e \<in> set (ms_events s)" "e' \<in> set (ms_events s)"
      using that e'(1) by (auto dest: in_set_takeD in_set_dropD)
    ultimately have "e = e'" using log_ids_inj [OF wf] by (auto dest: inj_onD)
    moreover have "distinct (ms_events s)" using log_sorted(2) [OF wf, of 0] by (simp add: distinct_map)
    ultimately show False using that e'(1) set_take_disj_set_drop_if_distinct [of "ms_events s" n n] by auto
  qed
  then have setA: "set A = set (drop n (ms_events s))"
    using A(4) pending_set(2) [OF wf, of n] by (auto simp: applicable_in_def)
  have okA: "list_all watermark_ok A" using A(4) ok by (auto simp: list_all_iff)
  have sk: "sort_key watermark_value A = drop n (ms_events s)"
    using setA A(3) log_sorted [OF wf, of n] by (rule sort_key_unique)
  then have "sort_by_watermark A = Inr (drop n (ms_events s))" using sort_by_watermark_ok [OF okA] by simp
  moreover from arg_cong [OF sk, of length] len have "length A = ms_seq s - n" by simp
  moreover have "watermark_text n \<noteq> []" by (simp add: watermark_text_def)
  then have "filter_events self ?L = Inr (A, d, k)"
    using A(1) by (simp add: filter_events_def self parse_watermark_def watermark_text_def)
  ultimately show ?thesis using A(2) n by (intro exI [of _ A] exI [of _ d] exI [of _ k]) auto
qed

section \<open>Committing\<close>

definition advance :: "string \<Rightarrow> change_event list \<Rightarrow> synchronizer \<Rightarrow> synchronizer" where
  "advance wm es self =
     self\<lparr>sy_committed_watermark := Some wm, sy_seen_event_ids := sy_seen_event_ids self \<union> ce_event_id ` set es\<rparr>"

lemma commit_and_advance_Inl: "commit_and_advance d c wm es e = (Inl x, e') \<Longrightarrow> e' = e"
  by (cases e) (auto simp: commit_and_advance_def commit_state_def dest: sqlite.failed_commit
      split: option.splits prod.splits elim!: bindP_InlD)

lemma commit_and_advance_Inr:
  assumes "commit_and_advance d c wm es e = (Inr u, e')"
  shows "se_self e' = advance wm es (se_self e)" "se_world e' = se_world e" "se_store e' = se_store e"
    "se_repo e' = Some db' \<Longrightarrow> \<exists>db. se_repo e = Some db \<and>
       state_load db' c = (Some wm, snd (state_load db c) \<union> ce_event_id ` set es)"
  using assms sqlite.load_committed [of "d_fault d" "d_db_now d" c wm "event_watermarks es" _ _ db' c]
  by (auto simp: commit_and_advance_def commit_state_def advance_def event_watermarks_keys [unfolded set_map]
      split: option.splits prod.splits elim!: bindP_InrD)

lemma commit_and_advance_ok:
  assumes "se_repo e = None \<or> (\<forall>k. d_fault d k = None)"
  shows "\<exists>e'. commit_and_advance d c wm es e = (Inr (), e')"
proof (cases "se_repo e")
  case None
  then show ?thesis by (simp add: commit_and_advance_def commit_state_def bindP_run)
next
  case (Some db)
  with assms state_commit_no_fault [of "d_fault d" "d_db_now d" c wm "event_watermarks es" db]
  show ?thesis by (auto simp: commit_and_advance_def commit_state_def bindP_run)
qed

section \<open>Memory and disk agree\<close>

definition durable :: "string \<Rightarrow> 'm sync_env \<Rightarrow> bool" where
  \<comment> \<open>the synchronizer of context \<open>c\<close> holds what a restart would load\<close>
  "durable c e \<longleftrightarrow>
     sy_context_id (se_self e) = c \<and>
     (\<forall>db. se_repo e = Some db \<longrightarrow>
        state_load db c = (sy_committed_watermark (se_self e), sy_seen_event_ids (se_self e)))"

lemma durable_init: "durable c \<lparr>se_self = synchronizer_init c repo, se_world = w, se_store = m, se_repo = repo\<rparr>"
  by (simp add: durable_def synchronizer_init_def split: option.splits prod.splits)

lemma durable_restart: "durable c e \<Longrightarrow> se_repo e = Some db \<Longrightarrow> synchronizer_init c (Some db) = se_self e"
  by (simp add: durable_def synchronizer_init_def)

lemma durable_on_world [keeps_rules]: "keeps (durable c) (on_world op)"
  and durable_on_store [keeps_rules]: "keeps (durable c) (on_store op')"
  by (auto simp: keeps_def on_world_def on_store_def durable_def split: prod.splits)

lemma durable_commit [keeps_rules]: "keeps (durable c) (commit_and_advance d c wm es)"
  unfolding keeps_def
proof (intro allI impI)
  fix e :: "'a sync_env"
  assume d: "durable c e"
  obtain r e' where r: "commit_and_advance d c wm es e = (r, e')" by fastforce
  show "durable c (snd (commit_and_advance d c wm es e))"
  proof (cases r)
    case (Inl x)
    with r d commit_and_advance_Inl [of d c wm es e x e'] show ?thesis by simp
  next
    case (Inr u)
    note c = commit_and_advance_Inr [OF r [unfolded Inr]]
    have "state_load db' c = (Some wm, sy_seen_event_ids (se_self e) \<union> ce_event_id ` set es)" if "se_repo e' = Some db'" for db'
      using c(4) [OF that] d by (auto simp: durable_def)
    with r c(1) d show ?thesis by (simp add: durable_def advance_def)
  qed
qed

lemma durable_context: "\<exists>e. durable c e \<and> x = (sy_context_id \<circ> se_self) e \<Longrightarrow> x = c"
  by (auto simp: durable_def)

lemma durable_apply_events: "keeps (durable c) (apply_events d A das dup ooo)"
  unfolding apply_events_def Let_def
  by (intro keeps_rules keeps_read_bindP) (drule durable_context, simp, intro keeps_rules)

lemma durable_sync_once: "keeps (durable c) (sync_once d)"
  unfolding sync_once_def
  by (intro keeps_rules durable_apply_events)

lemma durable_bootstrap: "keeps (durable c) (bootstrap d)"
  unfolding bootstrap_def
  by (intro keeps_rules keeps_read_bindP) (drule durable_context, simp, intro keeps_rules)

section \<open>What a bootstrap reads\<close>

lemma full_membership_pages:
  assumes ready: "snapshots_ready cl w" and fits: "snapshot_fits (w_service w)"
  shows "\<exists>p w'. full_membership ser deser cl w = (Inr p, w') \<and>
      collected (w_service w) (sort (dict_keys (ms_members (w_service w)))) p \<and>
      client_ready cl w' \<and> service_view (w_service w') = service_view (w_service w)"
proof -
  let ?s = "w_service w" and ?z = "nat (ms_page_size (w_service w))"
  let ?ids = "sort (dict_keys (ms_members (w_service w)))"
  let ?ks = "page_offsets ?z (length (ms_members (w_service w))) 0"
  let ?pg = "\<lambda>k. id_snapshot_page ?s (int k)"
  let ?p = "foldl add_id_page (first_id_page (?pg 0)) (map ?pg (tl ?ks))"
  have "0 < ?z" using client_readyD(5) snapshots_readyD [OF ready] by fastforce
  note tile = id_pages_tile [OF this] and bounds = snapshot_fits_bounds [OF fits]
  with collected_all [OF collected_first [of ?s 0], of "tl ?ks"] have coll: "collected ?s ?ids ?p"
    unfolding tile by simp
  obtain w1 where first: "fetch_snapshot ser cl None w = (Inr (?pg 0), w1)"
    using fetch_snapshot_ready [OF ready, of None 0 ser] by (auto simp: parse_cursor_def)
  obtain w' where "bindP (fetch_snapshot ser cl None) (\<lambda>first. follow_pages (fetch_snapshot ser cl) sp_next_cursor
        add_id_page (too_many_pages ''Snapshot'') MAX_PAGES 1 (sp_next_cursor first) (first_id_page first)) w = (Inr ?p, w')"
    and w': "snapshots_ready cl w'" "service_view (w_service w') = service_view ?s"
    using snapshots.follow_reads_all [OF ready, of MAX_PAGES ser add_id_page "too_many_pages ''Snapshot''" first_id_page] bounds
    by (auto simp: comp_def)
  then have "full_membership ser deser cl w = (Inr ?p, w')"
    using first by (simp add: full_membership_def collect_id_pages_def bindP_run)
  with coll w' show ?thesis by (auto dest: snapshots_readyD)
qed

definition bitmap_ready :: "(int set \<Rightarrow> string) \<Rightarrow> (string \<Rightarrow> string + int set) \<Rightarrow> client \<Rightarrow> world \<Rightarrow> bool" where
  \<comment> \<open>ready, and the snapshot comes as one bitmap that the codec reads back\<close>
  "bitmap_ready ser deser cl w \<longleftrightarrow>
     (let s = w_service w; keys = set (dict_keys (ms_members s))
      in client_ready cl w \<and> ms_bitmap_snapshot s \<and> \<not> ms_malformed_bitmap s \<and> \<not> ms_invalid_key_type s \<and>
         int (length (ser keys)) \<le> cl_max_payload_bytes cl \<and> deser (ser keys) = Inr keys)"

lemma full_membership_bitmap:
  assumes ready: "bitmap_ready ser deser cl w"
  shows "\<exists>p w'. full_membership ser deser cl w = (Inr p, w') \<and>
      collected (w_service w) (sorted_list_of_set (set (dict_keys (ms_members (w_service w))))) p \<and>
      client_ready cl w' \<and> service_view (w_service w') = service_view (w_service w)"
proof -
  let ?s = "(after_call ^^ length (queued_failures (w_service w))) (w_service w)"
  let ?pg = "bitmap_snapshot_page ser (w_service w)"
  from ready have cr: "client_ready cl w" and bm: "ms_bitmap_snapshot (w_service w)"
    by (simp_all add: bitmap_ready_def Let_def)
  from client_readyD(1) [OF cr] obtain token where t: "token_of cl w = (Inr token, w)"
    and auth: "\<not> (ms_require_auth (w_service w) \<and> token_missing token)" by (rule token_of_ready)
  have "snapshot ser None token ?s = (Inr ?pg, after_call ?s)"
    using snapshot_bitmap_ok [OF calls_done, of "w_service w" token ser None] auth bm by (simp add: after_calls_view)
  from snapshot_op.succeeds [OF client_readyD(3,4) [OF cr] this]
  have call: "call_with_retry cl (on_service (snapshot ser None token)) 0 w = (Inr ?pg, served cl w)"
    by (simp only: served_alt)
  have payload: "sp_membership_bitmap ?pg = Some (ser (set (dict_keys (ms_members (w_service w)))))"
    and enc: "sp_bitmap_encoding ?pg = Some SUPPORTED_BITMAP_ENCODING"
    and das: "sp_data_as_of ?pg = mock_data_as_of (w_service w)"
    and key: "sp_entity_key_type ?pg = SUPPORTED_ENTITY_KEY_TYPE"
    using ready by (simp_all add: bitmap_ready_def Let_def bitmap_snapshot_page_def mock_entity_key_type_def)
  have ok: "validate_bitmap_payload cl (ser (set (dict_keys (ms_members (w_service w))))) (Some SUPPORTED_BITMAP_ENCODING) = Inr ()"
    using ready by (simp add: bitmap_ready_def Let_def validate_bitmap_payload_def)
  have "validate_page cl ?pg (served cl w) = (Inr (), after_request cl w)"
    using validate_freshness_served [OF client_readyD(6) [OF cr]] ok
    by (simp add: validate_page_def bindP_run payload enc das key validate_key_type_def)
  with t call have "fetch_snapshot ser cl None w = (Inr ?pg, after_request cl w)"
    by (simp add: fetch_snapshot_def bindP_run)
  moreover have "decode_membership_bitmap deser cl ?pg = Inr (set (dict_keys (ms_members (w_service w))))"
    using ready ok by (simp add: decode_membership_bitmap_def payload enc bitmap_ready_def Let_def)
  ultimately have "full_membership ser deser cl w =
      (Inr (first_id_page ?pg\<lparr>ip_members := sorted_list_of_set (set (dict_keys (ms_members (w_service w))))\<rparr>), after_request cl w)"
    using payload by (simp add: full_membership_def bindP_run)
  moreover have "collected (w_service w) (sorted_list_of_set (set (dict_keys (ms_members (w_service w)))))
      (first_id_page ?pg\<lparr>ip_members := sorted_list_of_set (set (dict_keys (ms_members (w_service w))))\<rparr>)"
    by (simp add: collected_def first_id_page_def bitmap_snapshot_page_def)
  ultimately show ?thesis using client_ready_after_request [OF cr] by simp
qed

definition source_ready :: "('m, 'g, 'p) sync_deps \<Rightarrow> world \<Rightarrow> bool" where
  "source_ready d w \<longleftrightarrow>
     (snapshots_ready (d_client d) w \<and> snapshot_fits (w_service w)) \<or>
     bitmap_ready (d_serialize d) (d_deserialize d) (d_client d) w"

lemma full_membership_ready:
  assumes "source_ready d w"
  shows "\<exists>p w' ids. full_membership (d_serialize d) (d_deserialize d) (d_client d) w = (Inr p, w') \<and>
      collected (w_service w) ids p \<and> set ids = set (dict_keys (ms_members (w_service w))) \<and>
      client_ready (d_client d) w' \<and> service_view (w_service w') = service_view (w_service w)"
  using assms full_membership_pages [of "d_client d" w "d_serialize d" "d_deserialize d"]
    full_membership_bitmap [of "d_serialize d" "d_deserialize d" "d_client d" w]
  unfolding source_ready_def by (metis set_sort set_sorted_list_of_set List.finite_set)

section \<open>Bootstrap and sync mirror the source\<close>

definition same_log :: "mock_service \<Rightarrow> mock_service \<Rightarrow> bool" where
  \<comment> \<open>the same world behind the service, whatever its flags, failures and counters\<close>
  "same_log s t \<longleftrightarrow> ms_members s = ms_members t \<and> ms_events s = ms_events t \<and> ms_seq s = ms_seq t"

definition self_at :: "synchronizer \<Rightarrow> mock_service \<Rightarrow> bool" where
  \<comment> \<open>the synchronizer has committed the service's watermark and seen none but its events\<close>
  "self_at self s \<longleftrightarrow>
     sy_committed_watermark self = Some (mock_watermark s) \<and>
     sy_seen_event_ids self \<subseteq> ce_event_id ` set (ms_events s)"

definition store_at :: "('m \<Rightarrow> string \<Rightarrow> (int \<rightharpoonup> score)) \<Rightarrow> 'm sync_env \<Rightarrow> mock_service \<Rightarrow> bool" where
  \<comment> \<open>what is published for the context is the service's membership, scores included\<close>
  "store_at view e s \<longleftrightarrow> view (se_store e) (sy_context_id (se_self e)) = map_of (ms_members s)"

definition infrastructure_up :: "('m, 'g, 'p) sync_deps \<Rightarrow> ('m \<Rightarrow> string \<Rightarrow> (int \<rightharpoonup> score)) \<Rightarrow> 'm sync_env \<Rightarrow> bool" where
  \<comment> \<open>the store keeps its contract and does not fail, nor does the state database\<close>
  "infrastructure_up d view e \<longleftrightarrow>
     store_contract (d_store d) view \<and> store_up (d_store d) \<and> (se_repo e = None \<or> (\<forall>k. d_fault d k = None))"

lemma service_view_same_log: "service_view s = service_view t \<Longrightarrow> same_log s t"
  using service_view_eqD [of s t] by (simp add: same_log_def)

lemma same_log_wf: "same_log s t \<Longrightarrow> mock_wf s = mock_wf t"
  by (simp add: same_log_def mock_wf_def)

lemma same_log_watermark: "same_log s t \<Longrightarrow> mock_watermark s = mock_watermark t"
  by (simp add: same_log_def mock_watermark_def)

lemma same_log_trans: "same_log s t \<Longrightarrow> same_log t u \<Longrightarrow> same_log s u"
  by (simp add: same_log_def)

lemma self_at_same_log: "same_log s t \<Longrightarrow> self_at self s = self_at self t"
  by (simp add: self_at_def same_log_watermark) (simp add: same_log_def)

lemma now_run [simp]: "on_world now e = (Inr (w_clock (se_world e) (w_clock_reads (se_world e))),
    e\<lparr>se_world := (se_world e)\<lparr>w_clock_reads := w_clock_reads (se_world e) + 1\<rparr>\<rparr>)"
  by (simp add: on_world_def now_def)

lemma store_up_snapshot: "store_up api \<Longrightarrow> \<exists>x m'. publish_snapshot api c a m = (Inr x, m')"
  unfolding store_up_def by (metis prod.collapse sum.exhaust)

lemma store_up_delta: "store_up api \<Longrightarrow> \<exists>x m'. publish_delta api c a m = (Inr x, m')"
  unfolding store_up_def by (metis prod.collapse sum.exhaust)

lemma client_ready_clock_reads [simp]: "client_ready cl (w\<lparr>w_clock_reads := n\<rparr>) = client_ready cl w"
  by (simp add: client_ready_def client_able_def authorised_def fresh_def transient_failures_def cong: option.case_cong)

lemma bootstrap_ready:
  assumes infra: "infrastructure_up d view e" and src: "source_ready d (se_world e)"
    and seq: "ms_seq (w_service (se_world e)) < 10 ^ 11"
    and seen: "sy_seen_event_ids (se_self e) \<subseteq> ce_event_id ` set (ms_events (w_service (se_world e)))"
  shows "\<exists>x e'. bootstrap d e = (Inr x, e') \<and>
      self_at (se_self e') (w_service (se_world e)) \<and> store_at view e' (w_service (se_world e)) \<and>
      (\<forall>c. c \<noteq> sy_context_id (se_self e) \<longrightarrow> view (se_store e') c = view (se_store e) c) \<and>
      same_log (w_service (se_world e')) (w_service (se_world e)) \<and> client_ready (d_client d) (se_world e') \<and>
      ms_page_size (w_service (se_world e')) = ms_page_size (w_service (se_world e))"
proof -
  let ?s = "w_service (se_world e)" and ?c = "sy_context_id (se_self e)"
  from full_membership_ready [OF src] obtain p w' ids where
    full: "full_membership (d_serialize d) (d_deserialize d) (d_client d) (se_world e) = (Inr p, w')"
    and coll: "collected ?s ids p" and ids: "set ids = set (dict_keys (ms_members ?s))"
    and vw: "service_view (w_service w') = service_view ?s" and cr: "client_ready (d_client d) w'" by blast
  obtain t where t: "parse_iso (mock_data_as_of ?s) = Inr t" using data_as_of_parses [OF seq] by blast
  define a where "a = \<lparr>sa_members = ip_members p, sa_computed_at = w_clock w' (w_clock_reads w'), sa_data_as_of = t,
      sa_source_watermark = ip_watermark p, sa_scores = ip_scores p\<rparr>"
  have mem: "map_of (ip_scores p) i = map_of (ms_members ?s) i" "map_of (ms_members ?s) i \<noteq> None" if "i \<in> set ids" for i
    using coll that ids by (auto simp: collected_def map_of_eq_None_iff)
  have aok: "snapshot_ok a" using coll mem by (auto simp: snapshot_ok_def a_def collected_def)
  have "map_of (ms_members ?s) i = None" if "i \<notin> set ids" for i
    using that ids by (simp add: map_of_eq_None_iff)
  then have av: "snapshot_view a = map_of (ms_members ?s)"
    using coll mem by (auto simp: snapshot_view_def a_def collected_def fun_eq_iff restrict_map_def)
  obtain x m' where pub: "publish_snapshot (d_store d) ?c a (se_store e) = (Inr x, m')"
    using infra store_up_snapshot by (fastforce simp: infrastructure_up_def)
  have view: "view m' = (view (se_store e))(?c := map_of (ms_members ?s))"
    using publish_snapshot_publishes [of "d_store d" view a ?c "se_store e"] infra aok pub av
    by (simp add: infrastructure_up_def publishes_Inr)
  let ?e1 = "e\<lparr>se_world := w'\<lparr>w_clock_reads := w_clock_reads w' + 1\<rparr>, se_store := m'\<rparr>"
  obtain e' where adv: "commit_and_advance d ?c (ip_watermark p) [] ?e1 = (Inr (), e')"
    using commit_and_advance_ok [of ?e1 d ?c "ip_watermark p" "[]"] infra by (auto simp: infrastructure_up_def)
  note e' = commit_and_advance_Inr(1-3) [OF adv]
  have "parse_iso (ip_data_as_of p) = Inr t" using t coll by (simp add: collected_def)
  then have "bootstrap d e = (Inr x, e')"
    using full adv pub
    by (simp add: bootstrap_def bindP_run on_world_def [of "full_membership _ _ _"] on_store_def a_def [symmetric])
  then show ?thesis
    using e' view coll seen service_view_same_log [OF vw] cr service_view_eqD(4) [OF vw]
    by (simp add: self_at_def store_at_def advance_def collected_def)
qed

text \<open>
  C3: A bootstrap over a ready source and a working store returns, publishes exactly the
  service's current membership with its scores for the context and for no other, and commits
  the service's watermark; the service is read, not changed.
\<close>

theorem bootstrap_mirrors_source:
  assumes infra: "infrastructure_up d view e" and src: "source_ready d (se_world e)"
    and seq: "ms_seq (w_service (se_world e)) < 10 ^ 11"
    and seen: "sy_seen_event_ids (se_self e) \<subseteq> ce_event_id ` set (ms_events (w_service (se_world e)))"
  shows "\<exists>x e'. bootstrap d e = (Inr x, e') \<and>
      self_at (se_self e') (w_service (se_world e)) \<and> store_at view e' (w_service (se_world e)) \<and>
      (\<forall>c. c \<noteq> sy_context_id (se_self e) \<longrightarrow> view (se_store e') c = view (se_store e) c) \<and>
      same_log (w_service (se_world e')) (w_service (se_world e))"
  using bootstrap_ready [OF assms] by blast

text \<open>The events between two states of the world, and the feed a synchronizer that is behind reads.\<close>

lemma mutations_log:
  assumes "mutates\<^sup>*\<^sup>* s0 s1" and "mock_wf s0"
  shows "mock_wf s1" "take (ms_seq s0) (ms_events s1) = ms_events s0" "ms_seq s0 \<le> ms_seq s1"
    "map_of (ms_members s1) = replay (drop (ms_seq s0) (ms_events s1)) (map_of (ms_members s0))"
proof -
  from mutations_replay [OF assms] obtain es where wf: "mock_wf s1" and es: "ms_events s1 = ms_events s0 @ es"
    and m: "map_of (ms_members s1) = replay es (map_of (ms_members s0))" by blast
  have len: "length (ms_events s0) = ms_seq s0" "length (ms_events s1) = ms_seq s1"
    using wf assms(2) by (simp_all add: mock_wf_def)
  from len(2) es len(1) have "ms_seq s1 = ms_seq s0 + length es" by simp
  with wf es m len show "mock_wf s1" "take (ms_seq s0) (ms_events s1) = ms_events s0" "ms_seq s0 \<le> ms_seq s1"
    "map_of (ms_members s1) = replay (drop (ms_seq s0) (ms_events s1)) (map_of (ms_members s0))" by simp_all
qed

lemma watermark_of_last:
  assumes "mock_wf s" and "n < ms_seq s"
  shows "ce_watermark (last (drop n (ms_events s))) = mock_watermark s"
proof -
  have len: "length (ms_events s) = ms_seq s" using assms(1) by (simp add: mock_wf_def)
  with assms(2) have "last (drop n (ms_events s)) = ms_events s ! (ms_seq s - 1)"
    by (simp add: last_conv_nth)
  with log_watermark(4) [OF assms(1), of "ms_seq s - 1"] assms(2) show ?thesis by (simp add: mock_watermark_def)
qed

lemma apply_events_ready:
  assumes infra: "infrastructure_up d view e"
    and ordered: "sort_by_watermark A = Inr es" and f: "fold_events es = Inr f"
    and folds: "folds_from f (view (se_store e) (sy_context_id (se_self e))) cur"
    and das: "parse_iso das = Inr t"
  shows "\<exists>r e'. apply_events d A das dup ooo e = (Inr r, e') \<and>
      se_self e' = advance (ce_watermark (last es)) es (se_self e) \<and>
      view (se_store e') = (view (se_store e))(sy_context_id (se_self e) := cur) \<and>
      w_service (se_world e') = w_service (se_world e) \<and>
      client_ready (d_client d) (se_world e') = client_ready (d_client d) (se_world e) \<and>
      rp_committed_watermark r = ce_watermark (last es) \<and>
      rp_duplicates_skipped r = dup \<and> rp_out_of_order_rejected r = ooo"
proof -
  let ?c = "sy_context_id (se_self e)" and ?w = "se_world e" and ?wm = "ce_watermark (last es)"
  define a where "a = delta_of f (w_clock ?w (w_clock_reads ?w)) t ?wm"
  from folds have aok: "delta_ok a (view (se_store e) ?c)" and av: "delta_view a (view (se_store e) ?c) = cur"
    by (simp_all add: a_def folds_from_delta)
  obtain x m' where pub: "publish_delta (d_store d) ?c a (se_store e) = (Inr x, m')"
    using infra store_up_delta by (fastforce simp: infrastructure_up_def)
  have view: "view m' = (view (se_store e))(?c := cur)"
    using publish_delta_publishes [of "d_store d" view a "se_store e" ?c] infra aok pub av
    by (simp add: infrastructure_up_def publishes_Inr)
  let ?e1 = "e\<lparr>se_world := ?w\<lparr>w_clock_reads := w_clock_reads ?w + 1\<rparr>, se_store := m'\<rparr>"
  obtain e' where adv: "commit_and_advance d ?c ?wm es ?e1 = (Inr (), e')"
    using commit_and_advance_ok [of ?e1 d ?c ?wm es] infra by (auto simp: infrastructure_up_def)
  note e' = commit_and_advance_Inr(1-3) [OF adv]
  obtain r where "apply_events d A das dup ooo e = (Inr r, e')" "rp_committed_watermark r = ?wm"
    "rp_duplicates_skipped r = dup" "rp_out_of_order_rejected r = ooo"
    using ordered f adv pub das
    by (simp add: apply_events_def bindP_run on_store_def a_def [symmetric] Let_def)
  with e' view show ?thesis by auto
qed

lemma sync_once_ready:
  assumes infra: "infrastructure_up d view e" and ready: "client_ready (d_client d) (se_world e)"
    and wf: "mock_wf s0" and self: "self_at (se_self e) s0"
    and ahead: "mutates\<^sup>*\<^sup>* s0 s1" and store: "store_at view e s1"
    and now: "mutates\<^sup>*\<^sup>* s1 s2" and log: "same_log (w_service (se_world e)) s2"
    and feed: "feed_ok (drop (ms_seq s0) (ms_events s2)) (map_of (ms_members s0))"
    and fits: "feed_fits (w_service (se_world e)) (ms_seq s0)" and seq: "ms_seq s2 < 10 ^ 11"
  shows "\<exists>r e'. sync_once d e = (Inr r, e') \<and>
      self_at (se_self e') s2 \<and> store_at view e' s2 \<and>
      (\<forall>c. c \<noteq> sy_context_id (se_self e) \<longrightarrow> view (se_store e') c = view (se_store e) c) \<and>
      same_log (w_service (se_world e')) s2 \<and> rp_committed_watermark r = mock_watermark s2 \<and>
      (ms_seq s2 - ms_seq s0) + rp_duplicates_skipped r + rp_out_of_order_rejected r
        = length (pending_events (w_service (se_world e)) (int (ms_seq s0))) \<and> client_ready (d_client d) (se_world e') \<and>
      ms_page_size (w_service (se_world e')) = ms_page_size (w_service (se_world e))"
proof -
  let ?s = "w_service (se_world e)" and ?n = "ms_seq s0" and ?c = "sy_context_id (se_self e)"
  note log01 = mutations_log [OF ahead wf]
  note log12 = mutations_log [OF now log01(1)]
  note log02 = mutations_log [OF rtranclp_trans [OF ahead now] wf]
  have wfs: "mock_wf ?s" using same_log_wf [OF log] log02(1) by simp
  have evs: "ms_events ?s = ms_events s2" and sq: "ms_seq ?s = ms_seq s2" using log by (simp_all add: same_log_def)
  have com: "sy_committed_watermark (se_self e) = Some (watermark_text ?n)"
    using self by (simp add: self_at_def mock_watermark_def)
  have seen: "sy_seen_event_ids (se_self e) \<subseteq> ce_event_id ` set (take ?n (ms_events ?s))"
    using self by (simp add: self_at_def evs log02(2))
  obtain w' where fetch: "fetch_all_changes (d_client d) (watermark_text ?n) (se_world e) =
      (Inr (pending_events ?s (int ?n), mock_data_as_of ?s), w')"
    and vw: "service_view (w_service w') = service_view ?s" and cr: "client_ready (d_client d) w'"
    using fetch_all_changes_ready [OF ready fits] by blast
  have same: "same_log (w_service w') s2" using same_log_trans [OF service_view_same_log [OF vw] log] .
  obtain A dp k where flt: "filter_events (se_self e) (pending_events ?s (int ?n)) = Inr (A, dp, k)"
    and srt: "sort_by_watermark A = Inr (drop ?n (ms_events s2))"
    and cnt: "(ms_seq s2 - ?n) + dp + k = length (pending_events ?s (int ?n))" and A: "A = [] \<longleftrightarrow> ?n = ms_seq s2"
    using filter_events_pending [OF wfs _ com seen] log02(3) by (auto simp: evs sq)
  let ?e1 = "e\<lparr>se_world := w'\<rparr>"
  have start: "sync_once d e = (if A = [] then
        (Inr \<lparr>rp_applied_additions = 0, rp_applied_removals = 0, rp_applied_score_changes = 0,
          rp_duplicates_skipped = dp, rp_out_of_order_rejected = k, rp_committed_watermark = watermark_text ?n\<rparr>, ?e1)
      else apply_events d A (mock_data_as_of ?s) dp k ?e1)"
    using com fetch flt by (simp add: sync_once_def bindP_run on_world_def)
  show ?thesis
  proof (cases "A = []")
    case True
    then have n: "?n = ms_seq s2" using A by simp
    then have "ms_seq s1 = ms_seq s2" "ms_seq s0 = ms_seq s1" using log01(3) log12(3) by simp_all
    moreover have "length (ms_events s2) = ms_seq s2" using log02(1) by (simp add: mock_wf_def)
    ultimately have "map_of (ms_members s2) = map_of (ms_members s1)" "ms_events s2 = ms_events s0"
      using log12(4) log02(2) by simp_all
    with True start self store same n cnt cr service_view_eqD(4) [OF vw] show ?thesis
      by (simp add: self_at_def store_at_def mock_watermark_def)
  next
    case False
    let ?es = "drop ?n (ms_events s2)"
    from False A log02(3) have lt: "?n < ms_seq s2" by simp
    let ?es1 = "drop ?n (ms_events s1)"
    have "take (ms_seq s1) (ms_events s2) @ drop (ms_seq s1) (ms_events s2) = ms_events s2" by simp
    then have split: "?es = ?es1 @ drop (ms_seq s1) (ms_events s2)"
      using log12(2) log01(3) log01(1) by (metis drop_append mock_wf_def diff_is_0_eq drop0)
    obtain f where f: "fold_events ?es = Inr f"
      and ff: "folds_from f (replay ?es1 (map_of (ms_members s0))) (replay ?es (map_of (ms_members s0)))"
      using fold_events_ahead [of ?es1 "drop (ms_seq s1) (ms_events s2)" "map_of (ms_members s0)"] feed
      unfolding split by blast
    obtain t where t: "parse_iso (mock_data_as_of ?s) = Inr t" using data_as_of_parses [of ?s] seq sq by auto
    have infra1: "infrastructure_up d view ?e1" using infra by (simp add: infrastructure_up_def)
    have ff1: "folds_from f (view (se_store ?e1) (sy_context_id (se_self ?e1))) (map_of (ms_members s2))"
      using ff store by (simp add: store_at_def flip: log01(4) log02(4))
    obtain r e' where res: "apply_events d A (mock_data_as_of ?s) dp k ?e1 = (Inr r, e')"
      "se_self e' = advance (ce_watermark (last ?es)) ?es (se_self e)"
      "view (se_store e') = (view (se_store e))(?c := map_of (ms_members s2))"
      "w_service (se_world e') = w_service w'" "rp_committed_watermark r = ce_watermark (last ?es)"
      "rp_duplicates_skipped r = dp" "rp_out_of_order_rejected r = k" "client_ready (d_client d) (se_world e')"
      using cr apply_events_ready [OF infra1 srt f ff1 t, of dp k] by auto
    have "sy_seen_event_ids (se_self e) \<union> ce_event_id ` set ?es \<subseteq> ce_event_id ` set (ms_events s2)"
      using seen set_take_subset [of ?n "ms_events s2"] set_drop_subset [of ?n "ms_events s2"] by (auto simp: evs)
    with res False start watermark_of_last [OF log02(1) lt] same cnt cr service_view_eqD(4) [OF vw] show ?thesis
      by (simp add: self_at_def store_at_def advance_def same_log_def)
  qed
qed

text \<open>
  C2: Whatever mutations the source went through since the synchronizer's last commit, and
  whatever the delivery flags (duplicates, reversed order, redelivery from the start) and the
  page size, one sync leaves the published membership equal to the source's, as a clean
  rebuild would, and commits the source's watermark. The store may already be ahead of the
  synchronizer (a publication whose durable commit was lost): re-applying is harmless. Every
  delivered event is applied, skipped as a duplicate or rejected as stale.
  The feed is one where only entities outside are added, with a non-zero score.
\<close>

theorem sync_once_catches_up:
  assumes infra: "infrastructure_up d view e" and ready: "client_ready (d_client d) (se_world e)"
    and wf: "mock_wf s0" and self: "self_at (se_self e) s0"
    and ahead: "mutates\<^sup>*\<^sup>* s0 s1" and store: "store_at view e s1"
    and now: "mutates\<^sup>*\<^sup>* s1 s2" and log: "same_log (w_service (se_world e)) s2"
    and feed: "feed_ok (drop (ms_seq s0) (ms_events s2)) (map_of (ms_members s0))"
    and fits: "feed_fits (w_service (se_world e)) (ms_seq s0)" and seq: "ms_seq s2 < 10 ^ 11"
  shows "\<exists>r e'. sync_once d e = (Inr r, e') \<and>
      self_at (se_self e') s2 \<and> store_at view e' s2 \<and>
      (\<forall>c. c \<noteq> sy_context_id (se_self e) \<longrightarrow> view (se_store e') c = view (se_store e) c) \<and>
      same_log (w_service (se_world e')) s2 \<and> rp_committed_watermark r = mock_watermark s2 \<and>
      (ms_seq s2 - ms_seq s0) + rp_duplicates_skipped r + rp_out_of_order_rejected r
        = length (pending_events (w_service (se_world e)) (int (ms_seq s0)))"
  using sync_once_ready [OF assms] by blast

end
