(* ===== verification/Sync_Safety.thy ===== *)
theory Sync_Safety
  imports Sync_Correct
begin

text \<open>
  What holds of the synchronizer whatever goes wrong: nothing is committed ahead of its
  publication, a restart resumes where the process stopped, the number of requests is
  bounded, and a source that paginates forever is refused.
\<close>

section \<open>Nothing is committed ahead of its publication\<close>

lemma on_world_frame: "on_world op e = (r, e') \<Longrightarrow> se_self e' = se_self e \<and> se_store e' = se_store e \<and> se_repo e' = se_repo e"
  by (auto simp: on_world_def split: prod.splits)

lemma on_store_frame: "on_store op e = (r, e') \<Longrightarrow>
   se_self e' = se_self e \<and> se_repo e' = se_repo e \<and> se_world e' = se_world e \<and> op (se_store e) = (r, se_store e')"
  by (auto simp: on_store_def split: prod.splits)

lemma commit_and_advance_InrD: "commit_and_advance d c wm es e = (Inr u, e') \<Longrightarrow>
   se_self e' = advance wm es (se_self e) \<and> se_store e' = se_store e"
  using commit_and_advance_Inr(1,3) by blast

lemma delta_of_watermark [simp]: "da_source_watermark (delta_of f t u wm) = wm"
  by (simp add: delta_of_def)

lemma apply_events_outcome:
  "case apply_events d A das dup ooo e of
     (Inl x, e') \<Rightarrow> se_self e' = se_self e \<and> se_repo e' = se_repo e
   | (Inr r, e') \<Rightarrow> \<exists>a p. publish_delta (d_store d) (sy_context_id (se_self e)) a (se_store e) = (Inr p, se_store e') \<and>
       da_source_watermark a = rp_committed_watermark r \<and>
       sy_committed_watermark (se_self e') = Some (rp_committed_watermark r)"
proof -
  obtain out e' where run: "apply_events d A das dup ooo e = (out, e')" by fastforce
  show ?thesis
  proof (cases out)
    case (Inl x)
    with run have "se_self e' = se_self e \<and> se_repo e' = se_repo e"
      by (auto simp: apply_events_def Let_def elim!: bindP_InlD bindP_InrD
          dest!: on_store_frame commit_and_advance_Inl)
    with run Inl show ?thesis by simp
  next
    case (Inr r)
    with run show ?thesis
      by (auto simp: apply_events_def Let_def advance_def elim!: bindP_InrD
          dest!: on_store_frame commit_and_advance_InrD) (metis delta_of_watermark)
  qed
qed

text \<open>
  C4: A sync that raises leaves the synchronizer's watermark and seen events and the durable
  state as they were. One that returns either changed nothing but the world it read, or
  published a delta for this very watermark first: the watermark never gets ahead of the
  published snapshot.
\<close>

theorem watermark_follows_publication:
  "case sync_once d e of
     (Inl x, e') \<Rightarrow> se_self e' = se_self e \<and> se_repo e' = se_repo e
   | (Inr r, e') \<Rightarrow>
       (se_self e' = se_self e \<and> se_store e' = se_store e \<and> se_repo e' = se_repo e) \<or>
       (\<exists>a p. publish_delta (d_store d) (sy_context_id (se_self e)) a (se_store e) = (Inr p, se_store e') \<and>
          da_source_watermark a = rp_committed_watermark r \<and>
          sy_committed_watermark (se_self e') = Some (rp_committed_watermark r))"
proof (cases "sy_committed_watermark (se_self e)")
  case None
  then show ?thesis by (simp add: sync_once_def)
next
  case (Some wm)
  obtain fr e1 where f: "on_world (fetch_all_changes (d_client d) wm) e = (fr, e1)" by fastforce
  note frame = on_world_frame [OF f]
  show ?thesis
  proof (cases fr)
    case (Inl x)
    with f Some frame show ?thesis by (simp add: sync_once_def bindP_run)
  next
    case (Inr ed)
    obtain evs das where ed: "ed = (evs, das)" by fastforce
    show ?thesis
    proof (cases "filter_events (se_self e1) evs")
      case (Inl x)
      with f Inr Some ed frame show ?thesis by (simp add: sync_once_def bindP_run)
    next
      case (Inr adk)
      obtain A dp k where adk: "adk = (A, dp, k)" by (cases adk)
      have run: "sync_once d e = (if A = [] then
            (Inr \<lparr>rp_applied_additions = 0, rp_applied_removals = 0, rp_applied_score_changes = 0,
              rp_duplicates_skipped = dp, rp_out_of_order_rejected = k, rp_committed_watermark = wm\<rparr>, e1)
          else apply_events d A das dp k e1)"
        using f \<open>fr = Inr ed\<close> Some ed Inr adk by (simp add: sync_once_def bindP_run)
      show ?thesis
      proof (cases "A = []")
        case True
        with run frame show ?thesis by simp
      next
        case False
        with run apply_events_outcome [where d = d and A = A and das = das and dup = dp and ooo = k and e = e1] frame show ?thesis
          by (auto split: prod.splits sum.splits)
      qed
    qed
  qed
qed

section \<open>Restarts\<close>

datatype sync_op = Bootstrap | Sync_once

fun run_op :: "('m, 'g, 'p) sync_deps \<Rightarrow> sync_op \<Rightarrow> 'm sync_env \<Rightarrow> 'm sync_env" where
  \<comment> \<open>one call, whose exception the caller may catch\<close>
  "run_op d Bootstrap e = snd (bootstrap d e)"
| "run_op d Sync_once e = snd (sync_once d e)"

definition run_ops :: "('m, 'g, 'p) sync_deps \<Rightarrow> sync_op list \<Rightarrow> 'm sync_env \<Rightarrow> 'm sync_env" where
  "run_ops d ops e = fold (run_op d) ops e"

lemma durable_run_op: "durable c e \<Longrightarrow> durable c (run_op d op e)"
  using durable_bootstrap [of c d] durable_sync_once [of c d] by (cases op) (auto simp: keeps_def)

lemma durable_run_ops: "durable c e \<Longrightarrow> durable c (run_ops d ops e)"
  unfolding run_ops_def by (induction ops arbitrary: e) (auto simp: durable_run_op)

text \<open>
  C5: With a state repository, a process that stops after any sequence of bootstraps and
  syncs, successful or not, and whichever SQL statements failed, is resumed exactly: the
  synchronizer a restart builds from the database is the one that was in memory.
\<close>

theorem restart_resumes:
  "case se_repo (run_ops d ops \<lparr>se_self = synchronizer_init c repo, se_world = w, se_store = m, se_repo = repo\<rparr>) of
     None \<Rightarrow> True
   | Some db \<Rightarrow> synchronizer_init c (Some db) =
       se_self (run_ops d ops \<lparr>se_self = synchronizer_init c repo, se_world = w, se_store = m, se_repo = repo\<rparr>)"
  using durable_restart [OF durable_run_ops [OF durable_init]] by (auto split: option.splits)

section \<open>How many requests\<close>

definition calls :: "world \<Rightarrow> nat" where
  "calls w = ms_call_count (w_service w)"

lemma calls_simps [simp]:
  "calls (sleep q w) = calls w" "calls (w\<lparr>w_clock_reads := n\<rparr>) = calls w"
  by (simp_all add: calls_def sleep_def)

lemma calls_on_service: "(\<And>s. snd (op s) = after_call s) \<Longrightarrow> calls (snd (on_service op w)) = calls w + 1"
  by (auto simp: on_service_def calls_def split: prod.splits) (metis after_call_fields(6) snd_conv Suc_eq_plus1)

lemma calls_token_of: "calls (snd (token_of cl w)) = calls w"
  by (auto simp: token_of_def bindP_run split: option.splits sum.splits)

lemma calls_validate_freshness: "calls (snd (validate_freshness cl das w)) = calls w"
  by (auto simp: validate_freshness_def now_def bindP_run guardP_run Let_def split: option.splits sum.splits)

lemma calls_bindP:
  "calls (snd (m w)) \<le> calls w + j \<Longrightarrow> (\<And>x w'. calls (snd (f x w')) \<le> calls w' + k) \<Longrightarrow>
   calls (snd (bindP m f w)) \<le> calls w + (j + k)"
  by (auto simp: bindP_run split: prod.splits sum.splits) (metis (no_types, lifting) add.assoc add_le_mono1 le_trans snd_conv)

lemma calls_fetch_changes: "calls (snd (fetch_changes cl since cursor w)) \<le> calls w + (1 + nat (cl_max_retries cl))"
proof -
  have retry: "calls (snd (call_with_retry cl (on_service (changes since cursor token)) 0 w)) \<le> calls w + 1 + (nat (cl_max_retries cl) - 0)" for token w
    by (rule retry_bounded) (simp_all add: calls_on_service changes_state)
  have fresh: "calls (snd (bindP (validate_freshness cl das) (\<lambda>_. ret b) w)) \<le> calls w + (0 + 0)" for das b w
    by (rule calls_bindP) (simp_all add: calls_validate_freshness)
  have call: "calls (snd (bindP (call_with_retry cl (on_service (changes since cursor token)) 0) (\<lambda>batch.
      bindP (validate_freshness cl (cb_data_as_of batch)) (\<lambda>_. ret batch)) w)) \<le> calls w + ((1 + nat (cl_max_retries cl)) + 0)" for token w
    by (rule calls_bindP) (use retry fresh in \<open>simp_all add: add.commute\<close>)
  have "calls (snd (fetch_changes cl since cursor w)) \<le> calls w + (0 + ((1 + nat (cl_max_retries cl)) + 0))"
    unfolding fetch_changes_def by (rule calls_bindP [OF _ call]) (simp add: calls_token_of)
  then show ?thesis by simp
qed

text \<open>
  C6: However the source behaves, one sync makes at most \<open>MAX_PAGES\<close> page requests, each tried
  once and retried at most \<open>max_retries\<close> times.
\<close>

theorem sync_once_calls_bounded:
  "calls (se_world (snd (sync_once d e))) \<le>
     calls (se_world e) + (1 + nat (cl_max_retries (d_client d))) * MAX_PAGES"
proof (cases "sy_committed_watermark (se_self e)")
  case None
  then show ?thesis by (simp add: sync_once_def)
next
  case (Some wm)
  let ?cl = "d_client d"
  let ?bound = "calls (se_world e) + (1 + nat (cl_max_retries ?cl)) * MAX_PAGES"
  have pages: "calls (snd (fetch_all_changes ?cl wm w)) \<le> calls w + (1 + nat (cl_max_retries ?cl)) * (MAX_PAGES - 0)" for w
    unfolding fetch_all_changes_def by (rule page_loop_bounded) (rule calls_fetch_changes)
  have tail: "calls (se_world (snd (apply_events d A das dp k e1))) = calls (se_world e1)" for A das dp k e1
  proof -
    have "keeps (\<lambda>e. calls (se_world e) = n) (apply_events d A das dp k)" for n
    proof -
      have "keeps (\<lambda>e. calls (se_world e) = n) (commit_and_advance d c wm' es)" for c wm' es
        unfolding keeps_def
        by (metis commit_and_advance_Inl commit_and_advance_Inr(2) prod.collapse sum.exhaust)
      moreover have "keeps (\<lambda>e. calls (se_world e) = n) (on_world now)"
        and "keeps (\<lambda>e. calls (se_world e) = n) (on_store op)" for op
        by (auto simp: keeps_def on_store_def split: prod.splits)
      ultimately show ?thesis unfolding apply_events_def Let_def by (intro keeps_rules) auto
    qed
    then show ?thesis by (auto simp: keeps_def)
  qed
  obtain fr e1 where f: "on_world (fetch_all_changes ?cl wm) e = (fr, e1)" by fastforce
  have e1: "calls (se_world e1) \<le> ?bound"
    using f pages [of "se_world e"] by (auto simp: on_world_def split: prod.splits)
  have "keeps (\<lambda>e. calls (se_world e) \<le> ?bound) (bindP (readP se_self) (\<lambda>self.
         bindP (liftE (filter_events self events)) (\<lambda>(applicable, duplicates, out_of_order).
         if applicable = [] then
           ret \<lparr>rp_applied_additions = 0, rp_applied_removals = 0, rp_applied_score_changes = 0,
                rp_duplicates_skipped = duplicates, rp_out_of_order_rejected = out_of_order,
                rp_committed_watermark = wm\<rparr>
         else apply_events d applicable das duplicates out_of_order)))" for events das
    by (intro keeps_rules) (simp add: keeps_def tail)
  with f e1 Some show ?thesis
    by (cases fr) (auto simp: sync_once_def bindP_run keeps_def split: prod.splits)
qed

section \<open>A source that never ends\<close>

text \<open>
  C7: A change feed whose cursor never ends, here that of a service whose page size makes no
  progress, is refused as a contract violation after \<open>MAX_PAGES\<close> pages; nothing is applied.
\<close>

theorem endless_feed_refused:
  assumes able: "client_able (d_client d) (se_world e)" and stuck: "ms_page_size (w_service (se_world e)) \<le> 0"
    and pend: "pending_events (w_service (se_world e)) n \<noteq> []"
    and com: "sy_committed_watermark (se_self e) = Some wm" and n: "py_int wm = Some n"
  shows "fst (sync_once d e) = Inl (too_many_pages ''Change-feed'') \<and>
      is_contract_error (too_many_pages ''Change-feed'') \<and>
      se_self (snd (sync_once d e)) = se_self e \<and> se_store (snd (sync_once d e)) = se_store e"
proof -
  let ?cl = "d_client d" and ?L = "pending_events (w_service (se_world e)) n"
  let ?I = "\<lambda>cursor w. client_able ?cl w \<and> service_view (w_service w) = service_view (w_service (se_world e)) \<and>
      (\<exists>k \<le> 0. parse_cursor cursor = Inr k)"
  have step: "\<exists>page w' c'. fetch_changes ?cl wm cursor w = (Inr page, w') \<and> cb_next_cursor page = Some c' \<and> ?I (Some c') w'"
    if "?I cursor w" for cursor w
  proof -
    from that obtain k where k: "k \<le> 0" "parse_cursor cursor = Inr k" and ab: "client_able ?cl w"
      and vw: "service_view (w_service w) = service_view (w_service (se_world e))" by blast
    note eqs = service_view_eqD [OF vw]
    have less: "k + ms_page_size (w_service w) < int (length (pending_events (w_service w) n))"
      using k(1) stuck pend by (simp add: eqs(4) eqs(9)) (metis add_nonpos_nonpos le_less_trans length_greater_0_conv of_nat_0_less_iff)
    then have nxt: "cb_next_cursor (change_page (w_service w) n k) = Some (show_int (k + ms_page_size (w_service w)))"
      by (simp add: change_page_def next_cursor_after_def)
    have "k + ms_page_size (w_service w) \<le> 0" using k(1) stuck eqs(4) by simp
    with fetch_changes_ready [OF ab n k(2)] client_able_after_request [OF ab] vw nxt
    show ?thesis by (auto simp: parse_cursor_def)
  qed
  have init: "?I None (se_world e)" using able by (simp add: parse_cursor_def)
  have "fst (fetch_all_changes ?cl wm (se_world e)) = Inl (too_many_pages ''Change-feed'')"
    unfolding fetch_all_changes_def by (rule page_loop_endless [where I = ?I, OF step init])
  then obtain w' where "fetch_all_changes ?cl wm (se_world e) = (Inl (too_many_pages ''Change-feed''), w')"
    by (metis prod.collapse)
  then show ?thesis using com by (simp add: sync_once_def bindP_run on_world_def too_many_pages_def)
qed

end
