(* ===== verification/Sync_Runs.thy ===== *)
theory Sync_Runs
  imports Sync_Safety
begin

text \<open>
  Whole runs of the connector: after a bootstrap, any interleaving of mutations of the source,
  changes of its delivery flags, restarts of the synchronizer and incremental syncs. The abstract
  specification of a run is a membership map that only the mutations change; a sync at any point
  makes the published membership that map.
\<close>

section \<open>Steps\<close>

datatype world_op = AddMember int score | RemoveMember int | ChangeScore int score

fun run_op :: "world_op \<Rightarrow> (ds_exc, mock_service, change_event) prog" where
  "run_op (AddMember i q) = add_member i q"
| "run_op (RemoveMember i) = remove_member i"
| "run_op (ChangeScore i q) = change_score i q"

datatype run_step =
    Mutate world_op
  | Deliver bool bool bool   \<comment> \<open>duplicates, reversed order, redelivery from the start\<close>
  | Restart                  \<comment> \<open>a new synchronizer on the same state repository\<close>
  | Sync

fun do_step :: "('m, 'g, 'p) sync_deps \<Rightarrow> run_step \<Rightarrow> (ds_exc, 'm sync_env, unit) prog" where
  "do_step d (Mutate op) = bindP (on_world (on_service (run_op op))) (\<lambda>_. ret ())"
| "do_step d (Deliver dup rv again) =
     on_world (on_service (modP (\<lambda>s. s\<lparr>ms_duplicate_delivery := dup, ms_out_of_order := rv, ms_redeliver_from_start := again\<rparr>)))"
| "do_step d Restart = modP (\<lambda>e. e\<lparr>se_self := synchronizer_init (sy_context_id (se_self e)) (se_repo e)\<rparr>)"
| "do_step d Sync = bindP (sync_once d) (\<lambda>_. ret ())"

fun run_steps :: "('m, 'g, 'p) sync_deps \<Rightarrow> run_step list \<Rightarrow> 'm sync_env \<Rightarrow> 'm sync_env" where
  \<comment> \<open>an operation that raises, as a score change of an unknown entity does, does not end the run\<close>
  "run_steps d [] e = e"
| "run_steps d (x # xs) e = run_steps d xs (snd (do_step d x e))"

section \<open>The specification\<close>

type_synonym membership = "int \<rightharpoonup> score"

fun member_op :: "world_op \<Rightarrow> membership \<Rightarrow> membership" where
  "member_op (AddMember i q) m = m(i \<mapsto> q)"
| "member_op (RemoveMember i) m = m(i := None)"
| "member_op (ChangeScore i q) m = (if m i = None then m else m(i \<mapsto> q))"

fun op_ok :: "world_op \<Rightarrow> membership \<Rightarrow> bool" where
  \<comment> \<open>an addition is of an entity outside, with a score that is not falsy\<close>
  "op_ok (AddMember i q) m \<longleftrightarrow> m i = None \<and> q \<noteq> 0"
| "op_ok (RemoveMember i) m = True"
| "op_ok (ChangeScore i q) m = True"

fun member_step :: "run_step \<Rightarrow> membership \<Rightarrow> membership" where
  "member_step (Mutate op) m = member_op op m"
| "member_step (Deliver dup rv again) m = m"
| "member_step Restart m = m"
| "member_step Sync m = m"

fun step_ok :: "run_step \<Rightarrow> membership \<Rightarrow> bool" where
  "step_ok (Mutate op) m = op_ok op m"
| "step_ok (Deliver dup rv again) m = True"
| "step_ok Restart m = True"
| "step_ok Sync m = True"

fun steps_ok :: "run_step list \<Rightarrow> membership \<Rightarrow> bool" where
  "steps_ok [] m = True"
| "steps_ok (x # xs) m \<longleftrightarrow> step_ok x m \<and> steps_ok xs (member_step x m)"

definition members_after :: "run_step list \<Rightarrow> membership \<Rightarrow> membership" where
  "members_after xs m = fold member_step xs m"

lemma members_after_simps [simp]: "members_after [] m = m" "members_after (x # xs) m = members_after xs (member_step x m)"
  by (simp_all add: members_after_def)

section \<open>A mutation, on the service and on the specification\<close>

text \<open>The settings of the service that a run leaves alone, the page size apart.\<close>

definition same_terms :: "mock_service \<Rightarrow> mock_service \<Rightarrow> bool" where
  "same_terms s t \<longleftrightarrow> ms_page_size s = ms_page_size t \<and> ms_require_auth s = ms_require_auth t \<and> ms_failures s = ms_failures t"

lemma run_op_step:
  assumes wf: "mock_wf s" and log: "same_log t s" and ok: "op_ok op (map_of (ms_members s))"
  obtains s' es where "mutates\<^sup>*\<^sup>* s s'" "same_log (snd (run_op op t)) s'" "same_terms (snd (run_op op t)) t"
    "map_of (ms_members s') = member_op op (map_of (ms_members s))"
    "ms_events s' = ms_events s @ es" "feed_ok es (map_of (ms_members s))" "ms_seq s' \<le> ms_seq s + 1"
proof (cases op)
  case (AddMember i q)
  show ?thesis
  proof (rule that)
    show "mutates\<^sup>*\<^sup>* s (snd (add_member i q s))"
      by (rule r_into_rtranclp, rule mutates.adds [of i q]) (simp add: add_member_run Let_def)
    show "ms_events (snd (add_member i q s)) = ms_events s @ [new_event s i CHANGE_TYPE_ADDED (Some q)]"
      by (simp add: add_member_run Let_def)
  qed (use AddMember log ok in \<open>auto simp: add_member_run Let_def same_log_def same_terms_def update_conv' event_ok_def new_event_def\<close>)
next
  case (RemoveMember i)
  show ?thesis
  proof (rule that)
    show "mutates\<^sup>*\<^sup>* s (snd (remove_member i s))"
      by (rule r_into_rtranclp, rule mutates.removes [of i]) (simp add: remove_member_run Let_def)
    show "ms_events (snd (remove_member i s)) = ms_events s @ [new_event s i CHANGE_TYPE_REMOVED None]"
      by (simp add: remove_member_run Let_def)
  qed (use RemoveMember log in \<open>auto simp: remove_member_run Let_def same_log_def same_terms_def delete_conv' event_ok_def new_event_def
      CHANGE_TYPE_ADDED_def CHANGE_TYPE_REMOVED_def\<close>)
next
  case (ChangeScore i q)
  show ?thesis
  proof (cases "dict_get (ms_members s) i")
    case None
    with log have "dict_get (ms_members t) i = None" by (simp add: same_log_def)
    then have t: "snd (change_score i q t) = t" using change_score_missing [of t i q] by auto
    show ?thesis
      by (rule that [of s "[]"]) (use ChangeScore None log t in \<open>auto simp: same_terms_def\<close>)
  next
    case (Some q0)
    with log have t: "dict_get (ms_members t) i = Some q0" by (simp add: same_log_def)
    show ?thesis
    proof (rule that)
      show "mutates\<^sup>*\<^sup>* s (snd (change_score i q s))"
        by (rule r_into_rtranclp, rule mutates.rescores [of i q]) (simp add: change_score_run [OF Some] Let_def)
      show "ms_events (snd (change_score i q s)) = ms_events s @ [new_event s i CHANGE_TYPE_SCORE_CHANGED (Some q)]"
        by (simp add: change_score_run [OF Some] Let_def)
    qed (use ChangeScore log Some t in \<open>auto simp: change_score_run Let_def same_log_def same_terms_def update_conv' event_ok_def
        new_event_def CHANGE_TYPE_ADDED_def CHANGE_TYPE_REMOVED_def CHANGE_TYPE_SCORE_CHANGED_def\<close>)
  qed
qed

section \<open>What a run maintains\<close>

definition has_repo :: "'m sync_env \<Rightarrow> bool" where
  "has_repo e \<longleftrightarrow> se_repo e \<noteq> None"

lemma keeps_has_repo [keeps_rules]:
  "keeps has_repo (on_world op)" "keeps has_repo (on_store op')" "keeps has_repo (commit_and_advance d c wm es)"
  by (auto simp: keeps_def has_repo_def on_world_def on_store_def commit_and_advance_def commit_state_def bindP_run
      split: prod.splits option.splits sum.splits)

lemma has_repo_sync_once: "keeps has_repo (sync_once d)" and has_repo_bootstrap: "keeps has_repo (bootstrap d)"
  unfolding sync_once_def bootstrap_def apply_events_def Let_def by (intro keeps_rules)+

text \<open>
  The synchronizer of context \<open>c\<close> has published and committed an earlier state of the source, from
  which well-formed mutations lead to the present one, whose membership is \<open>m\<close> and which has
  recorded at most \<open>k\<close> events; it can reach the service, and what it holds in memory is on disk if there is
  a state repository, as there must be for a restart (\<open>rst\<close>).
\<close>

definition tracking ::
  "bool \<Rightarrow> ('m, 'g, 'p) sync_deps \<Rightarrow> ('m \<Rightarrow> string \<Rightarrow> membership) \<Rightarrow> string \<Rightarrow> int \<Rightarrow> nat \<Rightarrow> 'm sync_env \<Rightarrow> membership \<Rightarrow> bool" where
  "tracking rst d view c psz k e m \<longleftrightarrow>
     (\<exists>s0 s2. mock_wf s0 \<and> self_at (se_self e) s0 \<and> store_at view e s0 \<and> mutates\<^sup>*\<^sup>* s0 s2 \<and>
        same_log (w_service (se_world e)) s2 \<and> feed_ok (drop (ms_seq s0) (ms_events s2)) (map_of (ms_members s0)) \<and>
        map_of (ms_members s2) = m \<and> ms_seq s2 \<le> k) \<and>
     client_ready (d_client d) (se_world e) \<and> ms_page_size (w_service (se_world e)) = psz \<and> durable c e \<and> (rst \<longrightarrow> has_repo e)"

definition healthy :: "('m, 'g, 'p) sync_deps \<Rightarrow> ('m \<Rightarrow> string \<Rightarrow> membership) \<Rightarrow> bool" where
  \<comment> \<open>the store keeps its contract and works, the state database works, and no freshness bound is set\<close>
  "healthy d view \<longleftrightarrow>
     store_contract (d_store d) view \<and> store_up (d_store d) \<and> (\<forall>k. d_fault d k = None) \<and> cl_max_data_age (d_client d) = None"

lemma healthy_infrastructure: "healthy d view \<Longrightarrow> infrastructure_up d view e"
  by (simp add: healthy_def infrastructure_up_def)

lemma client_ready_same_terms:
  assumes "client_ready cl w" and "same_terms s (w_service w)" and "cl_max_data_age cl = None"
  shows "client_ready cl (w\<lparr>w_service := s\<rparr>)"
  using assms
  by (simp add: client_ready_def client_able_def authorised_def fresh_def transient_failures_def queued_failures_def same_terms_def
      cong: option.case_cong)

lemma length_pending: "length (pending_events s n) \<le> 2 * length (ms_events s)"
proof -
  have dup: "length (concat (map (\<lambda>e. [e, e]) xs)) = 2 * length xs" for xs :: "change_event list"
    by (induction xs) simp_all
  have le: "length (filter P xs) \<le> 2 * length xs" for P and xs :: "change_event list"
    using length_filter_le [of P xs] by linarith
  show ?thesis by (auto simp: pending_events_def Let_def dup le)
qed

lemma feed_fits_events:
  assumes "0 < ms_page_size s" and "2 * int (length (ms_events s)) < int MAX_PAGES * ms_page_size s"
  shows "feed_fits s n"
proof -
  let ?p = "nat (ms_page_size s)" and ?l = "length (pending_events s (int n))"
  have p: "int ?p = ms_page_size s" "0 < ?p" using assms(1) by simp_all
  have "int ?l < int (MAX_PAGES * ?p)" using assms(2) length_pending [of s "int n"] p(1) by simp
  then have "?l < MAX_PAGES * ?p" unfolding of_nat_less_iff .
  then have "?l div ?p < MAX_PAGES" by (rule less_mult_imp_div_less)
  with length_page_offsets [OF p(2), of ?l 0] show ?thesis by (simp add: feed_fits_def)
qed

lemma tracking_mutate:
  assumes t: "tracking rst d view c psz k e m" and ok: "op_ok op m" and h: "healthy d view"
  shows "tracking rst d view c psz (Suc k) (snd (do_step d (Mutate op) e)) (member_op op m)"
proof -
  let ?s = "w_service (se_world e)" and ?s' = "snd (run_op op (w_service (se_world e)))"
  from t obtain s0 s2 where wf: "mock_wf s0" and self: "self_at (se_self e) s0" and store: "store_at view e s0"
    and mut: "mutates\<^sup>*\<^sup>* s0 s2" and log: "same_log ?s s2"
    and feed: "feed_ok (drop (ms_seq s0) (ms_events s2)) (map_of (ms_members s0))"
    and m: "map_of (ms_members s2) = m" and k: "ms_seq s2 \<le> k" and cr: "client_ready (d_client d) (se_world e)"
    and rest: "ms_page_size ?s = psz" "durable c e" "rst \<longrightarrow> has_repo e"
    unfolding tracking_def by blast
  note L = mutations_log [OF mut wf]
  from run_op_step [OF L(1) log ok [folded m]] obtain s' es where s': "mutates\<^sup>*\<^sup>* s2 s'" "same_log ?s' s'" "same_terms ?s' ?s"
    "map_of (ms_members s') = member_op op m" "ms_events s' = ms_events s2 @ es" "feed_ok es m" "ms_seq s' \<le> ms_seq s2 + 1"
    unfolding m by blast
  have "length (ms_events s2) = ms_seq s2" using L(1) by (simp add: mock_wf_def)
  with L(3) s'(5) have "drop (ms_seq s0) (ms_events s') = drop (ms_seq s0) (ms_events s2) @ es" by simp
  with feed s'(6) L(4) m have feed': "feed_ok (drop (ms_seq s0) (ms_events s')) (map_of (ms_members s0))"
    by (simp add: feed_ok_append)
  have e': "snd (do_step d (Mutate op) e) = e\<lparr>se_world := (se_world e)\<lparr>w_service := ?s'\<rparr>\<rparr>"
    by (simp add: bindP_run on_world_def on_service_def split: prod.split sum.split)
  have ready: "client_ready (d_client d) ((se_world e)\<lparr>w_service := ?s'\<rparr>)"
    using client_ready_same_terms [OF cr s'(3)] h by (simp add: healthy_def)
  show ?thesis
    unfolding tracking_def e'
  proof (intro conjI exI)
    show "mutates\<^sup>*\<^sup>* s0 s'" using mut s'(1) by simp
  qed (use wf self store s' k feed' rest ready in \<open>auto simp: store_at_def durable_def has_repo_def same_terms_def\<close>)
qed

lemma tracking_deliver:
  assumes t: "tracking rst d view c psz k e m" and h: "healthy d view"
  shows "tracking rst d view c psz k (snd (do_step d (Deliver dup rv again) e)) m"
proof -
  let ?s = "(w_service (se_world e))\<lparr>ms_duplicate_delivery := dup, ms_out_of_order := rv, ms_redeliver_from_start := again\<rparr>"
  have "client_ready (d_client d) ((se_world e)\<lparr>w_service := ?s\<rparr>)"
    using t h by (intro client_ready_same_terms) (simp_all add: tracking_def healthy_def same_terms_def)
  moreover have "same_log ?s s2 = same_log (w_service (se_world e)) s2" for s2 by (simp add: same_log_def)
  moreover have "snd (do_step d (Deliver dup rv again) e) = e\<lparr>se_world := (se_world e)\<lparr>w_service := ?s\<rparr>\<rparr>"
    by (simp add: on_world_def on_service_def)
  ultimately show ?thesis
    using t unfolding tracking_def by (simp add: store_at_def durable_def has_repo_def) blast
qed

lemma tracking_restart:
  assumes "tracking rst d view c psz k e m" and rst
  shows "tracking rst d view c psz k (snd (do_step d Restart e)) m"
proof -
  obtain db where "se_repo e = Some db" using assms by (auto simp: tracking_def has_repo_def)
  with assms have "e\<lparr>se_self := synchronizer_init (sy_context_id (se_self e)) (se_repo e)\<rparr> = e"
    using durable_restart [of c e db] by (simp add: tracking_def durable_def)
  with assms show ?thesis by simp
qed

lemma tracking_sync:
  assumes t: "tracking rst d view c psz k e m" and h: "healthy d view"
    and fits: "2 * int k < int MAX_PAGES * psz" and few: "k < 10 ^ 11"
  shows "\<exists>r e'. sync_once d e = (Inr r, e') \<and> tracking rst d view c psz k e' m \<and> view (se_store e') c = m \<and>
    sy_committed_watermark (se_self e') = Some (mock_watermark (w_service (se_world e)))"
proof -
  let ?s = "w_service (se_world e)"
  from t obtain s0 s2 where wf: "mock_wf s0" and self: "self_at (se_self e) s0" and store: "store_at view e s0"
    and mut: "mutates\<^sup>*\<^sup>* s0 s2" and log: "same_log ?s s2"
    and feed: "feed_ok (drop (ms_seq s0) (ms_events s2)) (map_of (ms_members s0))"
    and m: "map_of (ms_members s2) = m" and k: "ms_seq s2 \<le> k" and cr: "client_ready (d_client d) (se_world e)"
    and rest: "ms_page_size ?s = psz" "durable c e" "rst \<longrightarrow> has_repo e"
    unfolding tracking_def by blast
  note L = mutations_log [OF mut wf]
  have "length (ms_events ?s) \<le> k" using log L(1) k by (simp add: same_log_def mock_wf_def)
  with fits rest(1) client_readyD(5) [OF cr] have ff: "feed_fits ?s (ms_seq s0)"
    by (intro feed_fits_events) auto
  from k few have "ms_seq s2 < 10 ^ 11" by simp
  from sync_once_ready [OF healthy_infrastructure [OF h] cr wf self rtranclp.rtrancl_refl store mut log feed ff this]
  obtain r e' where e': "sync_once d e = (Inr r, e')" "self_at (se_self e') s2" "store_at view e' s2"
    "same_log (w_service (se_world e')) s2" "client_ready (d_client d) (se_world e')" "ms_page_size (w_service (se_world e')) = psz"
    using rest(1) by auto
  have dur: "durable c e'" using keepsD [OF durable_sync_once rest(2) e'(1)] .
  have repo: "rst \<longrightarrow> has_repo e'" using keepsD [OF has_repo_sync_once _ e'(1)] rest(3) by blast
  have "tracking rst d view c psz k e' m"
    unfolding tracking_def
  proof (intro conjI exI)
    show "mutates\<^sup>*\<^sup>* s2 s2" by simp
    show "feed_ok (drop (ms_seq s2) (ms_events s2)) (map_of (ms_members s2))" using L(1) by (simp add: mock_wf_def)
  qed (use L(1) e' m k dur repo in simp_all)
  moreover have "view (se_store e') c = m" using e'(3) m dur by (simp add: store_at_def durable_def)
  moreover have "sy_committed_watermark (se_self e') = Some (mock_watermark ?s)"
    using e'(2) same_log_watermark [OF log] by (simp add: self_at_def)
  ultimately show ?thesis using e'(1) by blast
qed

lemma tracking_more: "tracking rst d view c psz k e m \<Longrightarrow> k \<le> k' \<Longrightarrow> tracking rst d view c psz k' e m"
  unfolding tracking_def by (elim conjE exE, intro conjI exI) (assumption | erule (1) le_trans)+

lemma tracking_steps:
  assumes "tracking rst d view c psz k e m" and "steps_ok xs m" and "healthy d view"
    and "2 * int (k + length xs) < int MAX_PAGES * psz" and "k + length xs < 10 ^ 11" and "Restart \<in> set xs \<longrightarrow> rst"
  shows "tracking rst d view c psz (k + length xs) (run_steps d xs e) (members_after xs m)"
  using assms
proof (induction xs arbitrary: k e m)
  case (Cons x xs)
  have "tracking rst d view c psz (Suc k) (snd (do_step d x e)) (member_step x m)"
  proof (cases x)
    case (Mutate op)
    with Cons.prems tracking_mutate show ?thesis by (metis member_step.simps(1) step_ok.simps(1) steps_ok.simps(2))
  next
    case (Deliver dup rv again)
    with tracking_more [OF tracking_deliver [OF Cons.prems(1,3), of dup rv again]] show ?thesis
      by (simp del: do_step.simps)
  next
    case Restart
    with Cons.prems(6) have rst by simp
    with Restart tracking_more [OF tracking_restart [OF Cons.prems(1)]] show ?thesis by (simp del: do_step.simps)
  next
    case Sync
    from Cons.prems(4,5) have "2 * int k < int MAX_PAGES * psz" "k < 10 ^ 11" by simp_all
    from tracking_sync [OF Cons.prems(1,3) this] obtain r e' where "sync_once d e = (Inr r, e')" "tracking rst d view c psz k e' m" by blast
    with Sync tracking_more [of rst d view c psz k e' m "Suc k"] show ?thesis by (simp add: bindP_run)
  qed
  from Cons.IH [OF this] Cons.prems(2-6) show ?case by simp
qed simp

lemma tracking_bootstrap:
  assumes h: "healthy d view" and src: "source_ready d (se_world e)" and wf: "mock_wf (w_service (se_world e))"
    and seen: "sy_seen_event_ids (se_self e) \<subseteq> ce_event_id ` set (ms_events (w_service (se_world e)))"
    and dur: "durable c e" and repo: "rst \<longrightarrow> has_repo e" and few: "ms_seq (w_service (se_world e)) < 10 ^ 11"
  shows "\<exists>x e'. bootstrap d e = (Inr x, e') \<and>
    view (se_store e') c = map_of (ms_members (w_service (se_world e))) \<and>
    tracking rst d view c (ms_page_size (w_service (se_world e))) (ms_seq (w_service (se_world e))) e'
      (map_of (ms_members (w_service (se_world e))))"
proof -
  let ?s = "w_service (se_world e)"
  obtain x e' where e': "bootstrap d e = (Inr x, e')" "self_at (se_self e') ?s" "store_at view e' ?s"
    "same_log (w_service (se_world e')) ?s" "client_ready (d_client d) (se_world e')"
    "ms_page_size (w_service (se_world e')) = ms_page_size ?s"
    using bootstrap_ready [OF healthy_infrastructure [OF h] src few seen] by blast
  have "durable c e'" "rst \<longrightarrow> has_repo e'"
    using keepsD [OF durable_bootstrap dur e'(1)] keepsD [OF has_repo_bootstrap _ e'(1)] repo by blast+
  moreover from this have "tracking rst d view c (ms_page_size ?s) (ms_seq ?s) e' (map_of (ms_members ?s))"
    unfolding tracking_def
  proof (intro conjI exI)
    show "mutates\<^sup>*\<^sup>* ?s ?s" by simp
    show "feed_ok (drop (ms_seq ?s) (ms_events ?s)) (map_of (ms_members ?s))" using wf by (simp add: mock_wf_def)
  qed (use wf e' in simp_all)
  ultimately show ?thesis using e'(1,3) by (auto simp: store_at_def durable_def)
qed

lemma run_mirrors:
  assumes "healthy d view" and "source_ready d (se_world e)" and "mock_wf (w_service (se_world e))"
    and "sy_seen_event_ids (se_self e) \<subseteq> ce_event_id ` set (ms_events (w_service (se_world e)))"
    and "durable c e" and rst: "Restart \<in> set xs \<longrightarrow> has_repo e"
    and ok: "steps_ok xs (map_of (ms_members (w_service (se_world e))))"
    and fits: "2 * int (ms_seq (w_service (se_world e)) + length xs) < int MAX_PAGES * ms_page_size (w_service (se_world e))"
    and few: "ms_seq (w_service (se_world e)) + length xs < 10 ^ 11"
  shows "\<exists>x e1. bootstrap d e = (Inr x, e1) \<and>
    view (se_store e1) c = map_of (ms_members (w_service (se_world e))) \<and>
    (let e2 = run_steps d xs e1
     in map_of (ms_members (w_service (se_world e2))) = members_after xs (map_of (ms_members (w_service (se_world e)))) \<and>
        (\<exists>r e3. sync_once d e2 = (Inr r, e3) \<and>
           view (se_store e3) c = members_after xs (map_of (ms_members (w_service (se_world e)))) \<and>
           sy_committed_watermark (se_self e3) = Some (mock_watermark (w_service (se_world e2)))))"
proof -
  let ?s = "w_service (se_world e)" and ?k = "ms_seq (w_service (se_world e)) + length xs"
  have "ms_seq ?s < 10 ^ 11" using few by simp
  from tracking_bootstrap [OF assms(1-6) this] obtain x e1 where e1: "bootstrap d e = (Inr x, e1)"
    "view (se_store e1) c = map_of (ms_members ?s)" "tracking (Restart \<in> set xs) d view c (ms_page_size ?s) (ms_seq ?s) e1 (map_of (ms_members ?s))"
    by blast
  have t: "tracking (Restart \<in> set xs) d view c (ms_page_size ?s) ?k (run_steps d xs e1) (members_after xs (map_of (ms_members ?s)))"
    using tracking_steps [OF e1(3) ok assms(1) fits few] by simp
  from t have "map_of (ms_members (w_service (se_world (run_steps d xs e1)))) = members_after xs (map_of (ms_members ?s))"
    unfolding tracking_def by (auto simp: same_log_def)
  with e1 tracking_sync [OF t assms(1) fits few] show ?thesis by (auto simp: Let_def)
qed


end
