(* ===== verification/DeepSee_Providers.thy ===== *)
theory DeepSee_Providers
  imports Snapshot_Pages
begin

text \<open>
  The engine-facing providers: membership with scores (\<open>mcp_provider.py\<close>), relational
  evidence (\<open>remote_provider.py\<close>), and the two mock providers (\<open>app/providers/mock.py\<close>).
  \<open>MCPResult\<close> and \<open>RemoteResult\<close> belong to contextql; the records hold the fields the code sets.
\<close>

section \<open>MCP provider\<close>

definition DEFAULT_BITMAP_THRESHOLD :: int where "DEFAULT_BITMAP_THRESHOLD = 1000"

record mcp_result =
  mr_entity_type :: string
  mr_entity_ids :: "int list option"
  mr_membership_bitmap :: "string option"
  mr_bitmap_encoding :: "string option"
  mr_scores :: "(int, score) dict"
  mr_entity_key_type :: string
  mr_data_as_of :: string
  mr_source_watermark :: string
  mr_evidence_refs :: "(int, string) dict"

record mcp_pages =
  mp_core :: id_pages  \<comment> \<open>ids, scores, freshness and watermark, collected as the synchronizer does\<close>
  mp_evidence_refs :: "(int, string) dict"

definition first_mcp_page :: "snapshot_page \<Rightarrow> mcp_pages" where
  "first_mcp_page p = \<lparr>mp_core = first_id_page p, mp_evidence_refs = sp_evidence_refs p\<rparr>"

definition add_mcp_page :: "mcp_pages \<Rightarrow> snapshot_page \<Rightarrow> mcp_pages" where
  "add_mcp_page acc p =
     \<lparr>mp_core = add_id_page (mp_core acc) p,
      mp_evidence_refs = dict_update (mp_evidence_refs acc) (sp_evidence_refs p)\<rparr>"

definition bitmap_result :: "string \<Rightarrow> snapshot_page \<Rightarrow> mcp_result" where
  "bitmap_result entity_type p =
     \<lparr>mr_entity_type = entity_type, mr_entity_ids = None, mr_membership_bitmap = sp_membership_bitmap p,
      mr_bitmap_encoding = sp_bitmap_encoding p, mr_scores = sp_scores p,
      mr_entity_key_type = SUPPORTED_ENTITY_KEY_TYPE, mr_data_as_of = sp_data_as_of p,
      mr_source_watermark = sp_watermark p, mr_evidence_refs = sp_evidence_refs p\<rparr>"

definition rank_key :: "(int, score) dict \<Rightarrow> int \<Rightarrow> score \<times> int" where
  \<comment> \<open>\<open>(-scores.get(i, 1.0), i)\<close>\<close>
  "rank_key scores i = (- (case dict_get scores i of None \<Rightarrow> 1 | Some q \<Rightarrow> q), i)"

definition keep_keys :: "int list \<Rightarrow> (int, 'v) dict \<Rightarrow> (int, 'v) dict" where
  "keep_keys kept d = filter (\<lambda>(i, v). i \<in> set kept) d"

definition apply_limit :: "int option \<Rightarrow> mcp_pages \<Rightarrow> mcp_pages" where
  "apply_limit limit acc =
     (case limit of
        None \<Rightarrow> acc
      | Some n \<Rightarrow>
          if int (length (ip_members (mp_core acc))) > n then
            let kept = py_slice_to (sort_key (rank_key (ip_scores (mp_core acc))) (ip_members (mp_core acc))) n
            in acc\<lparr>mp_core := (mp_core acc)\<lparr>ip_members := kept, ip_scores := keep_keys kept (ip_scores (mp_core acc))\<rparr>,
                   mp_evidence_refs := keep_keys kept (mp_evidence_refs acc)\<rparr>
          else acc)"

definition encode_result :: "(int set \<Rightarrow> string) \<Rightarrow> int \<Rightarrow> string \<Rightarrow> mcp_pages \<Rightarrow> mcp_result" where
  \<comment> \<open>ids as a list, or as a bitmap from the threshold on\<close>
  "encode_result serialize bitmap_threshold entity_type acc =
     (let ids = ip_members (mp_core acc); big = int (length ids) \<ge> bitmap_threshold
      in \<lparr>mr_entity_type = entity_type,
          mr_entity_ids = (if big then None else Some ids),
          mr_membership_bitmap = (if big then Some (serialize (set ids)) else None),
          mr_bitmap_encoding = (if big then Some SUPPORTED_BITMAP_ENCODING else None),
          mr_scores = ip_scores (mp_core acc), mr_entity_key_type = SUPPORTED_ENTITY_KEY_TYPE,
          mr_data_as_of = ip_data_as_of (mp_core acc), mr_source_watermark = ip_watermark (mp_core acc),
          mr_evidence_refs = mp_evidence_refs acc\<rparr>)"

definition id_list_result ::
  "(int set \<Rightarrow> string) \<Rightarrow> client \<Rightarrow> int \<Rightarrow> string \<Rightarrow> snapshot_page \<Rightarrow> int option \<Rightarrow> (ds_exc, world, mcp_result) prog" where
  "id_list_result serialize cl bitmap_threshold entity_type first_page limit =
     bindP (follow_pages (fetch_snapshot serialize cl) sp_next_cursor add_mcp_page (too_many_pages ''Snapshot'')
              MAX_PAGES 1 (sp_next_cursor first_page) (first_mcp_page first_page)) (\<lambda>acc.
     ret (encode_result serialize bitmap_threshold entity_type (apply_limit limit acc)))"

definition resolve ::
  "(int set \<Rightarrow> string) \<Rightarrow> client \<Rightarrow> int \<Rightarrow> string \<Rightarrow> int option \<Rightarrow> (ds_exc, world, mcp_result) prog" where
  \<comment> \<open>\<open>params\<close> is not read\<close>
  "resolve serialize cl bitmap_threshold entity_type limit =
     bindP (fetch_snapshot serialize cl None) (\<lambda>first_page.
     case sp_membership_bitmap first_page of
       Some _ \<Rightarrow> ret (bitmap_result entity_type first_page)
     | None \<Rightarrow> id_list_result serialize cl bitmap_threshold entity_type first_page limit)"

section \<open>REMOTE provider\<close>

record remote_result =
  rr_rows :: "row list"
  rr_schema :: "(string, string) dict"
  rr_data_as_of :: string
  rr_source_watermark :: string
  rr_next_cursor :: "string option"

fun int_of_cell :: "cell \<Rightarrow> ds_exc + int" where
  \<comment> \<open>\<open>int(v)\<close>\<close>
  "int_of_cell (CInt i) = Inr i"
| "int_of_cell (CNum q) = Inr (if q < 0 then - \<lfloor>- q\<rfloor> else \<lfloor>q\<rfloor>)"
| "int_of_cell (CText s) = (case py_int s of None \<Rightarrow> Inl (Py (ValueError (invalid_int_text s))) | Some i \<Rightarrow> Inr i)"
| "int_of_cell CNone = Inl (Py (TypeError
     (''int() argument must be a string, a bytes-like object or a real number, not '' @ sq ''NoneType'')))"

definition row_entity :: "string \<Rightarrow> row \<Rightarrow> ds_exc + int" where
  \<comment> \<open>\<open>int(row[column])\<close>\<close>
  "row_entity column r =
     (case dict_get r column of
        None \<Rightarrow> Inl (Py (KeyError column))
      | Some v \<Rightarrow> int_of_cell v)"

definition check_rows :: "entity_filter \<Rightarrow> row list \<Rightarrow> ds_exc + unit" where
  "check_rows ef rows =
     (case mapE (row_entity (ef_column ef)) rows of
        Inl e \<Rightarrow> Inl e
      | Inr ids \<Rightarrow>
          if filter (\<lambda>i. i \<notin> set (ef_ids ef)) ids \<noteq> []
          then Inl (contract_error ''DeepSee returned evidence outside the requested entity filter.'')
          else Inr ())"

definition query ::
  "client \<Rightarrow> string \<Rightarrow> (string, filter_value) dict \<Rightarrow> string list \<Rightarrow> int option \<Rightarrow> entity_filter option \<Rightarrow>
   (ds_exc, world, remote_result) prog" where
  "query cl resource filters columns limit ef =
     bindP (guardP (resource \<in> set VALID_RESOURCES)
       (contract_error (''Unknown DeepSee resource '' @ py_repr resource @ ''; expected one of ''
          @ py_list_repr (sort VALID_RESOURCES) @ ''.''))) (\<lambda>_.
     bindP (fetch_cases cl resource (if filters = [] then None else Some filters)
              (if columns = [] then None else Some columns) limit ef) (\<lambda>response.
     bindP (case ef of None \<Rightarrow> ret () | Some f \<Rightarrow> liftE (check_rows f (cr_rows response))) (\<lambda>_.
     ret \<lparr>rr_rows = cr_rows response, rr_schema = cr_schema response, rr_data_as_of = cr_data_as_of response,
          rr_source_watermark = cr_watermark response, rr_next_cursor = cr_next_cursor response\<rparr>)))"

section \<open>Mock providers\<close>

definition echo_count :: "int option \<Rightarrow> int option \<Rightarrow> int" where
  \<comment> \<open>\<open>limit or int(params.get("count", 10))\<close>; the second argument is \<open>int(params["count"])\<close>, if present\<close>
  "echo_count limit count_param =
     (case limit of
        Some n \<Rightarrow> if n \<noteq> 0 then n else (case count_param of None \<Rightarrow> 10 | Some c \<Rightarrow> c)
      | None \<Rightarrow> (case count_param of None \<Rightarrow> 10 | Some c \<Rightarrow> c))"

definition echo_entity_ids :: "int option \<Rightarrow> int option \<Rightarrow> int list" where
  \<comment> \<open>the ids of \<open>EchoMCPProvider.resolve\<close>\<close>
  "echo_entity_ids limit count_param = [1..echo_count limit count_param]"

definition STATIC_ROWS :: "row list" where
  "STATIC_ROWS =
     [[(''item_id'', CText ''STATIC-1''), (''status'', CText ''active''), (''value'', CInt 100)],
      [(''item_id'', CText ''STATIC-2''), (''status'', CText ''pending''), (''value'', CInt 250)],
      [(''item_id'', CText ''STATIC-3''), (''status'', CText ''closed''), (''value'', CInt 50)]]"

definition static_query :: "int option \<Rightarrow> row list" where
  "static_query limit =
     (case limit of
        None \<Rightarrow> STATIC_ROWS
      | Some n \<Rightarrow> if n = 0 then STATIC_ROWS else py_slice_to STATIC_ROWS n)"

section \<open>The MCP provider returns the membership\<close>

lemma mp_core_fold: "mp_core (foldl add_mcp_page acc ps) = foldl add_id_page (mp_core acc) ps"
  by (induction ps arbitrary: acc) (simp_all add: add_mcp_page_def)

definition score_at :: "(int, score) dict \<Rightarrow> int \<Rightarrow> score" where
  "score_at d i = (case dict_get d i of None \<Rightarrow> 1 | Some q \<Rightarrow> q)"

definition outranks :: "(int, score) dict \<Rightarrow> int \<Rightarrow> int \<Rightarrow> bool" where
  \<comment> \<open>a higher score, or the same score and a smaller id\<close>
  "outranks d i j \<longleftrightarrow> score_at d j < score_at d i \<or> score_at d j = score_at d i \<and> i < j"

definition top_members :: "(int, score) dict \<Rightarrow> int option \<Rightarrow> int list \<Rightarrow> bool" where
  \<comment> \<open>\<open>ids\<close> are the members that the limit admits, the best ranked first to be kept\<close>
  "top_members d limit ids \<longleftrightarrow>
     distinct ids \<and> set ids \<subseteq> set (dict_keys d) \<and>
     int (length ids) = (case limit of None \<Rightarrow> int (length d) | Some n \<Rightarrow> min n (int (length d))) \<and>
     (\<forall>i \<in> set ids. \<forall>j \<in> set (dict_keys d) - set ids. outranks d i j)"

lemma take_sort_ranks:
  assumes "distinct xs" and "i \<in> set (take n (sort_key (rank_key d) xs))" and "j \<in> set xs" "j \<notin> set (take n (sort_key (rank_key d) xs))"
  shows "outranks d i j"
proof -
  let ?s = "sort_key (rank_key d) xs"
  from assms(3,4) have j: "j \<in> set (drop n ?s)"
    by (metis append_take_drop_id set_sort set_append Un_iff)
  have "sorted (map (rank_key d) (take n ?s @ drop n ?s))" by simp
  then have "\<forall>x \<in> set (map (rank_key d) (take n ?s)). \<forall>y \<in> set (map (rank_key d) (drop n ?s)). x \<le> y"
    unfolding map_append sorted_append by blast
  with assms(2) j have "rank_key d i \<le> rank_key d j" by simp
  moreover have "i \<noteq> j" using assms(2,4) by auto
  ultimately show ?thesis
    by (auto simp: outranks_def rank_key_def score_at_def less_eq_prod_def split: option.splits)
qed

lemma keep_keys_get: "i \<in> set kept \<Longrightarrow> dict_get (keep_keys kept d) i = dict_get d i"
  by (induction d) (auto simp: keep_keys_def)

lemma apply_limit_top:
  assumes col: "collected s (sort (dict_keys (ms_members s))) (mp_core acc)"
    and dist: "distinct (dict_keys (ms_members s))" and n: "case limit of None \<Rightarrow> True | Some n \<Rightarrow> 0 \<le> n"
  shows "top_members (ms_members s) limit (ip_members (mp_core (apply_limit limit acc)))"
    and "i \<in> set (ip_members (mp_core (apply_limit limit acc))) \<Longrightarrow>
      dict_get (ip_scores (mp_core (apply_limit limit acc))) i = dict_get (ms_members s) i"
    and "ip_data_as_of (mp_core (apply_limit limit acc)) = mock_data_as_of s"
    and "ip_watermark (mp_core (apply_limit limit acc)) = mock_watermark s"
proof -
  let ?keys = "sort (dict_keys (ms_members s))" and ?sc = "ip_scores (mp_core acc)"
  from col have mem: "ip_members (mp_core acc) = ?keys"
    and sc: "\<And>i. i \<in> set ?keys \<Longrightarrow> dict_get ?sc i = dict_get (ms_members s) i"
    and meta: "ip_data_as_of (mp_core acc) = mock_data_as_of s" "ip_watermark (mp_core acc) = mock_watermark s"
    by (auto simp: collected_def)
  have all: "top_members (ms_members s) limit ?keys"
    if "case limit of None \<Rightarrow> True | Some n \<Rightarrow> int (length ?keys) \<le> n"
    using that dist by (auto simp: top_members_def split: option.splits)
  have "top_members (ms_members s) limit (ip_members (mp_core (apply_limit limit acc))) \<and>
    (\<forall>i \<in> set (ip_members (mp_core (apply_limit limit acc))).
      dict_get (ip_scores (mp_core (apply_limit limit acc))) i = dict_get (ms_members s) i) \<and>
    ip_data_as_of (mp_core (apply_limit limit acc)) = mock_data_as_of s \<and>
    ip_watermark (mp_core (apply_limit limit acc)) = mock_watermark s"
  proof (cases "\<exists>n. limit = Some n \<and> int (length ?keys) > n")
    case False
    then have "apply_limit limit acc = acc" by (auto simp: apply_limit_def mem split: option.splits)
    moreover have "top_members (ms_members s) limit ?keys"
      by (rule all) (use False in \<open>auto split: option.splits\<close>)
    ultimately show ?thesis using mem sc meta by simp
  next
    case True
    then obtain k where k: "limit = Some k" "k < int (length ?keys)" by blast
    with n have k0: "0 \<le> k" by simp
    let ?kept = "take (nat k) (sort_key (rank_key ?sc) ?keys)"
    have lim: "apply_limit limit acc = acc\<lparr>mp_core := (mp_core acc)\<lparr>ip_members := ?kept, ip_scores := keep_keys ?kept ?sc\<rparr>,
        mp_evidence_refs := keep_keys ?kept (mp_evidence_refs acc)\<rparr>"
      using k k0 by (simp add: apply_limit_def mem py_slice_to_nonneg Let_def)
    have sub: "set ?kept \<subseteq> set ?keys" by (auto dest: in_set_takeD)
    have len: "int (length ?kept) = min k (int (length (ms_members s)))" using k k0 by simp
    have out: "outranks (ms_members s) i j" if "i \<in> set ?kept" "j \<in> set ?keys - set ?kept" for i j
    proof -
      have "outranks ?sc i j" using take_sort_ranks [of ?keys i "nat k" ?sc j] dist that by simp
      moreover have "i \<in> set ?keys" "j \<in> set ?keys" using that sub by blast+
      note sc [OF this(1)] sc [OF this(2)]
      then have "score_at ?sc i = score_at (ms_members s) i" "score_at ?sc j = score_at (ms_members s) j"
        by (simp_all only: score_at_def)
      ultimately show ?thesis by (simp add: outranks_def)
    qed
    have "top_members (ms_members s) limit ?kept"
      using sub len out dist k(1) by (auto simp: top_members_def)
    moreover have "dict_get (keep_keys ?kept ?sc) i = dict_get (ms_members s) i" if "i \<in> set ?kept" for i
    proof -
      have "dict_get (keep_keys ?kept ?sc) i = dict_get ?sc i"
        using that by (rule keep_keys_get)
      moreover have "i \<in> set ?keys" using that sub by (rule subsetD [rotated])
      ultimately show ?thesis using sc by metis
    qed
    ultimately show ?thesis using lim meta by simp
  qed
  then show "top_members (ms_members s) limit (ip_members (mp_core (apply_limit limit acc)))"
    and "i \<in> set (ip_members (mp_core (apply_limit limit acc))) \<Longrightarrow>
      dict_get (ip_scores (mp_core (apply_limit limit acc))) i = dict_get (ms_members s) i"
    and "ip_data_as_of (mp_core (apply_limit limit acc)) = mock_data_as_of s"
    and "ip_watermark (mp_core (apply_limit limit acc)) = mock_watermark s" by auto
qed

text \<open>
  C8: Over a ready paginated service, resolving membership returns the members that the limit
  admits: the best scored ones, ties by smaller id, with their scores, watermark and
  freshness. From the bitmap threshold on they come as the encoding of the same set.
\<close>

theorem resolve_returns_top_members:
  assumes ready: "snapshots_ready cl w" and fits: "snapshot_fits (w_service w)"
    and wf: "mock_wf (w_service w)" and n: "case limit of None \<Rightarrow> True | Some n \<Rightarrow> 0 \<le> n"
  shows "\<exists>r w' ids. resolve ser cl threshold entity_type limit w = (Inr r, w') \<and>
      top_members (ms_members (w_service w)) limit ids \<and>
      (if int (length ids) < threshold
       then mr_entity_ids r = Some ids \<and> mr_membership_bitmap r = None
       else mr_entity_ids r = None \<and> mr_membership_bitmap r = Some (ser (set ids))
         \<and> mr_bitmap_encoding r = Some SUPPORTED_BITMAP_ENCODING) \<and>
      (\<forall>i \<in> set ids. dict_get (mr_scores r) i = dict_get (ms_members (w_service w)) i) \<and>
      mr_data_as_of r = mock_data_as_of (w_service w) \<and> mr_source_watermark r = mock_watermark (w_service w) \<and>
      service_view (w_service w') = service_view (w_service w)"
proof -
  let ?s = "w_service w" and ?pg = "\<lambda>k. id_snapshot_page (w_service w) (int k)"
  let ?ks = "page_offsets (nat (ms_page_size ?s)) (length (ms_members ?s)) 0"
  let ?acc = "foldl add_mcp_page (first_mcp_page (?pg 0)) (map ?pg (tl ?ks))"
  have "0 < nat (ms_page_size ?s)" using client_readyD(5) snapshots_readyD [OF ready] by fastforce
  note tile = id_pages_tile [OF this] and bounds = snapshot_fits_bounds [OF fits]
  have coll: "collected ?s (sort (dict_keys (ms_members ?s))) (mp_core ?acc)"
    using collected_all [OF collected_first [of ?s 0], of "tl ?ks"] unfolding tile mp_core_fold
    by (simp add: first_mcp_page_def)
  have dist: "distinct (dict_keys (ms_members ?s))" using wf by (simp add: mock_wf_def)
  note lim = apply_limit_top [OF coll dist n]
  obtain w1 where first: "fetch_snapshot ser cl None w = (Inr (?pg 0), w1)"
    using fetch_snapshot_ready [OF ready, of None 0 ser] by (auto simp: parse_cursor_def)
  obtain w' where "bindP (fetch_snapshot ser cl None) (\<lambda>first. follow_pages (fetch_snapshot ser cl) sp_next_cursor
        add_mcp_page (too_many_pages ''Snapshot'') MAX_PAGES 1 (sp_next_cursor first) (first_mcp_page first)) w = (Inr ?acc, w')"
    and w': "service_view (w_service w') = service_view ?s"
    using snapshots.follow_reads_all [OF ready, of MAX_PAGES ser add_mcp_page "too_many_pages ''Snapshot''" first_mcp_page] bounds
    by (auto simp: comp_def)
  then have "resolve ser cl threshold entity_type limit w =
      (Inr (encode_result ser threshold entity_type (apply_limit limit ?acc)), w')"
    using first by (simp add: resolve_def id_list_result_def bindP_run)
  with lim w' show ?thesis
    by (intro exI [of _ "encode_result ser threshold entity_type (apply_limit limit ?acc)"] exI [of _ w']
        exI [of _ "ip_members (mp_core (apply_limit limit ?acc))"]) (auto simp: encode_result_def Let_def)
qed

section \<open>The REMOTE provider stays inside the requested entities\<close>

definition within_filter :: "entity_filter \<Rightarrow> row \<Rightarrow> bool" where
  \<comment> \<open>the row has the filter's column, and it names a requested entity\<close>
  "within_filter ef r \<longleftrightarrow> (case row_entity (ef_column ef) r of Inl _ \<Rightarrow> False | Inr i \<Rightarrow> i \<in> set (ef_ids ef))"

lemma check_rows_Inr: "check_rows ef rows = Inr u \<longleftrightarrow> list_all (within_filter ef) rows"
proof (cases "mapE (row_entity (ef_column ef)) rows")
  case (Inl e)
  from mapE_InlD [OF this] obtain r where "r \<in> set rows" "row_entity (ef_column ef) r = Inl e" by blast
  then have "\<not> list_all (within_filter ef) rows" by (force simp: within_filter_def list_all_iff)
  with Inl show ?thesis by (simp add: check_rows_def)
next
  case (Inr ids)
  from mapE_InrD [OF this] have len: "length ids = length rows"
    and at: "\<And>k. k < length rows \<Longrightarrow> row_entity (ef_column ef) (rows ! k) = Inr (ids ! k)" by auto
  have "list_all (within_filter ef) rows \<longleftrightarrow> list_all (\<lambda>i. i \<in> set (ef_ids ef)) ids"
    using len at by (simp add: list_all_length within_filter_def)
  with Inr show ?thesis by (auto simp: check_rows_def list_all_iff filter_empty_conv)
qed

text \<open>
  C9: Whatever the service answers, a query with an entity filter that returns serves one of
  the supported resources and returns only rows that name a requested entity.
\<close>

theorem query_within_filter:
  "case query cl resource filters columns limit (Some ef) w of
     (Inl _, _) \<Rightarrow> True
   | (Inr r, _) \<Rightarrow> resource \<in> set VALID_RESOURCES \<and> list_all (within_filter ef) (rr_rows r)"
proof -
  obtain out w' where run: "query cl resource filters columns limit (Some ef) w = (out, w')" by fastforce
  show ?thesis
  proof (cases out)
    case (Inr r)
    with run have "resource \<in> set VALID_RESOURCES \<and> check_rows ef (rr_rows r) = Inr ()"
      by (auto simp: query_def guardP_run elim!: bindP_InrD split: if_splits)
    with run Inr show ?thesis by (auto simp: check_rows_Inr)
  qed (use run in simp)
qed

lemma case_row_entity: "row_entity ''transaction_id'' (case_row resource i q) = Inr i"
  by (simp add: row_entity_def case_row_def Let_def)

text \<open>
  On the service itself the filter check never gets in the way: a query for the evidence
  of given entities, with all columns, returns one row per requested entity that is a current
  member, in the order of the ids, each made from that member's id and score.
\<close>

theorem query_returns_requested_members:
  assumes able: "client_able cl w" and res: "resource \<in> set VALID_RESOURCES" and col: "ef_column ef = ''transaction_id''"
  shows "\<exists>r w'. query cl resource [] [] None (Some ef) w = (Inr r, w') \<and>
      rr_rows r = map (\<lambda>(i, q). case_row resource i q)
        (filter (\<lambda>(i, q). i \<in> set (ef_ids ef)) (sort (ms_members (w_service w)))) \<and>
      rr_data_as_of r = mock_data_as_of (w_service w) \<and> rr_source_watermark r = mock_watermark (w_service w)"
proof -
  let ?resp = "answer_cases resource None None None (Some ef) (w_service w)"
  obtain w' where f: "fetch_cases cl resource None None None (Some ef) w = (Inr ?resp, w')"
    using fetch_cases_ready [OF able res, of None None None "Some ef"] by blast
  have rows: "cr_rows ?resp = map (\<lambda>(i, q). case_row resource i q)
      (filter (\<lambda>(i, q). i \<in> set (ef_ids ef)) (sort (ms_members (w_service w))))"
    by (simp add: answer_cases_def case_rows_def Let_def)
  have "list_all (within_filter ef) (cr_rows ?resp)"
    unfolding rows by (auto simp: list_all_iff within_filter_def col case_row_entity)
  then have "check_rows ef (cr_rows ?resp) = Inr ()" by (simp add: check_rows_Inr)
  with f res rows show ?thesis
    by (simp add: query_def bindP_run answer_cases_def Let_def)
qed

text \<open>A projection that leaves the filter's column out makes every non-empty answer a \<open>KeyError\<close>.\<close>

lemma query_without_filter_column:
  assumes "fetch_cases cl resource None (Some columns) None (Some ef) w = (Inr resp, w')"
    and "resource \<in> set VALID_RESOURCES" and "columns \<noteq> []" and "cr_rows resp = r # rs" and "dict_get r (ef_column ef) = None"
  shows "query cl resource [] columns None (Some ef) w = (Inl (Py (KeyError (ef_column ef))), w')"
  using assms by (simp add: query_def bindP_run check_rows_def row_entity_def)

end
