(* ===== verification/Post_Trade_Demo.thy ===== *)
theory Post_Trade_Demo
  imports Sync_Runs
begin

text \<open>
  The connector scenes of the demonstration (\<open>run_demo\<close> in \<open>demo/post_trade_demo.py\<close>, scenes 5
  and 6): a mock service holding the riskiest transactions, its membership bootstrapped, three
  pending transactions added, the least risky one removed, and the delta synchronised. The
  transactions come from the engine's tables: \<open>risky\<close> and \<open>new_ids\<close> are the rows of the two queries.
  What the store, the database of the demo and the clock are is left open.
\<close>

section \<open>The scenes\<close>

definition RISK_CONTEXT :: string where "RISK_CONTEXT = ''deepsee_settlement_risk''"

definition risk_service :: "(int \<times> score) list \<Rightarrow> mock_service" where
  \<comment> \<open>a dict comprehension over the rows: the last of equal keys counts\<close>
  "risk_service risky = mock_service_init (Some (dict_update [] risky)) 200"

definition risk_client :: "int \<Rightarrow> client" where
  "risk_client max_payload_bytes =
     client_init None DEFAULT_MAX_RETRIES DEFAULT_BACKOFF_BASE_MS DEFAULT_BACKOFF_CAP_MS max_payload_bytes None"

definition risk_env :: "(nat \<Rightarrow> datetime) \<Rightarrow> (string, string) dict \<Rightarrow> 'm \<Rightarrow> (int \<times> score) list \<Rightarrow> 'm sync_env" where
  "risk_env clock environ store risky =
     \<lparr>se_self = synchronizer_init RISK_CONTEXT None,
      se_world = \<lparr>w_service = risk_service risky, w_sleeps = [], w_clock = clock, w_clock_reads = 0, w_environ = environ\<rparr>,
      se_store = store, se_repo = None\<rparr>"

fun add_members :: "int list \<Rightarrow> (ds_exc, mock_service, unit) prog" where
  "add_members [] = ret ()"
| "add_members (i # is) = bindP (add_member i (91 / 100)) (\<lambda>_. add_members is)"

definition last_id :: "(int \<times> score) list \<Rightarrow> ds_exc + int" where
  \<comment> \<open>\<open>int(risky[-1][0])\<close>\<close>
  "last_id risky = (if risky = [] then Inl (Py (OtherError ''IndexError'' ''list index out of range'')) else Inr (fst (last risky)))"

definition delta_scene :: "('m, 'g, 'p) sync_deps \<Rightarrow> (int \<times> score) list \<Rightarrow> int list \<Rightarrow> (ds_exc, 'm sync_env, sync_report) prog" where
  "delta_scene d risky new_ids =
     bindP (on_world (on_service (add_members new_ids))) (\<lambda>_.
     bindP (liftE (last_id risky)) (\<lambda>dropped.
     bindP (on_world (on_service (remove_member dropped))) (\<lambda>_.
     sync_once d)))"

section \<open>The scenes are a run\<close>

definition scene_steps :: "(int \<times> score) list \<Rightarrow> int list \<Rightarrow> run_step list" where
  "scene_steps risky new_ids = map (\<lambda>i. Mutate (AddMember i (91 / 100))) new_ids @ [Mutate (RemoveMember (fst (last risky)))]"

lemma run_steps_append: "run_steps d (xs @ ys) e = run_steps d ys (run_steps d xs e)"
  by (induction xs arbitrary: e) simp_all

lemma add_members_run:
  "on_world (on_service (add_members is)) e = (Inr (), run_steps d (map (\<lambda>i. Mutate (AddMember i (91 / 100))) is) e)"
proof (induction "is" arbitrary: e)
  case (Cons i "is")
  let ?e = "e\<lparr>se_world := (se_world e)\<lparr>w_service := snd (add_member i (91 / 100) (w_service (se_world e)))\<rparr>\<rparr>"
  have one: "snd (do_step d (Mutate (AddMember i (91 / 100))) e) = ?e"
    by (simp add: on_world_def on_service_def add_member_run Let_def bindP_run)
  have "on_world (on_service (add_members (i # is))) e = on_world (on_service (add_members is)) ?e"
    by (simp add: on_world_def on_service_def add_member_run Let_def bindP_run split: prod.split)
  with Cons.IH [of ?e] one show ?case by (simp del: do_step.simps add_members.simps)
qed (simp add: on_world_def on_service_def)

lemma remove_member_step:
  "\<exists>x. on_world (on_service (remove_member i)) e = (Inr x, snd (do_step d (Mutate (RemoveMember i)) e))"
  by (simp add: on_world_def on_service_def remove_member_run Let_def bindP_run)

lemma delta_scene_run:
  assumes "risky \<noteq> []"
  shows "delta_scene d risky new_ids e = sync_once d (run_steps d (scene_steps risky new_ids) e)"
proof -
  let ?e = "run_steps d (map (\<lambda>i. Mutate (AddMember i (91 / 100))) new_ids) e"
  obtain x where "on_world (on_service (remove_member (fst (last risky)))) ?e =
      (Inr x, snd (do_step d (Mutate (RemoveMember (fst (last risky)))) ?e))"
    using remove_member_step by blast
  with assms show ?thesis
    by (simp add: delta_scene_def scene_steps_def bindP_run add_members_run [of _ _ d] last_id_def run_steps_append del: do_step.simps)
qed

definition demo_rows_ok :: "(int \<times> score) list \<Rightarrow> int list \<Rightarrow> bool" where
  \<comment> \<open>what the two queries return: at most 500 transactions by key, and at most three others\<close>
  "demo_rows_ok risky new_ids \<longleftrightarrow>
     risky \<noteq> [] \<and> length risky \<le> 500 \<and> distinct (map fst risky) \<and> list_all (\<lambda>i. 0 \<le> i) (map fst risky) \<and>
     length new_ids \<le> 3 \<and> distinct new_ids \<and> list_all (\<lambda>i. i \<notin> set (map fst risky)) new_ids"

definition demo_membership :: "(int \<times> score) list \<Rightarrow> int list \<Rightarrow> membership" where
  "demo_membership risky new_ids =
     (\<lambda>i. if i = fst (last risky) then None else if i \<in> set new_ids then Some (91 / 100) else map_of risky i)"

lemma adds_ok:
  assumes "distinct is" and "\<And>i. i \<in> set is \<Longrightarrow> m i = None"
  shows "steps_ok (map (\<lambda>i. Mutate (AddMember i (91 / 100))) is @ [Mutate (RemoveMember k)]) m"
  using assms
proof (induction "is" arbitrary: m)
  case (Cons i "is")
  have "steps_ok (map (\<lambda>i. Mutate (AddMember i (91 / 100))) is @ [Mutate (RemoveMember k)]) (m(i \<mapsto> 91 / 100))"
    by (rule Cons.IH) (use Cons.prems in auto)
  with Cons.prems(2) show ?case by simp
qed simp

lemma adds_after: "members_after (map (\<lambda>i. Mutate (AddMember i q)) is @ [Mutate (RemoveMember k)]) m =
    (\<lambda>x. if x = k then None else if x \<in> set is then Some q else m x)"
  by (induction "is" arbitrary: m) auto

lemma risk_service_fields [simp]:
  "ms_page_size (risk_service rows) = 200" "ms_seq (risk_service rows) = 0" "ms_failures (risk_service rows) = []"
  "\<not> ms_require_auth (risk_service rows)" "\<not> ms_bitmap_snapshot (risk_service rows)" "\<not> ms_invalid_key_type (risk_service rows)"
  "ms_members (risk_service rows) = dict_update [] rows"
  by (simp_all add: risk_service_def mock_service_init_def)

lemma risk_source:
  assumes "distinct (map fst risky)" "length risky \<le> 500" "list_all (\<lambda>i. 0 \<le> i) (map fst risky)" and "d_client d = risk_client b"
  shows "source_ready d (se_world (risk_env clock environ store risky))"
proof -
  have "dict_update [] risky = risky" using assms(1) by (rule dict_update_same)
  moreover have "length (page_offsets 200 (length risky) 0) \<le> MAX_PAGES"
    using length_page_offsets [of 200 "length risky" 0] assms(2) div_le_mono [of "length risky" 500 200] by (simp add: MAX_PAGES_def)
  ultimately have "snapshots_ready (d_client d) (se_world (risk_env clock environ store risky))"
    "snapshot_fits (w_service (se_world (risk_env clock environ store risky)))"
    using assms(3,4)
    by (simp_all add: snapshots_ready_def client_ready_def client_able_def authorised_def fresh_def transient_failures_def
        queued_failures_def risk_client_def client_init_def risk_env_def snapshot_fits_def DEFAULT_MAX_RETRIES_def)
  then show ?thesis by (simp add: source_ready_def)
qed

lemma adds_seq:
  "ms_seq (w_service (se_world (run_steps d (map (\<lambda>i. Mutate (AddMember i q)) is @ [Mutate (RemoveMember k)]) e))) =
    ms_seq (w_service (se_world e)) + length is + 1"
  by (induction "is" arbitrary: e)
     (simp_all add: on_world_def on_service_def add_member_run remove_member_run Let_def bindP_run)

lemma demo_membership_card:
  assumes "demo_rows_ok risky new_ids"
  shows "card (dom (demo_membership risky new_ids)) = length risky + length new_ids - 1"
proof -
  let ?k = "fst (last risky)"
  from assms have r: "risky \<noteq> []" "distinct (map fst risky)" "distinct new_ids" "set new_ids \<inter> fst ` set risky = {}"
    by (auto simp: demo_rows_ok_def list_all_iff)
  have k: "?k \<in> fst ` set risky" using r(1) by simp
  then have new: "?k \<notin> set new_ids" using r(4) by auto
  have "dom (demo_membership risky new_ids) = fst ` set risky - {?k} \<union> set new_ids"
  proof (rule set_eqI)
    fix x
    from new show "x \<in> dom (demo_membership risky new_ids) \<longleftrightarrow> x \<in> fst ` set risky - {?k} \<union> set new_ids"
      by (cases "x = ?k"; cases "x \<in> set new_ids") (auto simp: demo_membership_def domIff map_of_eq_None_iff simp del: not_None_eq)
  qed
  moreover have "card (fst ` set risky) = length risky"
    using distinct_card [OF r(2)] by simp
  moreover have "card (fst ` set risky - {?k} \<union> set new_ids) = card (fst ` set risky - {?k}) + card (set new_ids)"
    using r(4) by (intro card_Un_disjoint) auto
  ultimately show ?thesis using k distinct_card [OF r(3)] r(1) by (simp add: card_Diff_singleton Suc_le_eq)
qed

lemma scenes_deliver:
  assumes rows: "demo_rows_ok risky new_ids" and cl: "d_client d = risk_client b"
    and store: "store_contract (d_store d) view" "store_up (d_store d)" and db: "\<forall>k. d_fault d k = None"
  shows "\<exists>x e1 r e2. bootstrap d (risk_env clock environ m risky) = (Inr x, e1) \<and>
     view (se_store e1) RISK_CONTEXT = map_of risky \<and> delta_scene d risky new_ids e1 = (Inr r, e2) \<and>
     view (se_store e2) RISK_CONTEXT = demo_membership risky new_ids \<and>
     card (dom (view (se_store e2) RISK_CONTEXT)) = length risky + length new_ids - 1 \<and>
     sy_committed_watermark (se_self e2) = Some (watermark_text (length new_ids + 1))"
proof -
  let ?e = "risk_env clock environ m risky" and ?xs = "scene_steps risky new_ids"
  from rows have r: "risky \<noteq> []" "length risky \<le> 500" "distinct (map fst risky)" "list_all (\<lambda>i. 0 \<le> i) (map fst risky)"
    "length new_ids \<le> 3" "distinct new_ids" "\<And>i. i \<in> set new_ids \<Longrightarrow> map_of risky i = None"
    by (auto simp: demo_rows_ok_def list_all_iff map_of_eq_None_iff)
  have w: "w_service (se_world ?e) = risk_service risky" "se_self ?e = synchronizer_init RISK_CONTEXT None"
    by (simp_all add: risk_env_def)
  have mem: "ms_members (risk_service risky) = risky" by (simp add: dict_update_same [OF r(3)])
  have h: "healthy d view" using store db cl by (simp add: healthy_def risk_client_def client_init_def)
  have wf: "mock_wf (risk_service risky)" unfolding risk_service_def by (rule mock_wf_init) simp
  have dur: "durable RISK_CONTEXT ?e" by (simp add: risk_env_def durable_init)
  have len: "length ?xs \<le> 4" using r(5) by (simp add: scene_steps_def)
  have no: "Restart \<in> set ?xs \<longrightarrow> has_repo ?e" by (auto simp: scene_steps_def)
  have ok: "steps_ok ?xs (map_of (ms_members (risk_service risky)))" unfolding mem scene_steps_def by (rule adds_ok [OF r(6,7)])
  have fits: "2 * int (ms_seq (risk_service risky) + length ?xs) < int MAX_PAGES * ms_page_size (risk_service risky)"
    "ms_seq (risk_service risky) + length ?xs < 10 ^ 11" using len by (simp_all add: MAX_PAGES_def)
  have after: "members_after ?xs (map_of risky) = demo_membership risky new_ids"
    unfolding scene_steps_def adds_after demo_membership_def ..
  note src = risk_source [OF r(3,2,4) cl, of clock environ m]
  from run_mirrors [OF h src, where c = RISK_CONTEXT and xs = ?xs, unfolded w, OF wf _ dur no ok fits]
  obtain x e1 rp e2 where run: "bootstrap d ?e = (Inr x, e1)" "view (se_store e1) RISK_CONTEXT = map_of risky"
    "sync_once d (run_steps d ?xs e1) = (Inr rp, e2)" "view (se_store e2) RISK_CONTEXT = demo_membership risky new_ids"
    "sy_committed_watermark (se_self e2) = Some (mock_watermark (w_service (se_world (run_steps d ?xs e1))))"
    unfolding mem after by (auto simp: synchronizer_init_def Let_def)
  have "ms_seq (w_service (se_world e1)) = 0"
    using bootstrap_ready [OF healthy_infrastructure [OF h] src] run(1) by (auto simp: w synchronizer_init_def same_log_def)
  then have "mock_watermark (w_service (se_world (run_steps d ?xs e1))) = watermark_text (length new_ids + 1)"
    by (simp add: scene_steps_def adds_seq mock_watermark_def del: do_step.simps)
  then show ?thesis using run demo_membership_card [OF rows] by (auto simp: delta_scene_run [OF r(1)])
qed


end
