(* ===== verification/Sync_Witnesses.thy ===== *)
theory Sync_Witnesses
  imports Sync_Runs DeepSee_Providers Post_Trade_Demo
begin

text \<open>
  A concrete deployment of the connector, on which the theorems about it are applied: one
  member behind the service, ten ids per page, a store that keeps maps, a state database.
\<close>

definition demo_service :: mock_service where
  "demo_service = mock_service_init (Some [(1, 1 / 2)]) 10"

definition demo_client :: client where
  "demo_client = client_init None 3 50 1000 1000000 None"

definition demo_world :: "mock_service \<Rightarrow> world" where
  "demo_world s = \<lparr>w_service = s, w_sleeps = [], w_clock = (\<lambda>n. add_seconds BASE_TIME n), w_clock_reads = 0, w_environ = []\<rparr>"

definition demo_deps :: "(string \<Rightarrow> (int \<rightharpoonup> score), string \<times> (int \<rightharpoonup> score), unit) sync_deps" where
  "demo_deps = \<lparr>d_client = demo_client, d_store = map_store, d_serialize = (\<lambda>_. []), d_deserialize = (\<lambda>_. Inr {}),
     d_fault = (\<lambda>_. None), d_db_now = ''2026-07-01 00:00:00''\<rparr>"

definition demo_env :: "mock_service \<Rightarrow> (string \<Rightarrow> (int \<rightharpoonup> score)) \<Rightarrow> string option \<Rightarrow> (string \<Rightarrow> (int \<rightharpoonup> score)) sync_env" where
  "demo_env s m wm = \<lparr>se_self = \<lparr>sy_context_id = ''risk'', sy_committed_watermark = wm, sy_seen_event_ids = {}\<rparr>,
     se_world = demo_world s, se_store = m, se_repo = Some \<lparr>db_sync_state = [], db_sync_events = []\<rparr>\<rparr>"

definition demo_after_add :: mock_service where
  "demo_after_add = snd (add_member 2 (1 / 4) demo_service)"

lemma demo_env_fields [simp]:
  "se_world (demo_env s m wm) = demo_world s" "se_store (demo_env s m wm) = m"
  "sy_context_id (se_self (demo_env s m wm)) = ''risk''" "w_service (demo_world s) = s"
  "sy_committed_watermark (se_self (demo_env s m wm)) = wm" "sy_seen_event_ids (se_self (demo_env s m wm)) = {}"
  by (simp_all add: demo_env_def demo_world_def)

lemma demo_deps_fields [simp]:
  "d_client demo_deps = demo_client" "d_store demo_deps = map_store" "d_fault demo_deps k = None"
  by (simp_all add: demo_deps_def)

lemma demo_infrastructure: "infrastructure_up demo_deps (\<lambda>m. m) e"
  by (simp add: infrastructure_up_def map_store_contract map_store_up)

lemma demo_able: "ms_failures s = [] \<Longrightarrow> \<not> ms_require_auth s \<Longrightarrow> client_able demo_client (demo_world s)"
  by (simp add: client_able_def authorised_def fresh_def transient_failures_def queued_failures_def demo_client_def
      client_init_def)

lemma demo_service_fields [simp]:
  "ms_failures demo_service = []" "\<not> ms_require_auth demo_service" "ms_page_size demo_service = 10"
  "ms_members demo_service = [(1, 1 / 2)]" "ms_events demo_service = []" "ms_seq demo_service = 0"
  "\<not> ms_bitmap_snapshot demo_service" "\<not> ms_invalid_key_type demo_service" "\<not> ms_redeliver_from_start demo_service"
  "\<not> ms_out_of_order demo_service" "\<not> ms_duplicate_delivery demo_service"
  by (simp_all add: demo_service_def mock_service_init_def)

lemma demo_after_add_fields [simp]:
  "ms_failures demo_after_add = []" "\<not> ms_require_auth demo_after_add" "ms_page_size demo_after_add = 10"
  "ms_members demo_after_add = [(1, 1 / 2), (2, 1 / 4)]" "ms_seq demo_after_add = 1"
  "ms_events demo_after_add = [new_event demo_service 2 CHANGE_TYPE_ADDED (Some (1 / 4))]"
  "\<not> ms_redeliver_from_start demo_after_add" "\<not> ms_out_of_order demo_after_add" "\<not> ms_duplicate_delivery demo_after_add"
  by (simp_all add: demo_after_add_def add_member_run Let_def)

lemma demo_wf: "mock_wf demo_service"
  by (simp add: demo_service_def mock_wf_init)

lemma demo_mutates: "mutates demo_service demo_after_add"
  unfolding demo_after_add_def by (rule mutates.adds [of 2 "1 / 4"]) (simp add: add_member_run Let_def)

lemma demo_mutates_star: "mutates\<^sup>*\<^sup>* demo_service demo_after_add"
  using demo_mutates by (rule r_into_rtranclp)

lemma demo_ready: "client_ready demo_client (demo_world demo_service)" "client_ready demo_client (demo_world demo_after_add)"
  by (simp_all add: client_ready_def demo_able)

lemma one_page: "n \<le> psz \<Longrightarrow> length (page_offsets psz n 0) = 1"
  by (subst page_offsets.simps) simp

lemma one_le_max_pages: "Suc 0 \<le> MAX_PAGES"
  by (simp add: MAX_PAGES_def)

lemma demo_snapshots: "snapshots_ready demo_client (demo_world demo_service)" "snapshot_fits demo_service"
  by (simp_all add: snapshots_ready_def demo_ready snapshot_fits_def one_page one_le_max_pages)

theorem bootstrap_mirrors_source_witness:
  "\<exists>x e'. bootstrap demo_deps (demo_env demo_service (\<lambda>_. Map.empty) None) = (Inr x, e') \<and>
     store_at (\<lambda>m. m) e' demo_service"
proof -
  have "source_ready demo_deps (se_world (demo_env demo_service (\<lambda>_. Map.empty) None))"
    by (simp add: source_ready_def demo_snapshots)
  from bootstrap_mirrors_source [OF demo_infrastructure this] show ?thesis by auto
qed

theorem sync_once_catches_up_witness:
  "\<exists>r e'. sync_once demo_deps (demo_env demo_after_add (\<lambda>_. [1 \<mapsto> 1 / 2]) (Some (watermark_text 0))) = (Inr r, e') \<and>
     store_at (\<lambda>m. m) e' demo_after_add"
proof -
  let ?e = "demo_env demo_after_add (\<lambda>_. [1 \<mapsto> 1 / 2]) (Some (watermark_text 0))"
  have self: "self_at (se_self ?e) demo_service" by (simp add: self_at_def mock_watermark_def)
  have store: "store_at (\<lambda>m. m) ?e demo_service" by (simp add: store_at_def)
  have log: "same_log (w_service (se_world ?e)) demo_after_add" by (simp add: same_log_def)
  have feed: "feed_ok (drop (ms_seq demo_service) (ms_events demo_after_add)) (map_of (ms_members demo_service))"
    by (simp add: event_ok_def new_event_def)
  have fits: "feed_fits (w_service (se_world ?e)) (ms_seq demo_service)"
    by (simp add: feed_fits_def pending_events_def new_event_def watermark_text_def one_page one_le_max_pages)
  have ready: "client_ready (d_client demo_deps) (se_world ?e)" by (simp add: demo_ready)
  from sync_once_catches_up [OF demo_infrastructure ready demo_wf self rtranclp.rtrancl_refl store
      demo_mutates_star log feed fits]
  show ?thesis by auto
qed

definition demo_steps :: "run_step list" where
  \<comment> \<open>an addition, a feed at its worst, a sync, a restart, a removal and a score change of an unknown entity\<close>
  "demo_steps = [Mutate (AddMember 2 (1 / 4)), Deliver True True True, Sync, Restart, Mutate (RemoveMember 1), Mutate (ChangeScore 9 1)]"



theorem endless_feed_refused_witness:
  "fst (sync_once demo_deps (demo_env (demo_after_add\<lparr>ms_page_size := 0\<rparr>) (\<lambda>_. Map.empty) (Some (watermark_text 0))))
     = Inl (too_many_pages ''Change-feed'')"
proof -
  let ?s = "demo_after_add\<lparr>ms_page_size := 0\<rparr>" and ?wm = "watermark_text 0"
  have "pending_events ?s 0 \<noteq> []" by (simp add: pending_events_def new_event_def watermark_text_def)
  moreover have "py_int ?wm = Some 0" by (simp add: watermark_text_def)
  moreover have "client_able (d_client demo_deps) (se_world (demo_env ?s (\<lambda>_. Map.empty) (Some ?wm)))"
    by (simp add: demo_able)
  ultimately show ?thesis
    using endless_feed_refused [of demo_deps "demo_env ?s (\<lambda>_. Map.empty) (Some ?wm)" 0 ?wm] by simp
qed

theorem resolve_returns_top_members_witness:
  "\<exists>r w' ids. resolve (\<lambda>_. []) demo_client 1000 ''transaction'' (Some 1) (demo_world demo_service) = (Inr r, w') \<and>
     top_members [(1, 1 / 2)] (Some 1) ids \<and> mr_entity_ids r = Some ids"
proof -
  have "snapshot_fits (w_service (demo_world demo_service))" "mock_wf (w_service (demo_world demo_service))"
    by (simp_all add: demo_snapshots demo_wf)
  from resolve_returns_top_members [OF demo_snapshots(1) this, of "Some 1" "\<lambda>_. []" 1000 "''transaction''"]
  obtain r w' ids where r: "resolve (\<lambda>_. []) demo_client 1000 ''transaction'' (Some 1) (demo_world demo_service) = (Inr r, w')"
    "top_members [(1, 1 / 2)] (Some 1) ids" "int (length ids) < 1000 \<longrightarrow> mr_entity_ids r = Some ids"
    by (auto split: if_splits)
  then have "int (length ids) < 1000" by (simp add: top_members_def)
  with r show ?thesis by blast
qed

theorem query_returns_requested_members_witness:
  "\<exists>r w'. query demo_client RESOURCE_SETTLEMENT_CASES [] [] None
       (Some \<lparr>ef_column = ''transaction_id'', ef_bitmap_encoding = None, ef_cardinality = 1, ef_ids = [1]\<rparr>)
       (demo_world demo_service) = (Inr r, w') \<and>
     rr_rows r = [case_row RESOURCE_SETTLEMENT_CASES 1 (1 / 2)]"
proof -
  have "client_able demo_client (demo_world demo_service)" by (simp add: demo_able)
  moreover have "RESOURCE_SETTLEMENT_CASES \<in> set VALID_RESOURCES" by (simp add: VALID_RESOURCES_def)
  ultimately show ?thesis
    using query_returns_requested_members [of demo_client "demo_world demo_service" RESOURCE_SETTLEMENT_CASES
        "\<lparr>ef_column = ''transaction_id'', ef_bitmap_encoding = None, ef_cardinality = 1, ef_ids = [1]\<rparr>"] by auto
qed

end
