(* ===== verification/Sync_Corners.thy ===== *)
theory Sync_Corners
  imports Sync_Witnesses
begin

text \<open>
  Feeds on which the fold of the synchronizer does not do what one expects: the events are ones
  the client accepts, though the mock service does not send them.
\<close>

definition feed_event :: "string \<Rightarrow> string \<Rightarrow> score option \<Rightarrow> string \<Rightarrow> change_event" where
  "feed_event i kind sc wm = \<lparr>ce_event_id = i, ce_entity_id = 7, ce_change_type = kind, ce_score = sc,
     ce_effective_at = ''2026-01-01T00:00:00+00:00'', ce_watermark = wm\<rparr>"

text \<open>
  A score change of a member followed by an \<open>added\<close> event with a newer score: the published delta
  carries the older score, because the score changes override the additions.
\<close>

lemma newer_addition_loses:
  "\<exists>f. fold_events [feed_event ''e1'' CHANGE_TYPE_SCORE_CHANGED (Some (1/5)) ''1'', feed_event ''e2'' CHANGE_TYPE_ADDED (Some (9/10)) ''2''] = Inr f \<and>
     fc_additions f = [(7, 9/10)] \<and> dict_get (da_score_changes (delta_of f c a ''2'')) 7 = Some (1/5)"
  by (simp add: fold_events_def fold_step_def feed_event_def added_score_def delta_of_def dict_update_def
      CHANGE_TYPE_ADDED_def CHANGE_TYPE_REMOVED_def CHANGE_TYPE_SCORE_CHANGED_def)

text \<open>An addition with the score 0 is published with the score 1; a change to 0 keeps the 0.\<close>

lemma zero_score_becomes_one:
  "\<exists>f. fold_events [feed_event ''e1'' CHANGE_TYPE_ADDED (Some 0) ''1''] = Inr f \<and> fc_additions f = [(7, 1)]"
  "\<exists>f. fold_events [feed_event ''e1'' CHANGE_TYPE_SCORE_CHANGED (Some 0) ''1''] = Inr f \<and> fc_score_changes f = [(7, 0)]"
  by (simp_all add: fold_events_def fold_step_def feed_event_def added_score_def
      CHANGE_TYPE_ADDED_def CHANGE_TYPE_REMOVED_def CHANGE_TYPE_SCORE_CHANGED_def)

end
