(* ===== verification/Json.thy ===== *)
theory Json
  imports Py_Text
begin

text \<open>
  The part of Python's \<open>json\<close> module the services use: \<open>json.dumps\<close> (ASCII escapes, default
  and compact separators) and \<open>json.loads\<close>. A float is its JSON text; reading a float literal
  gives the text of the float it denotes, which the parameter \<open>fr\<close> computes. An object is a dict,
  so a repeated key keeps its first place and its last value. \<open>json.loads\<close> raises
  \<open>JSONDecodeError\<close> (here \<open>None\<close>); an escape above code point 255 has no counterpart in the
  model's text and is refused as well.
\<close>

datatype json =
    JNull
  | JBool bool
  | JInt int
  | JFloat string
  | JStr string
  | JArr "json list"
  | JObj "(string \<times> json) list"

datatype py_cell = JsonCell json | OtherCell string
  \<comment> \<open>a cell of a result frame: a JSON value, or any other object with its \<open>str\<close>\<close>

type_synonym frame_row = "(string, py_cell) dict"

abbreviation "dq \<equiv> CHR 0x22"
abbreviation "bslash \<equiv> CHR 0x5C"

section \<open>Writing\<close>

definition json_escape :: "char \<Rightarrow> string" where
  "json_escape c =
     (let n = (of_char c :: nat) in
      if c = dq then [bslash, dq]
      else if c = bslash then [bslash, bslash]
      else if n = 10 then [bslash, CHR ''n'']
      else if n = 13 then [bslash, CHR ''r'']
      else if n = 9 then [bslash, CHR ''t'']
      else if n = 12 then [bslash, CHR ''f'']
      else if n = 8 then [bslash, CHR ''b'']
      else if 32 \<le> n \<and> n \<le> 126 then [c]
      else [bslash, CHR ''u'', CHR ''0'', CHR ''0'', hex_digit (n div 16), hex_digit (n mod 16)])"

definition json_quote :: "string \<Rightarrow> string" where
  "json_quote s = [dq] @ concat (map json_escape s) @ [dq]"

fun json_text :: "string \<Rightarrow> string \<Rightarrow> json \<Rightarrow> string" where
  "json_text isep ksep JNull = ''null''"
| "json_text isep ksep (JBool b) = (if b then ''true'' else ''false'')"
| "json_text isep ksep (JInt i) = show_int i"
| "json_text isep ksep (JFloat f) = f"
| "json_text isep ksep (JStr s) = json_quote s"
| "json_text isep ksep (JArr xs) = ''['' @ join_text isep (map (json_text isep ksep) xs) @ '']''"
| "json_text isep ksep (JObj kvs) =
     ''{'' @ join_text isep (map (\<lambda>(k, v). json_quote k @ ksep @ json_text isep ksep v) kvs) @ ''}''"

abbreviation json_dumps :: "json \<Rightarrow> string" where
  \<comment> \<open>\<open>json.dumps(v)\<close>\<close>
  "json_dumps v \<equiv> json_text '', '' '': '' v"

abbreviation json_compact :: "json \<Rightarrow> string" where
  \<comment> \<open>\<open>json.dumps(v, separators=(",", ":"))\<close>\<close>
  "json_compact v \<equiv> json_text '','' '':'' v"

section \<open>Reading\<close>

definition json_ws :: "char \<Rightarrow> bool" where
  "json_ws c = (c = CHR '' '' \<or> c = CHR 0x09 \<or> c = CHR 0x0A \<or> c = CHR 0x0D)"

definition skip_ws :: "string \<Rightarrow> string" where
  "skip_ws s = dropWhile json_ws s"

definition hex_value :: "char \<Rightarrow> nat option" where
  "hex_value c =
     (let n = (of_char c :: nat) in
      if 48 \<le> n \<and> n \<le> 57 then Some (n - 48)
      else if 97 \<le> n \<and> n \<le> 102 then Some (n - 87)
      else if 65 \<le> n \<and> n \<le> 70 then Some (n - 55)
      else None)"

definition hex4 :: "char \<Rightarrow> char \<Rightarrow> char \<Rightarrow> char \<Rightarrow> char option" where
  "hex4 a b c d =
     (case (hex_value a, hex_value b, hex_value c, hex_value d) of
        (Some w, Some x, Some y, Some z) \<Rightarrow>
          if w = 0 \<and> x = 0 then Some (char_of (16 * y + z)) else None
      | _ \<Rightarrow> None)"

definition json_unescape :: "char \<Rightarrow> char option" where
  "json_unescape c =
     (if c = dq \<or> c = bslash \<or> c = CHR ''/'' then Some c
      else if c = CHR ''n'' then Some (CHR 0x0A)
      else if c = CHR ''r'' then Some (CHR 0x0D)
      else if c = CHR ''t'' then Some (CHR 0x09)
      else if c = CHR ''f'' then Some (CHR 0x0C)
      else if c = CHR ''b'' then Some (CHR 0x08)
      else None)"

fun json_string :: "string \<Rightarrow> (string \<times> string) option" where
  \<comment> \<open>the text after an opening quote, up to the closing one\<close>
  "json_string [] = None"
| "json_string (c # cs) =
     (if c = dq then Some ([], cs)
      else if c = bslash then
        (case cs of
           [] \<Rightarrow> None
         | e # rest \<Rightarrow>
             if e = CHR ''u'' then
               (case rest of
                  h1 # h2 # h3 # h4 # rest' \<Rightarrow>
                    (case hex4 h1 h2 h3 h4 of
                       None \<Rightarrow> None
                     | Some ch \<Rightarrow> map_option (apfst ((#) ch)) (json_string rest'))
                | _ \<Rightarrow> None)
             else
               (case json_unescape e of
                  None \<Rightarrow> None
                | Some ch \<Rightarrow> map_option (apfst ((#) ch)) (json_string rest)))
      else if (of_char c :: nat) < 32 then None
      else map_option (apfst ((#) c)) (json_string cs))"

definition int_part :: "string \<Rightarrow> string" where
  \<comment> \<open>\<open>0|[1-9]\d*\<close>\<close>
  "int_part s =
     (case s of
        [] \<Rightarrow> []
      | c # cs \<Rightarrow> if c = CHR ''0'' then [c] else takeWhile is_digit s)"

definition frac_part :: "string \<Rightarrow> string" where
  \<comment> \<open>\<open>(\.\d+)?\<close>\<close>
  "frac_part s =
     (case s of
        [] \<Rightarrow> []
      | c # cs \<Rightarrow> if c = CHR ''.'' \<and> takeWhile is_digit cs \<noteq> [] then c # takeWhile is_digit cs else [])"

definition exp_part :: "string \<Rightarrow> string" where
  \<comment> \<open>\<open>([eE][-+]?\d+)?\<close>\<close>
  "exp_part s =
     (case s of
        [] \<Rightarrow> []
      | c # cs \<Rightarrow>
          if c = CHR ''e'' \<or> c = CHR ''E'' then
            (let sg = (case cs of [] \<Rightarrow> [] | x # _ \<Rightarrow> if x = CHR ''-'' \<or> x = CHR ''+'' then [x] else []);
                 ds = takeWhile is_digit (drop (length sg) cs)
             in if ds = [] then [] else c # sg @ ds)
          else [])"

definition number_body :: "(string \<Rightarrow> string) \<Rightarrow> bool \<Rightarrow> string \<Rightarrow> (json \<times> string) option" where
  "number_body fr neg s =
     (let ip = int_part s; s2 = drop (length ip) s;
          fp = frac_part s2; s3 = drop (length fp) s2;
          ep = exp_part s3; rest = drop (length ep) s3
      in if ip = [] then None
         else if fp = [] \<and> ep = [] then
           Some (JInt (if neg then - int (digits_val 0 ip) else int (digits_val 0 ip)), rest)
         else Some (JFloat (fr ((if neg then ''-'' else []) @ ip @ fp @ ep)), rest))"

definition json_number :: "(string \<Rightarrow> string) \<Rightarrow> string \<Rightarrow> (json \<times> string) option" where
  "json_number fr s =
     (case s of
        [] \<Rightarrow> None
      | c # cs \<Rightarrow> if c = CHR ''-'' then number_body fr True cs else number_body fr False s)"

definition json_constant :: "string \<Rightarrow> (json \<times> string) option" where
  "json_constant s =
     (if starts_with ''null'' s then Some (JNull, drop 4 s)
      else if starts_with ''true'' s then Some (JBool True, drop 4 s)
      else if starts_with ''false'' s then Some (JBool False, drop 5 s)
      else if starts_with ''NaN'' s then Some (JFloat ''NaN'', drop 3 s)
      else if starts_with ''Infinity'' s then Some (JFloat ''Infinity'', drop 8 s)
      else if starts_with ''-Infinity'' s then Some (JFloat ''-Infinity'', drop 9 s)
      else None)"

text \<open>The fuel bounds the nesting and the number of items; the length of the text is enough.\<close>

fun json_value :: "(string \<Rightarrow> string) \<Rightarrow> nat \<Rightarrow> string \<Rightarrow> (json \<times> string) option"
and json_items :: "(string \<Rightarrow> string) \<Rightarrow> nat \<Rightarrow> string \<Rightarrow> (json list \<times> string) option"
and json_members :: "(string \<Rightarrow> string) \<Rightarrow> nat \<Rightarrow> string \<Rightarrow> ((string \<times> json) list \<times> string) option"
where
  "json_value fr 0 s = None"
| "json_value fr (Suc n) s =
     (case s of
        [] \<Rightarrow> None
      | c # cs \<Rightarrow>
          if c = dq then map_option (apfst JStr) (json_string cs)
          else if c = CHR ''['' then
            (case skip_ws cs of
               [] \<Rightarrow> None
             | d # ds \<Rightarrow> if d = CHR '']'' then Some (JArr [], ds)
                         else map_option (apfst JArr) (json_items fr n (d # ds)))
          else if c = CHR ''{'' then
            (case skip_ws cs of
               [] \<Rightarrow> None
             | d # ds \<Rightarrow> if d = CHR ''}'' then Some (JObj [], ds)
                         else if d = dq then map_option (apfst (JObj \<circ> dict_update [])) (json_members fr n ds)
                         else None)
          else (case json_number fr s of Some r \<Rightarrow> Some r | None \<Rightarrow> json_constant s))"
| "json_items fr 0 s = None"
| "json_items fr (Suc n) s =
     (case json_value fr n s of
        None \<Rightarrow> None
      | Some (v, r) \<Rightarrow>
          (case skip_ws r of
             [] \<Rightarrow> None
           | d # ds \<Rightarrow> if d = CHR '']'' then Some ([v], ds)
                       else if d = CHR '','' then map_option (apfst ((#) v)) (json_items fr n (skip_ws ds))
                       else None))"
| "json_members fr 0 s = None"
| "json_members fr (Suc n) s =
     (case json_string s of
        None \<Rightarrow> None
      | Some (k, r) \<Rightarrow>
          (case skip_ws r of
             [] \<Rightarrow> None
           | c # cs \<Rightarrow>
               if c \<noteq> CHR '':'' then None
               else (case json_value fr n (skip_ws cs) of
                       None \<Rightarrow> None
                     | Some (v, r2) \<Rightarrow>
                         (case skip_ws r2 of
                            [] \<Rightarrow> None
                          | d # ds \<Rightarrow>
                              if d = CHR ''}'' then Some ([(k, v)], ds)
                              else if d = CHR '','' then
                                (case skip_ws ds of
                                   [] \<Rightarrow> None
                                 | q # qs \<Rightarrow> if q = dq then map_option (apfst ((#) (k, v))) (json_members fr n qs) else None)
                              else None))))"

definition json_loads :: "(string \<Rightarrow> string) \<Rightarrow> string \<Rightarrow> json option" where
  "json_loads fr s =
     (case json_value fr (Suc (length s)) (skip_ws s) of
        None \<Rightarrow> None
      | Some (v, rest) \<Rightarrow> if skip_ws rest = [] then Some v else None)"

section \<open>Round trip\<close>

definition float_ok :: "(string \<Rightarrow> string) \<Rightarrow> string \<Rightarrow> bool" where
  \<comment> \<open>the JSON text of a float, which reads back as itself\<close>
  "float_ok fr f \<longleftrightarrow>
     f \<in> {''NaN'', ''Infinity'', ''-Infinity''} \<or> json_number fr f = Some (JFloat f, [])"

fun json_ok :: "(string \<Rightarrow> string) \<Rightarrow> json \<Rightarrow> bool" where
  \<comment> \<open>a value of Python: floats by their text, dicts without repeated keys\<close>
  "json_ok fr (JFloat f) = float_ok fr f"
| "json_ok fr (JArr xs) = list_all (json_ok fr) xs"
| "json_ok fr (JObj kvs) = (distinct (map fst kvs) \<and> list_all (\<lambda>kv. json_ok fr (snd kv)) kvs)"
| "json_ok fr v = True"

definition ends_value :: "string \<Rightarrow> bool" where
  \<comment> \<open>what may follow a value\<close>
  "ends_value s \<longleftrightarrow> (case s of [] \<Rightarrow> True | c # _ \<Rightarrow> c \<in> {CHR '','', CHR '']'', CHR ''}''})"

lemma hex_value_digit:
  assumes "n < 16"
  shows "hex_value (hex_digit n) = Some n"
proof (cases "n < 10")
  case True
  then have "of_char (hex_digit n) = 48 + n" by (simp add: hex_digit_def of_char_of)
  with True show ?thesis by (simp add: hex_value_def Let_def)
next
  case False
  with assms have "of_char (hex_digit n) = 87 + n" by (simp add: hex_digit_def of_char_of)
  with False assms show ?thesis by (simp add: hex_value_def Let_def)
qed

lemma hex_value_0 [simp]: "hex_value (CHR ''0'') = Some 0"
  by (simp add: hex_value_def)

lemma char_of_code: "(of_char c :: nat) = n \<Longrightarrow> c = char_of n"
  by (metis char_of_char)

lemma code_charD:
  "(of_char c :: nat) = 8 \<Longrightarrow> c = CHR 0x08" "(of_char c :: nat) = 9 \<Longrightarrow> c = CHR 0x09"
  "(of_char c :: nat) = 10 \<Longrightarrow> c = CHR 0x0A" "(of_char c :: nat) = 12 \<Longrightarrow> c = CHR 0x0C"
  "(of_char c :: nat) = 13 \<Longrightarrow> c = CHR 0x0D"
  by (drule char_of_code, simp add: char_of_def bit_iff_odd)+

lemma json_string_escape: "json_string (json_escape c @ s) = map_option (apfst ((#) c)) (json_string s)"
proof -
  let ?n = "of_char c :: nat"
  have n: "?n < 256" by simp
  have div: "?n div 16 < 16" using n by linarith
  have h: "hex4 (CHR ''0'') (CHR ''0'') (hex_digit (?n div 16)) (hex_digit (?n mod 16)) = Some c"
    using hex_value_digit [OF div] hex_value_digit [of "?n mod 16"] by (simp add: hex4_def)
  consider "c = dq" | "c = bslash" | "?n \<in> {8, 9, 10, 12, 13}" | "c \<noteq> dq" "c \<noteq> bslash" "32 \<le> ?n" "?n \<le> 126"
    | "c \<noteq> dq" "c \<noteq> bslash" "?n \<notin> {8, 9, 10, 12, 13}" "\<not> (32 \<le> ?n \<and> ?n \<le> 126)" by blast
  then show ?thesis
  proof cases
    case 1 then show ?thesis by (simp add: json_escape_def json_unescape_def)
  next
    case 2 then show ?thesis by (simp add: json_escape_def json_unescape_def)
  next
    case 3
    then have "c \<in> {CHR 0x08, CHR 0x09, CHR 0x0A, CHR 0x0C, CHR 0x0D}"
      by (auto dest: code_charD)
    then show ?thesis by (auto simp: json_escape_def json_unescape_def)
  next
    case 4 then show ?thesis by (simp add: json_escape_def)
  next
    case 5 then show ?thesis by (auto simp: json_escape_def h Let_def)
  qed
qed

lemma json_string_quote [simp]: "json_string (concat (map json_escape s) @ dq # r) = Some (s, r)"
  by (induction s) (simp_all add: json_string_escape)

lemma takeWhile_digits_end: "ends_value r \<Longrightarrow> takeWhile is_digit (s @ r) = takeWhile is_digit s"
  by (induction s) (auto simp: ends_value_def is_digit_def split: list.splits)

lemma int_part_end:
  assumes "ends_value r"
  shows "int_part (s @ r) = int_part s"
proof (cases s)
  case Nil
  with assms show ?thesis by (auto simp: int_part_def ends_value_def is_digit_def split: list.splits)
next
  case (Cons c cs)
  then show ?thesis using takeWhile_digits_end [OF assms, of s] by (simp add: int_part_def)
qed

lemma frac_part_end: "ends_value r \<Longrightarrow> frac_part (s @ r) = frac_part s"
  by (cases s) (auto simp: frac_part_def takeWhile_digits_end, auto simp: ends_value_def split: list.splits)

lemma exp_part_end:
  assumes "ends_value r"
  shows "exp_part (s @ r) = exp_part s"
proof (cases s)
  case Nil
  with assms show ?thesis by (auto simp: exp_part_def ends_value_def split: list.splits)
next
  case (Cons c cs)
  show ?thesis
  proof (cases cs)
    case Nil
    with assms Cons show ?thesis
      by (auto simp: exp_part_def ends_value_def Let_def is_digit_def split: list.splits)
  next
    case (Cons x xs)
    then show ?thesis
      using takeWhile_digits_end [OF assms, of cs] takeWhile_digits_end [OF assms, of xs] \<open>s = c # cs\<close>
      by (simp add: exp_part_def Let_def)
  qed
qed

lemma drop_end: "length xs \<le> length s \<Longrightarrow> drop (length xs) (s @ r) = drop (length xs) s @ r"
  by simp

lemma part_lengths: "length (int_part s) \<le> length s" "length (frac_part s) \<le> length s" "length (exp_part s) \<le> length s"
proof -
  show "length (int_part s) \<le> length s"
    by (cases s) (auto simp: int_part_def length_takeWhile_le le_SucI)
  show "length (frac_part s) \<le> length s"
    by (cases s) (auto simp: frac_part_def length_takeWhile_le)
  show "length (exp_part s) \<le> length s"
    by (cases s; cases "tl s")
       (auto simp: exp_part_def Let_def length_takeWhile_le le_SucI)
qed

lemma number_body_end:
  assumes "ends_value r"
  shows "number_body fr neg (s @ r) = map_option (apsnd (\<lambda>t. t @ r)) (number_body fr neg s)"
proof -
  note ends = int_part_end [OF assms] frac_part_end [OF assms] exp_part_end [OF assms]
  have d: "drop (length (f s)) (s @ r) = drop (length (f s)) s @ r" if "length (f s) \<le> length s" for f :: "string \<Rightarrow> string" and s
    using that by simp
  show ?thesis
    unfolding number_body_def Let_def ends d [of int_part, OF part_lengths(1)]
      d [of frac_part, OF part_lengths(2)] d [of exp_part, OF part_lengths(3)]
    by (cases "frac_part (drop (length (int_part s)) s)") (simp_all del: drop_drop)
qed

lemma json_number_end:
  assumes "ends_value r" and "s \<noteq> []"
  shows "json_number fr (s @ r) = map_option (apsnd (\<lambda>t. t @ r)) (json_number fr s)"
  using assms number_body_end [OF assms(1), of fr False s] number_body_end [OF assms(1), of fr True "tl s"]
  by (cases s) (simp_all add: json_number_def)

lemma show_nat_head: "0 < n \<Longrightarrow> hd (show_nat n) \<noteq> CHR ''0''"
proof (induction n rule: show_nat.induct)
  case (1 n)
  show ?case
  proof (cases "n < 10")
    case True
    with 1(2) have "digit_char n \<noteq> CHR ''0''"
      using digit_char_val [of n] by (auto simp del: digit_char_val)
    with True show ?thesis by (simp add: show_nat.simps [of n])
  next
    case False
    then show ?thesis using 1(1) by (simp add: show_nat.simps [of n])
  qed
qed

lemma int_part_show_nat: "int_part (show_nat n) = show_nat n"
proof (cases "n = 0")
  case True
  then show ?thesis by (simp add: show_nat.simps digit_chars int_part_def)
next
  case False
  with show_nat_head [of n] have "int_part (show_nat n) = takeWhile is_digit (show_nat n)"
    using show_nat_nonempty [of n] by (cases "show_nat n") (auto simp: int_part_def)
  then show ?thesis using show_nat_digits [of n] by (simp add: list_all_iff takeWhile_eq_all_conv)
qed

lemma number_body_show_nat:
  "number_body fr neg (show_nat n) = Some (JInt (if neg then - int n else int n), [])"
  by (simp add: number_body_def Let_def int_part_show_nat frac_part_def exp_part_def)

lemma json_number_show_int: "json_number fr (show_int i) = Some (JInt i, [])"
proof (cases "i < 0")
  case True
  then show ?thesis by (simp add: json_number_def show_int_def number_body_show_nat)
next
  case False
  obtain c cs where c: "show_nat (nat i) = c # cs" using show_nat_nonempty [of "nat i"] by (cases "show_nat (nat i)") auto
  then have "is_digit c" using show_nat_digits [of "nat i"] by simp
  then have "c \<noteq> CHR ''-''" by (auto simp: is_digit_def)
  with False c number_body_show_nat [of fr False "nat i"] show ?thesis
    by (simp add: json_number_def show_int_def)
qed

definition separators :: "string \<Rightarrow> string \<Rightarrow> bool" where
  "separators isep ksep \<longleftrightarrow> (isep, ksep) \<in> {('', '', '': ''), ('','', '':'')}"

definition value_head :: "char \<Rightarrow> bool" where
  \<comment> \<open>what a value's text starts with: never white space or a closing bracket\<close>
  "value_head c \<longleftrightarrow> \<not> json_ws c \<and> c \<noteq> CHR '']'' \<and> c \<noteq> CHR ''}''"

lemma skip_ws_Cons [simp]: "\<not> json_ws c \<Longrightarrow> skip_ws (c # s) = c # s"
  by (simp add: skip_ws_def)

lemma not_ws [simp]:
  "\<not> json_ws dq" "\<not> json_ws (CHR '','')" "\<not> json_ws (CHR '']'')" "\<not> json_ws (CHR ''}'')" "\<not> json_ws (CHR '':'')"
  by (simp_all add: json_ws_def)

lemma skip_ws_seps:
  "value_head c \<Longrightarrow> skip_ws (CHR '' '' # c # s) = c # s" "value_head c \<Longrightarrow> skip_ws (c # s) = c # s"
  "skip_ws (CHR '' '' # dq # s) = dq # s"
  by (simp_all add: skip_ws_def value_head_def json_ws_def)

lemma join_text_Cons: "join_text sep (x # xs) = (if xs = [] then x else x @ sep @ join_text sep xs)"
  by (cases xs) simp_all

lemma json_number_digit: "json_number fr s = Some r \<Longrightarrow> \<exists>c cs. s = c # cs \<and> (c = CHR ''-'' \<or> is_digit c)"
  by (cases s) (auto simp: json_number_def number_body_def int_part_def Let_def split: if_splits)

lemma number_text:
  assumes "json_number fr t = Some (v, [])"
  obtains c cs where "t = c # cs" and "value_head c" and "c \<noteq> dq" and "c \<noteq> CHR ''[''" and "c \<noteq> CHR ''{''"
proof -
  from json_number_digit [OF assms] obtain c cs where "t = c # cs" and "c = CHR ''-'' \<or> is_digit c" by blast
  then show thesis by (intro that [of c cs]) (auto simp: is_digit_def value_head_def json_ws_def)
qed

lemma json_value_number:
  assumes n: "json_number fr t = Some (v, [])" and r: "ends_value r"
  shows "json_value fr (Suc n) (t @ r) = Some (v, r)"
proof -
  obtain c cs where t: "t = c # cs" and c: "c \<noteq> dq" "c \<noteq> CHR ''[''" "c \<noteq> CHR ''{''"
    using number_text [OF n] by blast
  have "json_number fr (t @ r) = Some (v, r)"
    using json_number_end [OF r, of t fr] n t by simp
  with t c show ?thesis by simp
qed

lemma json_head:
  assumes "json_ok fr v"
  obtains c cs where "json_text isep ksep v = c # cs" and "value_head c"
proof (cases v)
  case (JBool b)
  then show thesis using that by (cases b) (auto simp: value_head_def json_ws_def)
next
  case (JInt i)
  then show thesis using that by (auto intro: number_text [OF json_number_show_int [of fr i]])
next
  case (JFloat f)
  with assms show thesis
    using that by (auto simp: float_ok_def value_head_def json_ws_def elim: number_text [of fr f "JFloat f"])
qed (use that in \<open>auto simp: value_head_def json_ws_def json_quote_def\<close>)

lemma ends_seps: "separators isep ksep \<Longrightarrow> ends_value (isep @ s)"
  by (auto simp: separators_def ends_value_def)

lemma ends_close [simp]: "ends_value (CHR '']'' # s)" "ends_value (CHR ''}'' # s)" "ends_value []"
  by (simp_all add: ends_value_def)

lemma skip_isep:
  assumes "separators isep ksep" and "json_ok fr v"
  shows "\<exists>s'. isep @ json_text isep ksep v @ s = CHR '','' # s' \<and> skip_ws s' = json_text isep ksep v @ s"
proof -
  obtain c cs where "json_text isep ksep v = c # cs" and "value_head c" by (rule json_head [OF assms(2)])
  with assms(1) show ?thesis by (auto simp: separators_def skip_ws_seps)
qed

lemma skip_ksep:
  assumes "separators isep ksep" and "json_ok fr v"
  shows "\<exists>s'. ksep @ json_text isep ksep v @ s = CHR '':'' # s' \<and> skip_ws s' = json_text isep ksep v @ s"
proof -
  obtain c cs where "json_text isep ksep v = c # cs" and "value_head c" by (rule json_head [OF assms(2)])
  with assms(1) show ?thesis by (auto simp: separators_def skip_ws_seps)
qed

lemma json_items_text:
  assumes sep: "separators isep ksep"
    and IH: "\<And>x r n. x \<in> set xs \<Longrightarrow> json_ok fr x \<Longrightarrow> ends_value r \<Longrightarrow> length (json_text isep ksep x) < n \<Longrightarrow>
               json_value fr n (json_text isep ksep x @ r) = Some (x, r)"
    and "xs \<noteq> []" and "list_all (json_ok fr) xs"
    and "length (join_text isep (map (json_text isep ksep) xs)) + 1 < n"
  shows "json_items fr n (join_text isep (map (json_text isep ksep) xs) @ CHR '']'' # r) = Some (xs, r)"
  using assms(2-)
proof (induction xs arbitrary: n)
  case (Cons x xs)
  then obtain m where n: "n = Suc m" by (cases n) auto
  show ?case
  proof (cases xs)
    case Nil
    with Cons.prems n show ?thesis by simp
  next
    case (Cons y ys)
    let ?J = "join_text isep (map (json_text isep ksep) xs)"
    from Cons.prems have ok: "json_ok fr x" "json_ok fr y" "list_all (json_ok fr) xs" by (simp_all add: Cons)
    have J: "?J @ t = json_text isep ksep y @ (if ys = [] then t else isep @ join_text isep (map (json_text isep ksep) ys) @ t)" for t
      by (simp add: Cons join_text_Cons)
    obtain s' where s': "isep @ ?J @ CHR '']'' # r = CHR '','' # s'" "skip_ws s' = ?J @ CHR '']'' # r"
      using skip_isep [OF sep ok(2)] unfolding J by blast
    have v: "json_value fr m (json_text isep ksep x @ isep @ ?J @ CHR '']'' # r) = Some (x, isep @ ?J @ CHR '']'' # r)"
      using Cons.prems(4) by (intro Cons.prems(1)) (simp_all add: ok ends_seps [OF sep] Cons n)
    have "isep \<noteq> []" using sep by (auto simp: separators_def)
    then have "length ?J + 1 < m" using Cons.prems(4) by (cases isep) (simp_all add: Cons n)
    with Cons.prems(1) ok(3) have i: "json_items fr m (?J @ CHR '']'' # r) = Some (xs, r)"
      by (intro Cons.IH) (simp_all add: Cons)
    have "join_text isep (map (json_text isep ksep) (x # xs)) @ CHR '']'' # r = json_text isep ksep x @ isep @ ?J @ CHR '']'' # r"
      by (simp add: Cons)
    then show ?thesis using v i s' by (simp only: n) simp
  qed
qed simp

lemma json_members_text:
  assumes sep: "separators isep ksep"
    and IH: "\<And>kv r n. kv \<in> set kvs \<Longrightarrow> json_ok fr (snd kv) \<Longrightarrow> ends_value r \<Longrightarrow> length (json_text isep ksep (snd kv)) < n \<Longrightarrow>
               json_value fr n (json_text isep ksep (snd kv) @ r) = Some (snd kv, r)"
    and "kvs \<noteq> []" and "list_all (\<lambda>kv. json_ok fr (snd kv)) kvs"
    and "length (join_text isep (map (\<lambda>(k, v). json_quote k @ ksep @ json_text isep ksep v) kvs)) + 1 < n"
  shows "\<exists>t. join_text isep (map (\<lambda>(k, v). json_quote k @ ksep @ json_text isep ksep v) kvs) @ CHR ''}'' # r = dq # t \<and>
    json_members fr n t = Some (kvs, r)"
  using assms(2-)
proof (induction kvs arbitrary: n)
  case (Cons kv kvs)
  let ?M = "\<lambda>kvs. join_text isep (map (\<lambda>(k, v). json_quote k @ ksep @ json_text isep ksep v) kvs)"
  obtain k v where kv: "kv = (k, v)" by fastforce
  let ?tail = "if kvs = [] then CHR ''}'' # r else isep @ ?M kvs @ CHR ''}'' # r"
  from Cons.prems obtain m where n: "n = Suc m" by (cases n) auto
  from Cons.prems have ok: "json_ok fr v" "list_all (\<lambda>kv. json_ok fr (snd kv)) kvs" by (simp_all add: kv)
  have whole: "?M (kv # kvs) @ CHR ''}'' # r = dq # concat (map json_escape k) @ dq # ksep @ json_text isep ksep v @ ?tail"
    by (simp add: join_text_Cons kv json_quote_def)
  obtain s1 where s1: "ksep @ json_text isep ksep v @ ?tail = CHR '':'' # s1"
    "skip_ws s1 = json_text isep ksep v @ ?tail"
    using skip_ksep [OF sep ok(1)] by blast
  have val: "json_value fr m (json_text isep ksep v @ ?tail) = Some (v, ?tail)"
    using Cons.prems(1) [of kv ?tail m] Cons.prems(4) ok(1) ends_seps [OF sep] by (simp add: kv n join_text_Cons json_quote_def split: if_splits)
  show ?case
  proof (cases "kvs = []")
    case True
    with val s1 show ?thesis unfolding whole by (simp add: n kv)
  next
    case False
    have "isep \<noteq> []" using sep by (auto simp: separators_def)
    then have "length (?M kvs) + 1 < m"
      using Cons.prems(4) False by (cases isep) (simp_all add: n join_text_Cons json_quote_def kv)
    then obtain t where t: "?M kvs @ CHR ''}'' # r = dq # t" "json_members fr m t = Some (kvs, r)"
      using Cons.IH [of m] Cons.prems(1) False ok(2) by auto
    obtain s2 where s2: "?tail = CHR '','' # s2" "skip_ws s2 = dq # t"
      using sep False t(1) by (auto simp: separators_def skip_ws_seps)
    from val s1 t(2) s2(2) show ?thesis unfolding whole s2(1) by (simp add: n kv)
  qed
qed simp

lemma json_value_text:
  assumes sep: "separators isep ksep"
  shows "json_ok fr v \<Longrightarrow> ends_value r \<Longrightarrow> length (json_text isep ksep v) < n \<Longrightarrow>
    json_value fr n (json_text isep ksep v @ r) = Some (v, r)"
proof (induction v arbitrary: r n)
  case (JFloat f)
  from JFloat(3) obtain m where n: "n = Suc m" by (cases n) auto
  from JFloat(1) consider "f \<in> {''NaN'', ''Infinity'', ''-Infinity''}" | "json_number fr f = Some (JFloat f, [])"
    by (auto simp: float_ok_def)
  then show ?case
  proof cases
    case 1
    then show ?thesis
      by (auto simp: n json_number_def number_body_def int_part_def Let_def is_digit_def json_constant_def)
  next
    case 2
    then show ?thesis using json_value_number [OF 2 JFloat(2)] by (simp add: n)
  qed
next
  case (JInt i)
  then obtain m where n: "n = Suc m" by (cases n) auto
  show ?case using json_value_number [OF json_number_show_int JInt(2)] by (simp add: n)
next
  case (JArr xs)
  then obtain m where n: "n = Suc m" by (cases n) auto
  show ?case
  proof (cases "xs = []")
    case False
    then obtain x xs' where xs: "xs = x # xs'" by (cases xs) auto
    let ?t = "join_text isep (map (json_text isep ksep) xs) @ CHR '']'' # r"
    have items: "json_items fr m ?t = Some (xs, r)"
      using JArr by (intro json_items_text [OF sep _ False]) (auto simp: n)
    from JArr(2) have "json_ok fr x" by (simp add: xs)
    then obtain c cs where "json_text isep ksep x = c # cs" "value_head c" by (rule json_head)
    then obtain t where "?t = c # t" "\<not> json_ws c" "c \<noteq> CHR '']''"
      by (cases "xs' = []") (auto simp: xs join_text_Cons value_head_def)
    with items show ?thesis by (simp add: n)
  qed (simp add: n)
next
  case (JObj kvs)
  then obtain m where n: "n = Suc m" by (cases n) auto
  show ?case
  proof (cases "kvs = []")
    case False
    have IH: "json_value fr k (json_text isep ksep (snd kv) @ r') = Some (snd kv, r')"
      if "kv \<in> set kvs" "json_ok fr (snd kv)" "ends_value r'" "length (json_text isep ksep (snd kv)) < k" for kv r' k
      using JObj(1) [of kv "snd kv" r' k] that by (cases kv) (auto simp: snds.simps)
    obtain t where t: "join_text isep (map (\<lambda>(k, v). json_quote k @ ksep @ json_text isep ksep v) kvs) @ CHR ''}'' # r = dq # t"
      "json_members fr m t = Some (kvs, r)"
      using json_members_text [OF sep IH False, of m r] JObj(2,4) by (auto simp: n)
    have "distinct (map fst kvs)" using JObj(2) by simp
    with t show ?thesis by (simp add: n dict_update_same)
  qed (simp add: n)
next
  case JNull
  then show ?case by (cases n) (simp_all add: json_number_def number_body_def int_part_def is_digit_def json_constant_def)
next
  case (JBool b)
  then show ?case
    by (cases n; cases b) (simp_all add: json_number_def number_body_def int_part_def is_digit_def json_constant_def)
next
  case (JStr s)
  then show ?case by (cases n) (simp_all add: json_quote_def)
qed

lemma json_loads_text:
  assumes "separators isep ksep" and "json_ok fr v"
  shows "json_loads fr (json_text isep ksep v) = Some v"
proof -
  obtain c cs where "json_text isep ksep v = c # cs" "value_head c" by (rule json_head [OF assms(2)])
  then have "skip_ws (json_text isep ksep v) = json_text isep ksep v" by (simp add: value_head_def)
  then show ?thesis
    using json_value_text [OF assms, of "[]" "Suc (length (json_text isep ksep v))"]
    by (simp add: json_loads_def skip_ws_def)
qed

lemma json_loads_dumps [simp]: "json_ok fr v \<Longrightarrow> json_loads fr (json_dumps v) = Some v"
  and json_loads_compact [simp]: "json_ok fr v \<Longrightarrow> json_loads fr (json_compact v) = Some v"
  by (simp_all add: json_loads_text separators_def)

end
