(* ===== verification/Server_Db.thy ===== *)
theory Server_Db
  imports Json "HOL-Library.Multiset"
begin

text \<open>
  The catalog database the services share (one SQLite connection): the tables
  \<open>audit_log\<close>, \<open>providers\<close> and \<open>identity_maps\<close> as lists of rows in rowid order, with the
  \<open>AUTOINCREMENT\<close> sequences, and the statements the services build: insert under a \<open>UNIQUE\<close>
  key, select and update by key, filter, \<open>ORDER BY ... LIMIT ? OFFSET ?\<close>. The clock
  (formatted to the second, by Python or by \<open>datetime('now')\<close>), \<open>uuid4\<close> and the
  float reader of \<open>json\<close> are parameters; the k-th reading of the clock is \<open>se_clock env k\<close>.
\<close>

section \<open>Rows\<close>

text \<open>
  A row and the dict a service returns for it differ in the columns the service converts
  (JSON text parsed, 0/1 as a bool): the type parameters.
\<close>

record 'd audit_rec =
  au_id :: int
  au_timestamp :: string
  au_event_type :: string
  au_actor :: string
  au_namespace :: string
  au_resource_type :: "string option"
  au_resource_name :: "string option"
  au_detail :: 'd
  au_trace_id :: string

type_synonym audit_row = "string option audit_rec"
type_synonym audit_entry = "json audit_rec"

record ('e, 's) provider_rec =
  pr_id :: int
  pr_name :: string
  pr_namespace :: string
  pr_provider_type :: string
  pr_endpoint :: "string option"
  pr_credentials_ref :: "string option"
  pr_timeout_ms :: "int option"
  pr_health_state :: string
  pr_entity_key_type :: "string option"
  pr_resource_shape :: 's
  pr_trust_tier :: "string option"
  pr_enabled :: 'e
  pr_registered_at :: string
  pr_updated_at :: string
  pr_last_success_at :: "string option"
  pr_last_failure_at :: "string option"

type_synonym provider_row = "(int, string option) provider_rec"
type_synonym provider_dict = "(bool, json) provider_rec"

text \<open>A Python float where it is stored: SQLite has no NaN and stores \<open>NULL\<close>.\<close>

datatype real_value = Finite rat | Infinite bool | NotANumber

fun bind_real :: "real_value \<Rightarrow> real_value option" where
  "bind_real NotANumber = None"
| "bind_real x = Some x"

record identity_row =
  im_id :: int
  im_name :: string
  im_namespace :: string
  im_source_system :: string
  im_source_entity_path :: string
  im_target_system :: string
  im_target_entity_path :: string
  im_matching_mode :: string
  im_confidence :: "real_value option"
  im_description :: "string option"
  im_version :: int
  im_created_at :: string
  im_updated_at :: string

record server_db =
  sd_audit :: "audit_row list"
  sd_audit_seq :: int
  sd_providers :: "provider_row list"
  sd_providers_seq :: int
  sd_identity :: "identity_row list"
  sd_identity_seq :: int
  sd_reads :: nat
  sd_uuids :: nat

record svc_env =
  se_clock :: "nat \<Rightarrow> string"
  se_uuid :: "nat \<Rightarrow> string"
  se_float :: "string \<Rightarrow> string"
  se_audit_on :: bool  \<comment> \<open>whether the service was given an audit service\<close>

type_synonym 'a svc = "(py_exc, server_db, 'a) prog"

definition read_clock :: "svc_env \<Rightarrow> string svc" where
  "read_clock env = (\<lambda>s. (Inr (se_clock env (sd_reads s)), s\<lparr>sd_reads := Suc (sd_reads s)\<rparr>))"

definition new_uuid :: "svc_env \<Rightarrow> string svc" where
  "new_uuid env = (\<lambda>s. (Inr (se_uuid env (sd_uuids s)), s\<lparr>sd_uuids := Suc (sd_uuids s)\<rparr>))"

lemma read_clock_run [simp]:
  "read_clock env s = (Inr (se_clock env (sd_reads s)), s\<lparr>sd_reads := Suc (sd_reads s)\<rparr>)"
  by (simp add: read_clock_def)

lemma new_uuid_run [simp]:
  "new_uuid env s = (Inr (se_uuid env (sd_uuids s)), s\<lparr>sd_uuids := Suc (sd_uuids s)\<rparr>)"
  by (simp add: new_uuid_def)

section \<open>Binding integers\<close>

text \<open>SQLite integers have 64 bits; binding a larger Python int raises before the statement runs.\<close>

definition overflow_error :: py_exc where
  "overflow_error = OtherError ''OverflowError'' ''Python int too large to convert to SQLite INTEGER''"

definition int64_ok :: "int \<Rightarrow> bool" where
  "int64_ok i \<longleftrightarrow> - (2 ^ 63) \<le> i \<and> i < 2 ^ 63"

definition bind_int :: "int \<Rightarrow> (py_exc, 's, unit) prog" where
  "bind_int i = guardP (int64_ok i) overflow_error"

section \<open>Statements on a table\<close>

definition insert_unique :: "('r \<Rightarrow> 'k) \<Rightarrow> string \<Rightarrow> 'r \<Rightarrow> 'r list \<Rightarrow> py_exc + 'r list" where
  "insert_unique key cols r rows =
     (if key r \<in> set (map key rows)
      then Inl (IntegrityError (''UNIQUE constraint failed: '' @ cols))
      else Inr (rows @ [r]))"

definition select_key :: "('r \<Rightarrow> 'k) \<Rightarrow> 'k \<Rightarrow> 'r list \<Rightarrow> 'r option" where
  "select_key key k rows = find (\<lambda>r. key r = k) rows"

definition update_key :: "('r \<Rightarrow> 'k) \<Rightarrow> 'k \<Rightarrow> ('r \<Rightarrow> 'r) \<Rightarrow> 'r list \<Rightarrow> 'r list" where
  "update_key key k f rows = map (\<lambda>r. if key r = k then f r else r) rows"

definition opt_filter :: "'v option \<Rightarrow> ('r \<Rightarrow> 'v) \<Rightarrow> 'r \<Rightarrow> bool" where
  \<comment> \<open>an optional \<open>column = ?\<close> clause\<close>
  "opt_filter x col r = (case x of None \<Rightarrow> True | Some v \<Rightarrow> col r = v)"

text \<open>
  \<open>ORDER BY name\<close> leaves the order of rows with one name to the query plan: \<open>scan\<close> is the
  order in which the plan visits the rows.
\<close>

definition page_by_name :: "('r list \<Rightarrow> 'r list) \<Rightarrow> ('r \<Rightarrow> string) \<Rightarrow> int \<Rightarrow> int \<Rightarrow> 'r list \<Rightarrow> 'r list" where
  "page_by_name scan name lmt off rows = sql_page lmt off (sort_key name (scan rows))"

definition scan_ok :: "('r list \<Rightarrow> 'r list) \<Rightarrow> bool" where
  "scan_ok scan \<longleftrightarrow> (\<forall>rows. mset (scan rows) = mset rows)"

lemma scan_ok_id: "scan_ok (\<lambda>rows. rows)"
  by (simp add: scan_ok_def)

section \<open>What the statements do\<close>

lemma insert_unique_Inr:
  "insert_unique key cols r rows = Inr rows' \<longleftrightarrow> key r \<notin> set (map key rows) \<and> rows' = rows @ [r]"
  by (auto simp: insert_unique_def)

lemma insert_unique_fresh [simp]: "key r \<notin> key ` set rows \<Longrightarrow> insert_unique key cols r rows = Inr (rows @ [r])"
  by (simp add: insert_unique_def)

lemma insert_unique_taken:
  "key r \<in> key ` set rows \<Longrightarrow>
   insert_unique key cols r rows = Inl (IntegrityError (''UNIQUE constraint failed: '' @ cols))"
  by (simp add: insert_unique_def)

lemma select_key_None: "select_key key k rows = None \<longleftrightarrow> k \<notin> key ` set rows"
  by (auto simp: select_key_def find_None_iff)

lemma select_key_Some: "select_key key k rows = Some r \<Longrightarrow> r \<in> set rows \<and> key r = k"
  by (auto simp: select_key_def find_Some_iff in_set_conv_nth)

lemma select_key_append:
  "select_key key k (rows @ [r]) =
     (case select_key key k rows of Some x \<Rightarrow> Some x | None \<Rightarrow> if key r = k then Some r else None)"
  by (induction rows) (simp_all add: select_key_def)

lemma select_key_map:
  "(\<And>r. key (f r) = key r) \<Longrightarrow> select_key key k (map f rows) = map_option f (select_key key k rows)"
  by (induction rows) (simp_all add: select_key_def)

lemma select_key_update:
  assumes "\<And>r. key (f r) = key r"
  shows "select_key key k (update_key key k' f rows) =
     (if k = k' then map_option f (select_key key k rows) else select_key key k rows)"
proof -
  have "select_key key k (update_key key k' f rows) =
      map_option (\<lambda>r. if key r = k' then f r else r) (select_key key k rows)"
    unfolding update_key_def by (rule select_key_map) (simp add: assms)
  then show ?thesis
    using select_key_Some [of key k rows] by (cases "select_key key k rows") auto
qed

lemma update_key_keys: "(\<And>r. key (f r) = key r) \<Longrightarrow> map key (update_key key k f rows) = map key rows"
  by (simp add: update_key_def)

lemma update_key_column: "(\<And>r. col (f r) = col r) \<Longrightarrow> map col (update_key key k f rows) = map col rows"
  by (simp add: update_key_def)

lemma page_by_name_set:
  "scan_ok scan \<Longrightarrow> set (page_by_name scan name lmt off rows) \<subseteq> set rows"
  unfolding page_by_name_def scan_ok_def
  by (metis set_mset_mset set_sort set_sql_page)

lemma page_by_name_all:
  assumes "scan_ok scan" and "int (length rows) \<le> lmt"
  shows "mset (page_by_name scan name lmt 0 rows) = mset rows"
    and "sorted (map name (page_by_name scan name lmt 0 rows))"
proof -
  have "length (scan rows) = length rows" using assms(1) by (metis scan_ok_def size_mset)
  with assms(2) have "page_by_name scan name lmt 0 rows = sort_key name (scan rows)"
    by (simp add: page_by_name_def sql_page_def)
  with assms(1) show "mset (page_by_name scan name lmt 0 rows) = mset rows"
    and "sorted (map name (page_by_name scan name lmt 0 rows))"
    by (simp_all add: scan_ok_def)
qed

lemma sorted_last_max:
  fixes f :: "'a \<Rightarrow> 'b :: linorder"
  shows "sorted (map f xs) \<Longrightarrow> x \<in> set xs \<Longrightarrow> f x \<le> f (last xs)"
  by (induction xs) (auto split: if_splits)

text \<open>Reading page after page gives the whole listing, in order and without repetition.\<close>

lemma sql_pages_concat:
  assumes "0 < l"
  shows "concat (map (\<lambda>i. sql_page l (int i * l) xs) [0..<n]) = take (n * nat l) xs"
proof (induction n)
  case (Suc n)
  have "sql_page l (int n * l) xs = take (nat l) (drop (n * nat l) xs)"
    using assms by (simp add: sql_page_def Let_def nat_mult_distrib)
  with Suc show ?case by (simp add: add.commute [of "nat l"] take_add)
qed simp

end
