(* ===== verification/Context_Db.thy ===== *)
theory Context_Db
  imports Wire_Models Server_Db
begin

text \<open>
  The tables of the context runtime (\<open>app/db/migrations\<close> 001 to 003): \<open>contexts\<close>,
  \<open>context_snapshots\<close>, \<open>context_snapshot_payloads\<close> and \<open>context_membership_history\<close>, as lists of rows in
  rowid order, and statements that may fail: SQLite can raise at any statement (a lock, a full
  disk), which \<open>fault k\<close> says for the k-th statement of an operation, an integer beyond 64 bits cannot be
  bound, and a statement that would break a \<open>UNIQUE\<close> index raises \<open>IntegrityError\<close> and has no effect.
  Columns that no statement of the repository writes or reads are left out.
\<close>

section \<open>Rows\<close>

record context_row =
  cx_id :: int
  cx_name :: string
  cx_namespace :: string
  cx_version :: int
  cx_definition_text :: string
  cx_entity_key :: string
  cx_has_score :: int
  cx_score_column :: "string option"
  cx_description :: "string option"
  cx_tags :: "string option"
  cx_classification :: "string option"
  cx_lifecycle_state :: string
  cx_dependency_refs :: "string option"
  cx_provider_refs :: "string option"
  cx_created_at :: string
  cx_updated_at :: string
  cx_last_validated_at :: "string option"
  cx_last_executed_at :: "string option"
  cx_freshness_metadata :: "string option"
  cx_context_id :: "string option"
  cx_definition_hash :: "string option"
  cx_raw_ddl :: "string option"
  cx_materialization_json :: "string option"
  cx_current_snapshot_version :: "int option"
  cx_last_refreshed_at :: "string option"
  cx_data_as_of :: "string option"
  cx_last_refresh_error :: "string option"
  cx_history_available_from :: "string option"
  cx_dropped_at :: "string option"
  cx_definition_sql :: "string option"
  cx_entity_key_type :: "string option"
  cx_score_expression :: "string option"
  cx_composition_json :: "string option"
  cx_temporal_column :: "string option"
  cx_temporal_granularity :: "string option"
  cx_source_kind :: string

record snapshot_row =
  sn_context_id :: string
  sn_version :: int
  sn_storage_kind :: string
  sn_member_count :: int
  sn_serialized_bytes :: int
  sn_computed_at :: string
  sn_data_as_of :: string
  sn_valid_from :: string
  sn_valid_to :: "string option"
  sn_definition_hash :: "string option"
  sn_definition_version :: int
  sn_source_watermark :: "string option"
  sn_membership_sha256 :: string
  sn_score_sha256 :: string
  sn_state :: string

record payload_row =
  py_context_id :: string
  py_version :: int
  py_membership_blob :: string
  py_score_blob :: "string option"

record history_row =
  hi_context_id :: string
  hi_entity_id :: int
  hi_change_type :: string
  hi_recorded_at :: string
  hi_effective_at :: string
  hi_context_version :: int
  hi_definition_version :: int
  hi_definition_hash :: "string option"
  hi_event_id :: "string option"
  hi_source :: string
  hi_evidence_ref :: "string option"
  hi_previous_score :: "score option"
  hi_new_score :: "score option"

text \<open>
  \<open>contextql.semantic.ContextCatalogEntry\<close> is not part of the repository: the record has the
  attributes the repository reads and passes, the materialization settings being a parameter.
\<close>

record composition_item =
  ci_name :: json
  ci_weight :: json

record composition =
  co_strategy :: json
  co_items :: "composition_item list"

record 'm catalog_entry =
  en_name :: string
  en_namespace :: string
  en_context_id :: string
  en_version :: int
  en_definition_hash :: "string option"
  en_entity_key_name :: string
  en_entity_key_type :: string
  en_has_score :: bool
  en_is_temporal :: bool
  en_lifecycle_state :: string
  en_materialization :: 'm
  en_current_snapshot_version :: "int option"
  en_last_refreshed_at :: "datetime option"
  en_data_as_of :: "datetime option"
  en_description :: "string option"
  en_tags :: json
  en_dependencies :: json
  en_definition_sql :: "string option"
  en_composition :: "composition option"
  en_score_expression :: "string option"
  en_temporal_column :: "string option"
  en_temporal_granularity :: "string option"
  en_source_kind :: string
  en_history_available_from :: "datetime option"
  en_last_refresh_error :: "string option"

record context_db =
  cd_contexts :: "context_row list"
  cd_contexts_seq :: int
  cd_snapshots :: "snapshot_row list"
  cd_payloads :: "payload_row list"
  cd_history :: "history_row list"

section \<open>Statements\<close>

type_synonym stmt_faults = "nat \<Rightarrow> py_exc option"
type_synonym 'a cdb = "(py_exc, context_db, 'a) prog"

definition statement :: "stmt_faults \<Rightarrow> nat \<Rightarrow> int list \<Rightarrow> (context_db \<Rightarrow> py_exc + context_db) \<Rightarrow> unit cdb" where
  "statement fault k binds f =
     (\<lambda>s. if \<not> list_all int64_ok binds then (Inl overflow_error, s)
          else case fault k of
            Some e \<Rightarrow> (Inl e, s)
          | None \<Rightarrow> (case f s of Inl e \<Rightarrow> (Inl e, s) | Inr s' \<Rightarrow> (Inr (), s')))"

lemma statement_Inr:
  "statement fault k binds f s = (Inr u, s') \<longleftrightarrow> list_all int64_ok binds \<and> fault k = None \<and> f s = Inr s'"
  by (auto simp: statement_def split: option.splits sum.splits)

lemma statement_Inl: "statement fault k binds f s = (Inl e, s') \<Longrightarrow> s' = s"
  by (auto simp: statement_def split: option.splits sum.splits if_splits)

lemma statement_run:
  "list_all int64_ok binds \<Longrightarrow> fault k = None \<Longrightarrow> f s = Inr s' \<Longrightarrow> statement fault k binds f s = (Inr (), s')"
  by (simp add: statement_Inr)

definition unique_error :: "string \<Rightarrow> py_exc" where
  "unique_error cols = IntegrityError (''UNIQUE constraint failed: '' @ cols)"

section \<open>Timestamps\<close>

definition iso_opt :: "datetime option \<Rightarrow> string option" where
  "iso_opt v = map_option isoformat v"

definition datetime_of :: "string option \<Rightarrow> py_exc + datetime option" where
  "datetime_of v =
     (case v of
        None \<Rightarrow> Inr None
      | Some t \<Rightarrow>
          if t = [] then Inr None
          else (let z = replace_char (CHR ''Z'') ''+00:00'' t in
                case fromisoformat z of
                  None \<Rightarrow> Inl (ValueError (''Invalid isoformat string: '' @ py_repr z))
                | Some d \<Rightarrow> Inr (Some (case dt_tz d of None \<Rightarrow> d\<lparr>dt_tz := Some 0\<rparr> | Some _ \<Rightarrow> d))))"

lemma isoformat_no_Z: "CHR ''Z'' \<notin> set (isoformat d)"
proof -
  have pad: "CHR ''Z'' \<notin> set (pad_zeros w n)" for w n
    using pad_zeros_digits [of w n] by (auto simp: list_all_iff is_digit_def)
  show ?thesis
    by (auto simp: isoformat_def iso_offset_def Let_def pad split: option.splits)
qed

lemma replace_char_absent: "c \<notin> set s \<Longrightarrow> replace_char c r s = s"
  unfolding replace_char_def by (induction s) auto

lemma isoformat_nonempty: "isoformat d \<noteq> []"
  by (simp add: isoformat_def)

text \<open>What \<open>_iso\<close> writes, \<open>_datetime\<close> reads; a naive value comes back as UTC.\<close>

lemma datetime_of_iso:
  assumes "\<And>d. v = Some d \<Longrightarrow> valid_datetime d \<and> dt_tz d \<noteq> None"
  shows "datetime_of (iso_opt v) = Inr v"
proof (cases v)
  case (Some d)
  with assms have "valid_datetime d" "dt_tz d \<noteq> None" by auto
  then show ?thesis
    by (auto simp: Some iso_opt_def datetime_of_def isoformat_nonempty replace_char_absent isoformat_no_Z
        fromisoformat_isoformat Let_def)
qed (simp add: iso_opt_def datetime_of_def)

end
