(* ===== verification/Snapshot_Store.thy ===== *)
theory Snapshot_Store
  imports Context_Db
begin

text \<open>
  Snapshot promotion, hydration and pruning of the context runtime repository
  (\<open>app/repositories/context_catalog.py\<close>). \<open>sha256\<close>, \<open>uuid5\<close> and the score codec are parameters (\<open>codec\<close>), so
  are the in-memory membership store and history that hydration fills.
\<close>

section \<open>Parameters and messages\<close>

record codec =
  cd_sha256 :: "string \<Rightarrow> string"
  cd_uuid5 :: "string \<Rightarrow> string"
  cd_encode_scores :: "(int, score) dict \<Rightarrow> py_exc + string"
  cd_decode_scores :: "string option \<Rightarrow> py_exc + (int, score) dict"

record snapshot_meta =
  sm_version :: int
  sm_storage_kind :: string
  sm_member_count :: int
  sm_computed_at :: datetime
  sm_data_as_of :: datetime
  sm_valid_from :: datetime
  sm_definition_hash :: "string option"
  sm_source_watermark :: "string option"

record membership_change =
  mc_context_id :: string
  mc_entity_id :: int
  mc_change_type :: string
  mc_recorded_at :: "datetime option"
  mc_effective_at :: "datetime option"
  mc_context_version :: int
  mc_source :: string
  mc_evidence_ref :: "string option"
  mc_previous_score :: "score option"
  mc_new_score :: "score option"

section \<open>Promotion\<close>

definition payload_key :: "payload_row \<Rightarrow> string \<times> int" where
  "payload_key p = (py_context_id p, py_version p)"

definition snapshot_key :: "snapshot_row \<Rightarrow> string \<times> int" where
  "snapshot_key r = (sn_context_id r, sn_version r)"

definition is_current :: "string \<Rightarrow> snapshot_row \<Rightarrow> bool" where
  "is_current c r \<longleftrightarrow> sn_context_id r = c \<and> sn_state r = ''current''"

definition one_current :: "snapshot_row list \<Rightarrow> bool" where
  \<comment> \<open>the unique index on \<open>context_id\<close> where the state is \<open>current\<close>\<close>
  "one_current rows \<longleftrightarrow> distinct (map sn_context_id (filter (\<lambda>r. sn_state r = ''current'') rows))"

definition insert_payload :: "payload_row \<Rightarrow> context_db \<Rightarrow> py_exc + context_db" where
  "insert_payload p s =
     (case insert_unique payload_key ''context_snapshot_payloads.context_id, context_snapshot_payloads.version'' p (cd_payloads s) of
        Inl e \<Rightarrow> Inl e
      | Inr rows \<Rightarrow> Inr (s\<lparr>cd_payloads := rows\<rparr>))"

definition building_row :: "codec \<Rightarrow> 'm catalog_entry \<Rightarrow> snapshot_meta \<Rightarrow> string \<Rightarrow> string \<Rightarrow> snapshot_row" where
  "building_row cd e m payload score_payload =
     \<lparr>sn_context_id = en_context_id e, sn_version = sm_version m, sn_storage_kind = sm_storage_kind m,
      sn_member_count = sm_member_count m, sn_serialized_bytes = int (length payload),
      sn_computed_at = isoformat (sm_computed_at m), sn_data_as_of = isoformat (sm_data_as_of m),
      sn_valid_from = isoformat (sm_valid_from m), sn_valid_to = None, sn_definition_hash = sm_definition_hash m,
      sn_definition_version = en_version e, sn_source_watermark = sm_source_watermark m,
      sn_membership_sha256 = cd_sha256 cd payload, sn_score_sha256 = cd_sha256 cd score_payload,
      sn_state = ''building''\<rparr>"

definition insert_snapshot :: "snapshot_row \<Rightarrow> context_db \<Rightarrow> py_exc + context_db" where
  "insert_snapshot r s =
     (case insert_unique snapshot_key ''context_snapshots.context_id, context_snapshots.version'' r (cd_snapshots s) of
        Inl e \<Rightarrow> Inl e
      | Inr rows \<Rightarrow> Inr (s\<lparr>cd_snapshots := rows\<rparr>))"

definition supersede :: "string \<Rightarrow> string \<Rightarrow> snapshot_row \<Rightarrow> snapshot_row" where
  "supersede c valid_to r =
     (if is_current c r then r\<lparr>sn_state := ''superseded'', sn_valid_to := Some valid_to\<rparr> else r)"

definition make_current :: "string \<Rightarrow> int \<Rightarrow> snapshot_row \<Rightarrow> snapshot_row" where
  "make_current c v r = (if snapshot_key r = (c, v) then r\<lparr>sn_state := ''current''\<rparr> else r)"

definition set_current :: "string \<Rightarrow> int \<Rightarrow> context_db \<Rightarrow> py_exc + context_db" where
  "set_current c v s =
     (let rows = map (make_current c v) (cd_snapshots s)
      in if one_current rows then Inr (s\<lparr>cd_snapshots := rows\<rparr>)
         else Inl (unique_error ''context_snapshots.context_id''))"

definition note_refresh :: "string \<Rightarrow> 'm catalog_entry \<Rightarrow> int \<Rightarrow> context_row \<Rightarrow> context_row" where
  "note_refresh db_now e v r =
     (if cx_context_id r = Some (en_context_id e) \<and> cx_version r = en_version e
      then r\<lparr>cx_current_snapshot_version := Some v, cx_last_refreshed_at := iso_opt (en_last_refreshed_at e),
             cx_data_as_of := iso_opt (en_data_as_of e), cx_last_refresh_error := None, cx_updated_at := db_now\<rparr>
      else r)"

definition history_event_id :: "codec \<Rightarrow> string \<Rightarrow> int \<Rightarrow> membership_change \<Rightarrow> string" where
  "history_event_id cd c v ev =
     cd_uuid5 cd (c @ '':'' @ show_int v @ '':'' @ show_int (mc_entity_id ev) @ '':'' @ mc_change_type ev)"

definition insert_or_ignore_history ::
  "codec \<Rightarrow> 'm catalog_entry \<Rightarrow> int \<Rightarrow> membership_change \<Rightarrow> context_db \<Rightarrow> context_db" where
  \<comment> \<open>\<open>OR IGNORE\<close> skips a row that breaks the event index, a \<open>NOT NULL\<close> or the check of the change type\<close>
  "insert_or_ignore_history cd e v ev s =
     (let i = history_event_id cd (en_context_id e) v ev in
      if (en_context_id e, Some i) \<in> set (map (\<lambda>h. (hi_context_id h, hi_event_id h)) (cd_history s)) then s
      else if mc_change_type ev \<notin> set VALID_CHANGE_TYPES then s
      else case (iso_opt (mc_recorded_at ev), iso_opt (mc_effective_at ev)) of
        (Some recorded, Some effective) \<Rightarrow>
          s\<lparr>cd_history := cd_history s @
            [\<lparr>hi_context_id = en_context_id e, hi_entity_id = mc_entity_id ev, hi_change_type = mc_change_type ev,
              hi_recorded_at = recorded, hi_effective_at = effective, hi_context_version = mc_context_version ev,
              hi_definition_version = en_version e, hi_definition_hash = en_definition_hash e, hi_event_id = Some i,
              hi_source = mc_source ev, hi_evidence_ref = mc_evidence_ref ev,
              hi_previous_score = mc_previous_score ev, hi_new_score = mc_new_score ev\<rparr>]\<rparr>
      | _ \<Rightarrow> s)"

fun insert_history :: "stmt_faults \<Rightarrow> codec \<Rightarrow> 'm catalog_entry \<Rightarrow> int \<Rightarrow> nat \<Rightarrow> membership_change list \<Rightarrow> unit cdb" where
  "insert_history fault cd e v k [] = ret ()"
| "insert_history fault cd e v k (ev # evs) =
     bindP (statement fault k [mc_entity_id ev, mc_context_version ev, en_version e]
              (\<lambda>s. Inr (insert_or_ignore_history cd e v ev s)))
       (\<lambda>_. insert_history fault cd e v (Suc k) evs)"

definition promote_statements ::
  "stmt_faults \<Rightarrow> codec \<Rightarrow> string \<Rightarrow> 'm catalog_entry \<Rightarrow> snapshot_meta \<Rightarrow> string \<Rightarrow> string \<Rightarrow> membership_change list \<Rightarrow> unit cdb" where
  \<comment> \<open>statement 0 is \<open>BEGIN IMMEDIATE\<close>, the last one the \<open>COMMIT\<close>\<close>
  "promote_statements fault cd db_now e m payload score_payload events =
     (let c = en_context_id e; v = sm_version m in
      bindP (statement fault 0 [] Inr) (\<lambda>_.
      bindP (statement fault 1 [v] (insert_payload
               \<lparr>py_context_id = c, py_version = v, py_membership_blob = payload, py_score_blob = Some score_payload\<rparr>)) (\<lambda>_.
      bindP (statement fault 2 [v, sm_member_count m, en_version e]
               (insert_snapshot (building_row cd e m payload score_payload))) (\<lambda>_.
      bindP (statement fault 3 [] (\<lambda>s. Inr (s\<lparr>cd_snapshots := map (supersede c (isoformat (sm_computed_at m))) (cd_snapshots s)\<rparr>))) (\<lambda>_.
      bindP (statement fault 4 [v] (set_current c v)) (\<lambda>_.
      bindP (statement fault 5 [v, en_version e] (\<lambda>s. Inr (s\<lparr>cd_contexts := map (note_refresh db_now e v) (cd_contexts s)\<rparr>))) (\<lambda>_.
      bindP (insert_history fault cd e v 6 events) (\<lambda>_.
      statement fault (6 + length events) [] Inr))))))))"

definition promote_snapshot ::
  "stmt_faults \<Rightarrow> codec \<Rightarrow> string \<Rightarrow> 'm catalog_entry \<Rightarrow> snapshot_meta \<Rightarrow> string \<Rightarrow> (int, score) dict \<Rightarrow> membership_change list \<Rightarrow> unit cdb" where
  "promote_snapshot fault cd db_now e m payload scores events =
     bindP (liftE (cd_encode_scores cd scores)) (\<lambda>score_payload.
     transaction (promote_statements fault cd db_now e m payload score_payload events))"

section \<open>Hydration\<close>

record restore_args =
  ra_context_id :: string
  ra_payload :: string
  ra_computed_at :: "datetime option"
  ra_data_as_of :: "datetime option"
  ra_definition_hash :: "string option"
  ra_source_watermark :: "string option"
  ra_scores :: "(int, score) dict"
  ra_storage_kind :: string

type_synonym 'g deserialize = "restore_args \<Rightarrow> (py_exc, 'g, int) prog"  \<comment> \<open>returns \<open>restored.version\<close>\<close>
type_synonym 'g append_history = "(py_exc + membership_change) list \<Rightarrow> (py_exc, 'g, unit) prog"
  \<comment> \<open>a generator: its items, or what computing an item raises\<close>

definition corrupt_payload :: "string \<Rightarrow> string \<Rightarrow> int \<Rightarrow> py_exc" where
  "corrupt_payload kind c v = ValueError (''[E201] corrupt '' @ kind @ '' payload for '' @ c @ ''@'' @ show_int v @ ''.'')"

definition non_contiguous :: "string \<Rightarrow> py_exc" where
  "non_contiguous c = ValueError (''[E201] non-contiguous snapshot versions for '' @ c @ ''.'')"

definition stored_snapshots :: "context_db \<Rightarrow> (snapshot_row \<times> payload_row) list" where
  \<comment> \<open>the join, \<open>ORDER BY context_id, version\<close>\<close>
  "stored_snapshots s =
     sort_key (\<lambda>rp. snapshot_key (fst rp))
       (concat (map (\<lambda>r. map (Pair r) (filter (\<lambda>p. payload_key p = snapshot_key r) (cd_payloads s)))
          (filter (\<lambda>r. sn_state r = ''current'' \<or> sn_state r = ''superseded'') (cd_snapshots s))))"

definition hydrate_row :: "codec \<Rightarrow> 'g deserialize \<Rightarrow> snapshot_row \<times> payload_row \<Rightarrow> (py_exc, 'g, unit) prog" where
  "hydrate_row cd deserialize rp =
     (let r = fst rp; p = snd rp; c = sn_context_id r; v = sn_version r in
      bindP (guardP (cd_sha256 cd (py_membership_blob p) = sn_membership_sha256 r) (corrupt_payload ''membership'' c v)) (\<lambda>_.
      bindP (guardP (case py_score_blob p of None \<Rightarrow> True | Some b \<Rightarrow> cd_sha256 cd b = sn_score_sha256 r) (corrupt_payload ''score'' c v)) (\<lambda>_.
      bindP (liftE (datetime_of (Some (sn_computed_at r)))) (\<lambda>computed.
      bindP (liftE (datetime_of (Some (sn_data_as_of r)))) (\<lambda>as_of.
      bindP (liftE (cd_decode_scores cd (py_score_blob p))) (\<lambda>scores.
      bindP (deserialize \<lparr>ra_context_id = c, ra_payload = py_membership_blob p, ra_computed_at = computed,
               ra_data_as_of = as_of, ra_definition_hash = sn_definition_hash r,
               ra_source_watermark = sn_source_watermark r, ra_scores = scores, ra_storage_kind = sn_storage_kind r\<rparr>) (\<lambda>restored.
      guardP (restored = v) (non_contiguous c))))))))"

fun hydrate_rows :: "codec \<Rightarrow> 'g deserialize \<Rightarrow> (snapshot_row \<times> payload_row) list \<Rightarrow> (py_exc, 'g, unit) prog" where
  "hydrate_rows cd deserialize [] = ret ()"
| "hydrate_rows cd deserialize (rp # rps) =
     bindP (hydrate_row cd deserialize rp) (\<lambda>_. hydrate_rows cd deserialize rps)"

definition change_of_row :: "history_row \<Rightarrow> py_exc + membership_change" where
  "change_of_row h =
     (case datetime_of (Some (hi_recorded_at h)) of
        Inl e \<Rightarrow> Inl e
      | Inr recorded \<Rightarrow>
          (case datetime_of (Some (hi_effective_at h)) of
             Inl e \<Rightarrow> Inl e
           | Inr effective \<Rightarrow>
               Inr \<lparr>mc_context_id = hi_context_id h, mc_entity_id = hi_entity_id h, mc_change_type = hi_change_type h,
                    mc_recorded_at = recorded, mc_effective_at = effective, mc_context_version = hi_context_version h,
                    mc_source = hi_source h, mc_evidence_ref = hi_evidence_ref h,
                    mc_previous_score = hi_previous_score h, mc_new_score = hi_new_score h\<rparr>))"

definition hydrate_runtime :: "codec \<Rightarrow> 'g deserialize \<Rightarrow> 'g append_history \<Rightarrow> context_db \<Rightarrow> (py_exc, 'g, unit) prog" where
  "hydrate_runtime cd deserialize app_history s =
     bindP (hydrate_rows cd deserialize (stored_snapshots s)) (\<lambda>_.
     app_history (map change_of_row (cd_history s)))"

section \<open>Pruning\<close>

definition as_of_order :: "string \<Rightarrow> string \<Rightarrow> context_db \<Rightarrow> snapshot_row list" where
  \<comment> \<open>\<open>WHERE context_id = ? AND data_as_of <= ? ORDER BY data_as_of, version\<close>, ascending\<close>
  "as_of_order c cutoff s =
     sort_key (\<lambda>r. (sn_data_as_of r, sn_version r))
       (filter (\<lambda>r. sn_context_id r = c \<and> sn_data_as_of r \<le> cutoff) (cd_snapshots s))"

definition anchor_version :: "string \<Rightarrow> string \<Rightarrow> context_db \<Rightarrow> int option" where
  \<comment> \<open>\<open>ORDER BY data_as_of DESC, version DESC LIMIT 1\<close>\<close>
  "anchor_version c cutoff s =
     (case rev (as_of_order c cutoff s) of [] \<Rightarrow> None | r # _ \<Rightarrow> Some (sn_version r))"

definition prune_history :: "stmt_faults \<Rightarrow> 'm catalog_entry \<Rightarrow> datetime \<Rightarrow> unit cdb" where
  "prune_history fault e cutoff =
     (let c = en_context_id e; t = isoformat cutoff in
      bindP (readP (anchor_version c t)) (\<lambda>anchor.
      case anchor of
        None \<Rightarrow> ret ()
      | Some a \<Rightarrow>
          transaction
            (bindP (statement fault 0 [] Inr) (\<lambda>_.
             bindP (statement fault 1 [] (\<lambda>s. Inr (s\<lparr>cd_payloads := filter (\<lambda>p. \<not> (py_context_id p = c \<and> py_version p < a)) (cd_payloads s)\<rparr>))) (\<lambda>_.
             bindP (statement fault 2 [] (\<lambda>s. Inr (s\<lparr>cd_snapshots := filter (\<lambda>r. \<not> (sn_context_id r = c \<and> sn_version r < a)) (cd_snapshots s)\<rparr>))) (\<lambda>_.
             bindP (statement fault 3 [] (\<lambda>s. Inr (s\<lparr>cd_history := filter (\<lambda>h. \<not> (hi_context_id h = c \<and> hi_effective_at h < t)) (cd_history s)\<rparr>))) (\<lambda>_.
             statement fault 4 [] Inr)))))))"

section \<open>A promotion, statement by statement\<close>

lemma insert_or_ignore_frame:
  "\<exists>hs. insert_or_ignore_history cd e v ev s = s\<lparr>cd_history := cd_history s @ hs\<rparr>"
proof (cases "insert_or_ignore_history cd e v ev s = s")
  case True
  then show ?thesis by (intro exI [of _ "[]"]) simp
next
  case False
  then show ?thesis by (auto simp: insert_or_ignore_history_def Let_def split: if_splits option.splits)
qed

lemma insert_history_frame:
  "insert_history fault cd e v k evs s = (Inr u, s') \<Longrightarrow> \<exists>hs. s' = s\<lparr>cd_history := cd_history s @ hs\<rparr>"
proof (induction evs arbitrary: k s)
  case Nil
  then show ?case by (intro exI [of _ "[]"]) simp
next
  case (Cons ev evs)
  from Cons.prems have rest: "insert_history fault cd e v (Suc k) evs (insert_or_ignore_history cd e v ev s) = (Inr u, s')"
    by (auto elim!: bindP_InrD simp: statement_Inr)
  obtain hs where "insert_or_ignore_history cd e v ev s = s\<lparr>cd_history := cd_history s @ hs\<rparr>"
    using insert_or_ignore_frame by blast
  with Cons.IH [OF rest] show ?case by auto
qed

definition promoted_rows :: "codec \<Rightarrow> 'm catalog_entry \<Rightarrow> snapshot_meta \<Rightarrow> string \<Rightarrow> string \<Rightarrow> snapshot_row list \<Rightarrow> snapshot_row list" where
  "promoted_rows cd e m payload score_payload rows =
     map (make_current (en_context_id e) (sm_version m))
       (map (supersede (en_context_id e) (isoformat (sm_computed_at m))) (rows @ [building_row cd e m payload score_payload]))"

lemma promote_statements_Inr:
  assumes "promote_statements fault cd db_now e m payload score_payload evs s = (Inr u, s')"
  obtains hs where
    "(en_context_id e, sm_version m) \<notin> payload_key ` set (cd_payloads s)"
    "(en_context_id e, sm_version m) \<notin> snapshot_key ` set (cd_snapshots s)"
    "s' = s\<lparr>cd_payloads := cd_payloads s @ [\<lparr>py_context_id = en_context_id e, py_version = sm_version m,
                 py_membership_blob = payload, py_score_blob = Some score_payload\<rparr>],
            cd_snapshots := promoted_rows cd e m payload score_payload (cd_snapshots s),
            cd_contexts := map (note_refresh db_now e (sm_version m)) (cd_contexts s),
            cd_history := cd_history s @ hs\<rparr>"
    "one_current (promoted_rows cd e m payload score_payload (cd_snapshots s))"
proof -
  from assms obtain s1 s2 s3 s4 where
    s1: "insert_payload \<lparr>py_context_id = en_context_id e, py_version = sm_version m,
           py_membership_blob = payload, py_score_blob = Some score_payload\<rparr> s = Inr s1"
    and s2: "insert_snapshot (building_row cd e m payload score_payload) s1 = Inr s2"
    and s3: "set_current (en_context_id e) (sm_version m)
        (s2\<lparr>cd_snapshots := map (supersede (en_context_id e) (isoformat (sm_computed_at m))) (cd_snapshots s2)\<rparr>) = Inr s3"
    and s4: "insert_history fault cd e (sm_version m) 6 evs
        (s3\<lparr>cd_contexts := map (note_refresh db_now e (sm_version m)) (cd_contexts s3)\<rparr>) = (Inr (), s')"
    by (auto simp: promote_statements_def Let_def statement_Inr elim!: bindP_InrD)
  from s1 have p: "(en_context_id e, sm_version m) \<notin> payload_key ` set (cd_payloads s)"
    "s1 = s\<lparr>cd_payloads := cd_payloads s @ [\<lparr>py_context_id = en_context_id e, py_version = sm_version m,
                 py_membership_blob = payload, py_score_blob = Some score_payload\<rparr>]\<rparr>"
    by (auto simp: insert_payload_def insert_unique_Inr payload_key_def split: sum.splits)
  from s2 have q: "(en_context_id e, sm_version m) \<notin> snapshot_key ` set (cd_snapshots s)"
    "s2 = s1\<lparr>cd_snapshots := cd_snapshots s @ [building_row cd e m payload score_payload]\<rparr>"
    by (auto simp: insert_snapshot_def insert_unique_Inr snapshot_key_def building_row_def p(2) split: sum.splits)
  from s3 have c: "one_current (promoted_rows cd e m payload score_payload (cd_snapshots s))"
    "s3 = s2\<lparr>cd_snapshots := promoted_rows cd e m payload score_payload (cd_snapshots s)\<rparr>"
    by (auto simp: set_current_def Let_def promoted_rows_def q(2) split: if_splits)
  obtain hs where "s' = s3\<lparr>cd_contexts := map (note_refresh db_now e (sm_version m)) (cd_contexts s3)\<rparr>
      \<lparr>cd_history := cd_history s3 @ hs\<rparr>"
    using insert_history_frame [OF s4] by auto
  with p q c show thesis by (intro that [of hs]) simp_all
qed

lemma supersede_key [simp]: "snapshot_key (supersede c t r) = snapshot_key r" "sn_context_id (supersede c t r) = sn_context_id r"
  by (simp_all add: supersede_def snapshot_key_def)

definition current_row :: "codec \<Rightarrow> 'm catalog_entry \<Rightarrow> snapshot_meta \<Rightarrow> string \<Rightarrow> string \<Rightarrow> snapshot_row" where
  "current_row cd e m payload score_payload = (building_row cd e m payload score_payload)\<lparr>sn_state := ''current''\<rparr>"

lemma current_row_simps [simp]:
  "snapshot_key (current_row cd e m payload sp) = (en_context_id e, sm_version m)"
  "sn_context_id (current_row cd e m payload sp) = en_context_id e" "sn_version (current_row cd e m payload sp) = sm_version m"
  "sn_state (current_row cd e m payload sp) = ''current''"
  "sn_membership_sha256 (current_row cd e m payload sp) = cd_sha256 cd payload"
  "sn_score_sha256 (current_row cd e m payload sp) = cd_sha256 cd sp"
  by (simp_all add: current_row_def building_row_def snapshot_key_def)

lemma promoted_rows_fresh:
  assumes "(en_context_id e, sm_version m) \<notin> snapshot_key ` set rows"
  shows "promoted_rows cd e m payload sp rows =
    map (supersede (en_context_id e) (isoformat (sm_computed_at m))) rows @ [current_row cd e m payload sp]"
proof -
  have "make_current (en_context_id e) (sm_version m) (supersede c t r) = supersede c t r" if "r \<in> set rows" for c t r
    using assms that by (auto simp: make_current_def image_iff)
  then show ?thesis
    by (simp add: promoted_rows_def make_current_def current_row_def building_row_def supersede_def is_current_def snapshot_key_def)
qed

lemma superseded_not_current: "\<not> is_current c (supersede c t r)"
  by (auto simp: supersede_def is_current_def)

lemma supersede_other: "sn_context_id r \<noteq> c \<Longrightarrow> supersede c t r = r"
  by (simp add: supersede_def is_current_def)

lemma one_current_promoted:
  assumes "one_current rows" and "sn_context_id new = c"
  shows "one_current (map (supersede c t) rows @ [new])"
proof -
  have "filter (\<lambda>r. sn_state r = ''current'') (map (supersede c t) rows) =
      filter (\<lambda>r. sn_context_id r \<noteq> c) (filter (\<lambda>r. sn_state r = ''current'') rows)"
    by (induction rows) (auto simp: supersede_def is_current_def)
  moreover have "distinct (map sn_context_id (filter (\<lambda>r. sn_context_id r \<noteq> c) (filter (\<lambda>r. sn_state r = ''current'') rows)))"
    using assms(1) unfolding one_current_def by (rule distinct_map_filter)
  ultimately show ?thesis using assms(2) by (auto simp: one_current_def)
qed

section \<open>The invariant of the store\<close>

definition current_version :: "context_db \<Rightarrow> string \<Rightarrow> int option" where
  "current_version s c = map_option sn_version (find (is_current c) (cd_snapshots s))"

definition intact :: "codec \<Rightarrow> snapshot_row \<Rightarrow> payload_row \<Rightarrow> bool" where
  "intact cd r p \<longleftrightarrow>
     cd_sha256 cd (py_membership_blob p) = sn_membership_sha256 r \<and>
     (case py_score_blob p of None \<Rightarrow> True | Some b \<Rightarrow> cd_sha256 cd b = sn_score_sha256 r)"

definition store_wf :: "codec \<Rightarrow> context_db \<Rightarrow> bool" where
  \<comment> \<open>what the indexes enforce, and: no snapshot is left in building, each has one payload, which is intact\<close>
  "store_wf cd s \<longleftrightarrow>
     distinct (map snapshot_key (cd_snapshots s)) \<and> distinct (map payload_key (cd_payloads s)) \<and>
     one_current (cd_snapshots s) \<and> payload_key ` set (cd_payloads s) = snapshot_key ` set (cd_snapshots s) \<and>
     (\<forall>r \<in> set (cd_snapshots s). sn_state r = ''current'' \<or> sn_state r = ''superseded'') \<and>
     (\<forall>r \<in> set (cd_snapshots s). \<exists>p \<in> set (cd_payloads s). payload_key p = snapshot_key r \<and> intact cd r p)"

lemma store_wf_promoted:
  assumes "store_wf cd s" and "(en_context_id e, sm_version m) \<notin> payload_key ` set (cd_payloads s)"
    and "(en_context_id e, sm_version m) \<notin> snapshot_key ` set (cd_snapshots s)"
  shows "store_wf cd (s\<lparr>cd_payloads := cd_payloads s @ [\<lparr>py_context_id = en_context_id e, py_version = sm_version m,
                 py_membership_blob = payload, py_score_blob = Some sp\<rparr>],
            cd_snapshots := promoted_rows cd e m payload sp (cd_snapshots s), cd_contexts := xs, cd_history := hs\<rparr>)"
    (is "store_wf cd ?s'")
proof -
  let ?c = "en_context_id e" let ?t = "isoformat (sm_computed_at m)"
  let ?new = "\<lparr>py_context_id = ?c, py_version = sm_version m, py_membership_blob = payload, py_score_blob = Some sp\<rparr>"
  have rows: "cd_snapshots ?s' = map (supersede ?c ?t) (cd_snapshots s) @ [current_row cd e m payload sp]"
    using promoted_rows_fresh [OF assms(3)] by simp
  have old: "\<exists>p \<in> set (cd_payloads s). payload_key p = snapshot_key r \<and> intact cd r p" if "r \<in> set (cd_snapshots s)" for r
    using assms(1) that by (simp add: store_wf_def)
  have hashes: "intact cd (supersede ?c ?t r) p = intact cd r p" for r p by (simp add: intact_def supersede_def split: option.split)
  have "\<exists>p \<in> set (cd_payloads ?s'). payload_key p = snapshot_key r \<and> intact cd r p" if "r \<in> set (cd_snapshots ?s')" for r
  proof (cases "r = current_row cd e m payload sp")
    case True
    then show ?thesis by (intro bexI [of _ ?new]) (simp_all add: payload_key_def intact_def)
  next
    case False
    then obtain r0 where "r0 \<in> set (cd_snapshots s)" "r = supersede ?c ?t r0" using \<open>r \<in> _\<close> rows by auto
    with old [of r0] show ?thesis by (auto simp: hashes)
  qed
  moreover have "distinct (map snapshot_key (cd_snapshots ?s'))"
    using assms(1,3) by (simp add: rows store_wf_def comp_def image_image)
  moreover have "distinct (map payload_key (cd_payloads ?s'))"
    using assms(1,2) by (simp add: store_wf_def payload_key_def)
  moreover have "one_current (cd_snapshots ?s')"
    using assms(1) one_current_promoted [of "cd_snapshots s" "current_row cd e m payload sp" ?c ?t] by (simp add: rows store_wf_def)
  moreover have "\<forall>r \<in> set (cd_snapshots ?s'). sn_state r = ''current'' \<or> sn_state r = ''superseded''"
    using assms(1) by (auto simp: rows store_wf_def supersede_def)
  moreover have "payload_key ` set (cd_payloads ?s') = snapshot_key ` set (cd_snapshots ?s')"
    using assms(1) by (simp add: rows store_wf_def payload_key_def image_image)
  ultimately show ?thesis unfolding store_wf_def by blast
qed

lemma find_append: "find P (xs @ ys) = (case find P xs of Some x \<Rightarrow> Some x | None \<Rightarrow> find P ys)"
  by (induction xs) simp_all

lemma current_version_promoted:
  assumes "(en_context_id e, sm_version m) \<notin> snapshot_key ` set (cd_snapshots s)"
    and "cd_snapshots s' = promoted_rows cd e m payload sp (cd_snapshots s)"
  shows "current_version s' = (current_version s)(en_context_id e \<mapsto> sm_version m)"
proof
  fix c
  let ?c = "en_context_id e" and ?t = "isoformat (sm_computed_at m)"
  have rows: "cd_snapshots s' = map (supersede ?c ?t) (cd_snapshots s) @ [current_row cd e m payload sp]"
    using assms by (simp add: promoted_rows_fresh)
  show "current_version s' c = ((current_version s)(?c \<mapsto> sm_version m)) c"
  proof (cases "c = ?c")
    case True
    have "find (is_current ?c) (map (supersede ?c ?t) (cd_snapshots s)) = None"
      by (simp add: find_None_iff superseded_not_current)
    with True show ?thesis by (simp add: current_version_def rows find_append is_current_def)
  next
    case False
    have "find (is_current c) (map (supersede ?c ?t) rs) = find (is_current c) rs" for rs
      by (induction rs) (use False in \<open>auto simp: is_current_def supersede_def\<close>)
    with False show ?thesis
      by (simp add: current_version_def rows find_append is_current_def [of c "current_row cd e m payload sp"] split: option.split)
  qed
qed

section \<open>Properties of promotion\<close>

lemma promote_snapshot_Inr:
  assumes "promote_snapshot fault cd db_now e m payload scores evs s = (Inr u, s')"
  obtains sp where "cd_encode_scores cd scores = Inr sp"
    "promote_statements fault cd db_now e m payload sp evs s = (Inr u, s')"
  using assms by (auto simp: promote_snapshot_def transaction_Inr elim!: bindP_InrD)

lemma promote_snapshot_Inl: "promote_snapshot fault cd db_now e m payload scores evs s = (Inl e', s') \<Longrightarrow> s' = s"
  by (auto simp: promote_snapshot_def elim!: bindP_InlD dest: transaction_Inl)

text \<open>
  C11: a promotion is all or nothing. If any statement fails, or the scores cannot be
  encoded, the database is what it was; if it returns, the promoted version is the one current
  snapshot of its context, no earlier snapshot and no current snapshot of another context has
  changed or gone, and the store is well formed: keys unique, one current snapshot per context,
  each snapshot with a payload that matches its hashes.
\<close>

theorem promote_snapshot_atomic:
  assumes "store_wf cd s" and "promote_snapshot fault cd db_now e m payload scores evs s = (r, s')"
  shows "case r of
      Inl _ \<Rightarrow> s' = s
    | Inr _ \<Rightarrow> store_wf cd s' \<and> current_version s' = (current_version s)(en_context_id e \<mapsto> sm_version m) \<and>
        map snapshot_key (cd_snapshots s') = map snapshot_key (cd_snapshots s) @ [(en_context_id e, sm_version m)] \<and>
        (\<forall>old \<in> set (cd_snapshots s). sn_context_id old \<noteq> en_context_id e \<longrightarrow> old \<in> set (cd_snapshots s'))"
proof (cases r)
  case (Inl e')
  with assms(2) show ?thesis using promote_snapshot_Inl by simp
next
  case (Inr u)
  with assms(2) obtain sp where "promote_statements fault cd db_now e m payload sp evs s = (Inr u, s')"
    by (auto elim: promote_snapshot_Inr)
  then obtain hs where fresh: "(en_context_id e, sm_version m) \<notin> payload_key ` set (cd_payloads s)"
      "(en_context_id e, sm_version m) \<notin> snapshot_key ` set (cd_snapshots s)"
    and s': "s' = s\<lparr>cd_payloads := cd_payloads s @ [\<lparr>py_context_id = en_context_id e, py_version = sm_version m,
                 py_membership_blob = payload, py_score_blob = Some sp\<rparr>],
            cd_snapshots := promoted_rows cd e m payload sp (cd_snapshots s),
            cd_contexts := map (note_refresh db_now e (sm_version m)) (cd_contexts s),
            cd_history := cd_history s @ hs\<rparr>"
    by (rule promote_statements_Inr) blast
  have rows: "cd_snapshots s' = map (supersede (en_context_id e) (isoformat (sm_computed_at m))) (cd_snapshots s) @ [current_row cd e m payload sp]"
    using promoted_rows_fresh [OF fresh(2)] by (simp add: s')
  have "store_wf cd s'" unfolding s' by (rule store_wf_promoted [OF assms(1) fresh])
  moreover have "current_version s' = (current_version s)(en_context_id e \<mapsto> sm_version m)"
    by (rule current_version_promoted [OF fresh(2)]) (simp add: s')
  moreover have "map snapshot_key (cd_snapshots s') = map snapshot_key (cd_snapshots s) @ [(en_context_id e, sm_version m)]"
    by (simp add: rows)
  moreover have "old \<in> set (cd_snapshots s')" if "old \<in> set (cd_snapshots s)" "sn_context_id old \<noteq> en_context_id e" for old
    using that supersede_other [OF that(2), of "isoformat (sm_computed_at m)"] unfolding rows by (metis UnI1 image_eqI list.set_map set_append)
  ultimately show ?thesis by (simp add: Inr)
qed

lemma insert_history_ok:
  assumes "\<And>k. fault k = None" and "int64_ok (en_version e)"
    and "\<And>ev. ev \<in> set evs \<Longrightarrow> int64_ok (mc_entity_id ev) \<and> int64_ok (mc_context_version ev)"
  shows "\<exists>s'. insert_history fault cd e v k evs s = (Inr (), s')"
  using assms(3)
proof (induction evs arbitrary: k s)
  case (Cons ev evs)
  then have "statement fault k [mc_entity_id ev, mc_context_version ev, en_version e] (\<lambda>s. Inr (insert_or_ignore_history cd e v ev s)) s
      = (Inr (), insert_or_ignore_history cd e v ev s)"
    using assms(1,2) by (intro statement_run) simp_all
  with Cons show ?case by (simp add: bindP_run)
qed simp

text \<open>
  C21: a promotion does return, when SQLite raises at no statement, the scores encode, the
  integers fit 64 bits and the version is new for the context; and it never overwrites: with a
  version that is already stored it raises.
\<close>

theorem promote_snapshot_returns_iff_new:
  assumes "store_wf cd s" and "\<And>k. fault k = None" and "cd_encode_scores cd scores = Inr sp"
    and "list_all int64_ok [sm_version m, sm_member_count m, en_version e]"
    and "\<And>ev. ev \<in> set evs \<Longrightarrow> int64_ok (mc_entity_id ev) \<and> int64_ok (mc_context_version ev)"
  shows "(\<exists>s'. promote_snapshot fault cd db_now e m payload scores evs s = (Inr (), s')) \<longleftrightarrow>
    (en_context_id e, sm_version m) \<notin> snapshot_key ` set (cd_snapshots s)"
proof
  assume "\<exists>s'. promote_snapshot fault cd db_now e m payload scores evs s = (Inr (), s')"
  then show "(en_context_id e, sm_version m) \<notin> snapshot_key ` set (cd_snapshots s)"
    by (auto elim!: promote_snapshot_Inr promote_statements_Inr)
next
  let ?c = "en_context_id e" and ?v = "sm_version m" and ?t = "isoformat (sm_computed_at m)"
  assume new: "(?c, ?v) \<notin> snapshot_key ` set (cd_snapshots s)"
  let ?p = "\<lparr>py_context_id = ?c, py_version = ?v, py_membership_blob = payload, py_score_blob = Some sp\<rparr>"
  let ?s1 = "s\<lparr>cd_payloads := cd_payloads s @ [?p]\<rparr>"
  let ?s2 = "?s1\<lparr>cd_snapshots := cd_snapshots s @ [building_row cd e m payload sp]\<rparr>"
  let ?s3 = "?s1\<lparr>cd_snapshots := promoted_rows cd e m payload sp (cd_snapshots s)\<rparr>"
  have "insert_payload ?p s = Inr ?s1" using new assms(1) by (simp add: insert_payload_def payload_key_def store_wf_def)
  moreover have "snapshot_key (building_row cd e m payload sp) = (?c, ?v)" by (simp add: snapshot_key_def building_row_def)
  then have "insert_snapshot (building_row cd e m payload sp) ?s1 = Inr ?s2" using new by (simp add: insert_snapshot_def)
  moreover have "one_current (promoted_rows cd e m payload sp (cd_snapshots s))"
    using assms(1) one_current_promoted [of "cd_snapshots s" "current_row cd e m payload sp" ?c ?t]
    by (simp add: promoted_rows_fresh [OF new] store_wf_def)
  then have "set_current ?c ?v (?s2\<lparr>cd_snapshots := map (supersede ?c ?t) (cd_snapshots ?s2)\<rparr>) = Inr ?s3"
    by (simp add: set_current_def promoted_rows_def)
  moreover obtain s' where "insert_history fault cd e ?v 6 evs
      (?s3\<lparr>cd_contexts := map (note_refresh db_now e ?v) (cd_contexts ?s3)\<rparr>) = (Inr (), s')"
    using insert_history_ok [OF assms(2) _ assms(5)] assms(4) by fastforce
  ultimately have "promote_statements fault cd db_now e m payload sp evs s = (Inr (), s')"
    using assms(2,4) by (simp add: promote_statements_def Let_def bindP_run statement_def)
  then show "\<exists>s'. promote_snapshot fault cd db_now e m payload scores evs s = (Inr (), s')"
    by (simp add: promote_snapshot_def assms(3) bindP_run transaction_def)
qed

section \<open>Properties of hydration\<close>

lemma set_stored_snapshots:
  "set (stored_snapshots s) =
     {(r, p). r \<in> set (cd_snapshots s) \<and> (sn_state r = ''current'' \<or> sn_state r = ''superseded'') \<and>
        p \<in> set (cd_payloads s) \<and> payload_key p = snapshot_key r}"
  by (auto simp: stored_snapshots_def)

lemma hydrate_row_corrupt: "\<not> intact cd r p \<Longrightarrow> \<exists>e g'. hydrate_row cd deserialize (r, p) g = (Inl e, g')"
  by (auto simp: hydrate_row_def Let_def intact_def bindP_run guardP_run)

lemma hydrate_rows_corrupt:
  "(r, p) \<in> set rps \<Longrightarrow> \<not> intact cd r p \<Longrightarrow> \<exists>e g'. hydrate_rows cd deserialize rps g = (Inl e, g')"
proof (induction rps arbitrary: g)
  case (Cons rp rps)
  show ?case
  proof (cases "rp = (r, p)")
    case True
    then show ?thesis using hydrate_row_corrupt [OF Cons.prems(2), of deserialize g] by (auto simp: bindP_run)
  next
    case False
    then have "(r, p) \<in> set rps" using Cons.prems(1) by auto
    from Cons.IH [OF this Cons.prems(2)] show ?thesis
      by (auto simp: bindP_run split: prod.split sum.split)
  qed
qed simp

text \<open>
  C20: hydration never accepts a damaged payload. If the membership or the score payload of
  a stored snapshot does not have the hash that was stored with it, hydration raises, whatever
  the membership store does, and the history is not appended.
\<close>

theorem hydrate_rejects_corrupt_payload:
  assumes "(r, p) \<in> set (stored_snapshots s)"
    and "cd_sha256 cd (py_membership_blob p) \<noteq> sn_membership_sha256 r \<or>
      (\<exists>b. py_score_blob p = Some b \<and> cd_sha256 cd b \<noteq> sn_score_sha256 r)"
  shows "\<exists>e g'. hydrate_runtime cd deserialize app_history s g = (Inl e, g') \<and>
    hydrate_rows cd deserialize (stored_snapshots s) g = (Inl e, g')"
proof -
  have "\<not> intact cd r p" using assms(2) by (auto simp: intact_def)
  obtain e g' where run: "hydrate_rows cd deserialize (stored_snapshots s) g = (Inl e, g')"
    using hydrate_rows_corrupt [OF assms(1) \<open>\<not> intact cd r p\<close>, of deserialize g] by auto
  have "hydrate_runtime cd deserialize app_history s g = (Inl e, g')"
    unfolding hydrate_runtime_def bindP_run run by simp
  with run show ?thesis by blast
qed

lemma filter_same_key: "distinct (map f xs) \<Longrightarrow> p \<in> set xs \<Longrightarrow> filter (\<lambda>q. f q = f p) xs = [p]"
  by (induction xs) (auto simp: filter_empty_conv image_iff)

lemma map_sort_key: "map f (sort_key f xs) = sort (map f xs)"
  by (rule properties_for_sort [symmetric]) simp_all

lemma joined_keys:
  "(\<And>r. r \<in> set rows \<Longrightarrow> \<exists>p. filter (\<lambda>p. payload_key p = snapshot_key r) ps = [p]) \<Longrightarrow>
   map (\<lambda>rp. snapshot_key (fst rp)) (concat (map (\<lambda>r. map (Pair r) (filter (\<lambda>p. payload_key p = snapshot_key r) ps)) rows))
     = map snapshot_key rows"
proof (induction rows)
  case (Cons r rows)
  from Cons.prems [of r] obtain p where "filter (\<lambda>p. payload_key p = snapshot_key r) ps = [p]" by auto
  with Cons show ?case by simp
qed simp

lemma stored_keys:
  assumes "store_wf cd s"
  shows "map (snapshot_key \<circ> fst) (stored_snapshots s) = sort (map snapshot_key (cd_snapshots s))"
proof -
  have all: "filter (\<lambda>r. sn_state r = ''current'' \<or> sn_state r = ''superseded'') (cd_snapshots s) = cd_snapshots s"
    using assms by (simp add: store_wf_def)
  have "\<exists>p. filter (\<lambda>p. payload_key p = snapshot_key r) (cd_payloads s) = [p]" if "r \<in> set (cd_snapshots s)" for r
  proof -
    from assms that obtain p where "p \<in> set (cd_payloads s)" "payload_key p = snapshot_key r" by (auto simp: store_wf_def)
    moreover have "distinct (map payload_key (cd_payloads s))" using assms by (simp add: store_wf_def)
    ultimately show ?thesis using filter_same_key [of payload_key "cd_payloads s" p] by auto
  qed
  then show ?thesis
    using joined_keys [of "cd_snapshots s" "cd_payloads s"]
    by (simp add: stored_snapshots_def all map_sort_key comp_def)
qed

text \<open>What hydration passes to the membership store for a stored snapshot.\<close>

definition restore_args_of :: "codec \<Rightarrow> snapshot_row \<times> payload_row \<Rightarrow> py_exc + restore_args" where
  "restore_args_of cd rp =
     (let r = fst rp; p = snd rp in
      case datetime_of (Some (sn_computed_at r)) of Inl e \<Rightarrow> Inl e | Inr computed \<Rightarrow>
      (case datetime_of (Some (sn_data_as_of r)) of Inl e \<Rightarrow> Inl e | Inr as_of \<Rightarrow>
      (case cd_decode_scores cd (py_score_blob p) of Inl e \<Rightarrow> Inl e | Inr scores \<Rightarrow>
       Inr \<lparr>ra_context_id = sn_context_id r, ra_payload = py_membership_blob p, ra_computed_at = computed,
            ra_data_as_of = as_of, ra_definition_hash = sn_definition_hash r,
            ra_source_watermark = sn_source_watermark r, ra_scores = scores, ra_storage_kind = sn_storage_kind r\<rparr>)))"

lemma hydrate_row_intact:
  assumes "intact cd r p" and "restore_args_of cd (r, p) = Inr a" and "deserialize a g = (Inr (sn_version r), g')"
  shows "hydrate_row cd deserialize (r, p) g = (Inr (), g')"
  using assms by (auto simp: hydrate_row_def restore_args_of_def Let_def intact_def bindP_run split: sum.splits option.splits)

lemma hydrate_rows_intact:
  assumes "\<And>r p. (r, p) \<in> set rps \<Longrightarrow> intact cd r p \<and> restore_args_of cd (r, p) = Inr (args (r, p)) \<and>
      (\<forall>g. deserialize (args (r, p)) g = (Inr (sn_version r), restored (args (r, p)) g))"
  shows "hydrate_rows cd deserialize rps g = (Inr (), fold (\<lambda>rp. restored (args rp)) rps g)"
  using assms
proof (induction rps arbitrary: g)
  case (Cons rp rps)
  obtain r p where rp: "rp = (r, p)" by fastforce
  have "hydrate_row cd deserialize rp g = (Inr (), restored (args rp) g)"
    unfolding rp using Cons.prems [of r p] by (intro hydrate_row_intact [where a = "args (r, p)"]) (simp_all add: rp)
  with Cons show ?case by (simp add: bindP_run)
qed simp

text \<open>
  Hydration of a well-formed store restores each stored snapshot once, in the order of
  (context, version), with the data that was stored, and then appends the history in the order it
  was recorded; it returns when the stored timestamps and scores can be read and the membership
  store numbers the restored snapshots as stored.
\<close>

theorem hydrate_restores_every_snapshot:
  assumes "store_wf cd s"
    and "\<And>rp. rp \<in> set (stored_snapshots s) \<Longrightarrow> restore_args_of cd rp = Inr (args rp) \<and>
      (\<forall>g. deserialize (args rp) g = (Inr (sn_version (fst rp)), restored (args rp) g))"
    and "\<And>evs g. app_history evs g = (Inr (), appended evs g)"
  shows "hydrate_runtime cd deserialize app_history s g =
      (Inr (), appended (map change_of_row (cd_history s)) (fold (\<lambda>rp. restored (args rp)) (stored_snapshots s) g)) \<and>
    map (snapshot_key \<circ> fst) (stored_snapshots s) = sort (map snapshot_key (cd_snapshots s))"
proof -
  have unique: "p = p'" if "p \<in> set (cd_payloads s)" "p' \<in> set (cd_payloads s)" "payload_key p = payload_key p'" for p p'
    using assms(1) that by (auto simp: store_wf_def distinct_map dest: inj_onD)
  have intact: "intact cd r p" if "(r, p) \<in> set (stored_snapshots s)" for r p
  proof -
    from that have rp: "r \<in> set (cd_snapshots s)" "p \<in> set (cd_payloads s)" "payload_key p = snapshot_key r"
      by (auto simp: set_stored_snapshots)
    then obtain p' where "p' \<in> set (cd_payloads s)" "payload_key p' = snapshot_key r" "intact cd r p'"
      using assms(1) by (auto simp: store_wf_def)
    with unique [of p p'] rp show ?thesis by simp
  qed
  have "hydrate_rows cd deserialize (stored_snapshots s) g = (Inr (), fold (\<lambda>rp. restored (args rp)) (stored_snapshots s) g)"
    using intact assms(2) by (intro hydrate_rows_intact) fastforce
  moreover have "map (snapshot_key \<circ> fst) (stored_snapshots s) = sort (map snapshot_key (cd_snapshots s))"
    by (rule stored_keys [OF assms(1)])
  ultimately show ?thesis by (simp add: hydrate_runtime_def bindP_run assms(3))
qed


section \<open>Properties of pruning\<close>

definition as_of_rows :: "string \<Rightarrow> string \<Rightarrow> context_db \<Rightarrow> snapshot_row set" where
  "as_of_rows c t s = {r \<in> set (cd_snapshots s). sn_context_id r = c \<and> sn_data_as_of r \<le> t}"

lemma set_as_of_order [simp]: "set (as_of_order c t s) = as_of_rows c t s"
  by (auto simp: as_of_order_def as_of_rows_def)

lemma anchor_version_last:
  "anchor_version c t s = (if as_of_order c t s = [] then None else Some (sn_version (last (as_of_order c t s))))"
  by (cases "as_of_order c t s" rule: rev_cases) (simp_all add: anchor_version_def)

lemma anchor_versionD:
  assumes "anchor_version c t s = Some v"
  shows "\<exists>r \<in> as_of_rows c t s. sn_version r = v \<and>
    (\<forall>r' \<in> as_of_rows c t s. (sn_data_as_of r', sn_version r') \<le> (sn_data_as_of r, sn_version r))"
proof -
  let ?xs = "as_of_order c t s" and ?key = "\<lambda>r. (sn_data_as_of r, sn_version r)"
  from assms have ne: "?xs \<noteq> []" and v: "sn_version (last ?xs) = v"
    by (auto simp: anchor_version_last split: if_splits)
  have "last ?xs \<in> as_of_rows c t s" using last_in_set [OF ne] by simp
  moreover have "sorted (map ?key ?xs)" unfolding as_of_order_def by (rule sorted_sort_key)
  then have "?key r' \<le> ?key (last ?xs)" if "r' \<in> as_of_rows c t s" for r'
    using sorted_last_max [of ?key ?xs r'] that by simp
  ultimately show ?thesis using v by blast
qed

lemma anchor_version_None: "anchor_version c t s = None \<longleftrightarrow> as_of_rows c t s = {}"
  by (simp add: anchor_version_last flip: set_as_of_order)

lemma anchor_versionI:
  assumes "r \<in> as_of_rows c t s"
    and "\<And>r'. r' \<in> as_of_rows c t s \<Longrightarrow> (sn_data_as_of r', sn_version r') \<le> (sn_data_as_of r, sn_version r)"
  shows "anchor_version c t s = Some (sn_version r)"
proof -
  obtain v where v: "anchor_version c t s = Some v"
    using assms(1) anchor_version_None [of c t s] by (cases "anchor_version c t s") auto
  then obtain r1 where "r1 \<in> as_of_rows c t s" "sn_version r1 = v"
    "(sn_data_as_of r, sn_version r) \<le> (sn_data_as_of r1, sn_version r1)"
    using anchor_versionD [OF v] assms(1) by blast
  with assms(2) [of r1] have "(sn_data_as_of r, sn_version r) = (sn_data_as_of r1, sn_version r1)" by (intro antisym)
  with v \<open>sn_version r1 = v\<close> show ?thesis by simp
qed

lemma prune_history_Inr:
  assumes "prune_history fault e cutoff s = (Inr u, s')"
  shows "case anchor_version (en_context_id e) (isoformat cutoff) s of
      None \<Rightarrow> s' = s
    | Some a \<Rightarrow> s' = s\<lparr>cd_payloads := filter (\<lambda>p. \<not> (py_context_id p = en_context_id e \<and> py_version p < a)) (cd_payloads s),
        cd_snapshots := filter (\<lambda>r. \<not> (sn_context_id r = en_context_id e \<and> sn_version r < a)) (cd_snapshots s),
        cd_history := filter (\<lambda>h. \<not> (hi_context_id h = en_context_id e \<and> hi_effective_at h < isoformat cutoff)) (cd_history s)\<rparr>"
  using assms
  by (cases "anchor_version (en_context_id e) (isoformat cutoff) s")
     (auto simp: prune_history_def Let_def transaction_Inr statement_Inr elim!: bindP_InrD)

lemma prune_history_Inl: "prune_history fault e cutoff s = (Inl er, s') \<Longrightarrow> s' = s"
  by (cases "anchor_version (en_context_id e) (isoformat cutoff) s")
     (auto simp: prune_history_def Let_def dest: transaction_Inl)

lemma store_wf_filter:
  assumes "store_wf cd s" and "cd_payloads s' = filter (\<lambda>p. K (payload_key p)) (cd_payloads s)"
    and "cd_snapshots s' = filter (\<lambda>r. K (snapshot_key r)) (cd_snapshots s)"
  shows "store_wf cd s'"
proof -
  from assms(1) have wf: "distinct (map snapshot_key (cd_snapshots s))" "distinct (map payload_key (cd_payloads s))"
    "one_current (cd_snapshots s)" "payload_key ` set (cd_payloads s) = snapshot_key ` set (cd_snapshots s)"
    "\<forall>r \<in> set (cd_snapshots s). sn_state r = ''current'' \<or> sn_state r = ''superseded''"
    "\<forall>r \<in> set (cd_snapshots s). \<exists>p \<in> set (cd_payloads s). payload_key p = snapshot_key r \<and> intact cd r p"
    unfolding store_wf_def by blast+
  have "distinct (map sn_context_id (filter (\<lambda>r. K (snapshot_key r)) (filter (\<lambda>r. sn_state r = ''current'') (cd_snapshots s))))"
    using wf(3) unfolding one_current_def by (rule distinct_map_filter)
  then have "one_current (cd_snapshots s')"
    unfolding one_current_def assms(3) filter_filter by (simp add: conj_commute)
  moreover have "payload_key ` set (cd_payloads s') = snapshot_key ` set (cd_snapshots s')"
  proof -
    have "payload_key ` set (cd_payloads s') = {k \<in> payload_key ` set (cd_payloads s). K k}" by (auto simp: assms(2))
    moreover have "snapshot_key ` set (cd_snapshots s') = {k \<in> snapshot_key ` set (cd_snapshots s). K k}" by (auto simp: assms(3))
    ultimately show ?thesis by (simp add: wf(4))
  qed
  moreover have "distinct (map snapshot_key (cd_snapshots s'))" "distinct (map payload_key (cd_payloads s'))"
    using wf(1,2) by (simp_all add: assms(2,3) distinct_map_filter)
  moreover have "\<forall>r \<in> set (cd_snapshots s'). \<exists>p \<in> set (cd_payloads s'). payload_key p = snapshot_key r \<and> intact cd r p"
    using wf(6) by (fastforce simp: assms(2,3))
  ultimately show ?thesis using wf(5) by (simp add: store_wf_def assms(3))
qed

definition versions_follow_data :: "string \<Rightarrow> context_db \<Rightarrow> bool" where
  \<comment> \<open>a later version of the context is not about earlier data\<close>
  "versions_follow_data c s \<longleftrightarrow>
     (\<forall>r \<in> set (cd_snapshots s). \<forall>r' \<in> set (cd_snapshots s).
        sn_context_id r = c \<longrightarrow> sn_context_id r' = c \<longrightarrow> sn_version r < sn_version r' \<longrightarrow>
        sn_data_as_of r \<le> sn_data_as_of r')"

lemma anchor_version_kept:
  assumes anchor: "anchor_version c t s = Some a" and mono: "versions_follow_data c s" and "t \<le> t'"
    and rows: "set (cd_snapshots s') = {r \<in> set (cd_snapshots s). \<not> (sn_context_id r = c \<and> sn_version r < a)}"
  shows "anchor_version c t' s' = anchor_version c t' s"
proof -
  obtain ra where ra: "ra \<in> as_of_rows c t s" "sn_version ra = a" using anchor_versionD [OF anchor] by blast
  then have ra': "ra \<in> as_of_rows c t' s" using assms(3) by (auto simp: as_of_rows_def)
  then obtain v where v: "anchor_version c t' s = Some v"
    using anchor_version_None [of c t' s] by (cases "anchor_version c t' s") auto
  then obtain m where m: "m \<in> as_of_rows c t' s" "sn_version m = v"
    and max: "\<And>r'. r' \<in> as_of_rows c t' s \<Longrightarrow> (sn_data_as_of r', sn_version r') \<le> (sn_data_as_of m, sn_version m)"
    using anchor_versionD by blast
  have "\<not> sn_version m < a"
  proof
    assume less: "sn_version m < a"
    with mono ra m have "sn_data_as_of m \<le> sn_data_as_of ra"
      unfolding versions_follow_data_def as_of_rows_def by blast
    with max [OF ra'] ra(2) less show False by auto
  qed
  with m(1) have "m \<in> as_of_rows c t' s'" by (auto simp: as_of_rows_def rows)
  moreover have "as_of_rows c t' s' \<subseteq> as_of_rows c t' s" by (auto simp: as_of_rows_def rows)
  ultimately have "anchor_version c t' s' = Some (sn_version m)"
    using max by (intro anchor_versionI) blast+
  with v m(2) show ?thesis by simp
qed

text \<open>
  C17: pruning is all or nothing and loses nothing that is still needed: the store stays well
  formed, every snapshot and payload of other contexts and every history event from the cutoff on
  is kept, and, when later versions are not about earlier data, the snapshot that answers for any time
  from the cutoff on is the one that answered before.
\<close>

theorem prune_history_keeps_answers:
  assumes "store_wf cd s" and "prune_history fault e cutoff s = (r, s')"
  shows "case r of
      Inl _ \<Rightarrow> s' = s
    | Inr _ \<Rightarrow> store_wf cd s' \<and>
        (\<forall>row \<in> set (cd_snapshots s). sn_context_id row \<noteq> en_context_id e \<longrightarrow> row \<in> set (cd_snapshots s')) \<and>
        (\<forall>h \<in> set (cd_history s). isoformat cutoff \<le> hi_effective_at h \<longrightarrow> h \<in> set (cd_history s')) \<and>
        (versions_follow_data (en_context_id e) s \<longrightarrow>
           (\<forall>t'. isoformat cutoff \<le> t' \<longrightarrow>
              anchor_version (en_context_id e) t' s' = anchor_version (en_context_id e) t' s))"
proof (cases r)
  case (Inl er)
  with assms(2) show ?thesis using prune_history_Inl by simp
next
  case (Inr u)
  let ?c = "en_context_id e" and ?t = "isoformat cutoff"
  show ?thesis
  proof (cases "anchor_version ?c ?t s")
    case None
    then have "s' = s" using prune_history_Inr [of fault e cutoff s u s'] assms(2) Inr by simp
    with assms(1) Inr show ?thesis by simp
  next
    case (Some a)
    then have s': "s' = s\<lparr>cd_payloads := filter (\<lambda>p. \<not> (py_context_id p = ?c \<and> py_version p < a)) (cd_payloads s),
        cd_snapshots := filter (\<lambda>r. \<not> (sn_context_id r = ?c \<and> sn_version r < a)) (cd_snapshots s),
        cd_history := filter (\<lambda>h. \<not> (hi_context_id h = ?c \<and> hi_effective_at h < ?t)) (cd_history s)\<rparr>"
      using prune_history_Inr [of fault e cutoff s u s'] assms(2) Inr by simp
    have "store_wf cd s'"
      by (rule store_wf_filter [OF assms(1), where K = "\<lambda>k. \<not> (fst k = ?c \<and> snd k < a)"])
         (simp_all add: s' payload_key_def snapshot_key_def)
    moreover have "anchor_version ?c t' s' = anchor_version ?c t' s" if "versions_follow_data ?c s" "?t \<le> t'" for t'
      by (rule anchor_version_kept [OF Some that]) (auto simp: s')
    moreover have "row \<in> set (cd_snapshots s')" if "row \<in> set (cd_snapshots s)" "sn_context_id row \<noteq> ?c" for row
      using that by (simp add: s')
    moreover have "h \<in> set (cd_history s')" if "h \<in> set (cd_history s)" "?t \<le> hi_effective_at h" for h
      using that by (auto simp: s')
    ultimately show ?thesis by (simp add: Inr)
  qed
qed

end
