(* ===== verification/Context_Catalog.thy ===== *)
theory Context_Catalog
  imports Context_Db
begin

text \<open>
  Context definitions in the runtime repository (\<open>app/repositories/context_catalog.py\<close>): the back-fill of
  old rows, loading the latest live version of each context, saving, dropping and recording an
  execution. Of \<open>contextql\<close> the repository relies on the materialization settings (built from the
  dict that \<open>asdict\<close> gives) and on the values of \<open>EntityKeyType\<close>: parameters.
\<close>

section \<open>Parameters\<close>

record 'm entry_codec =
  ec_asdict :: "'m \<Rightarrow> json"
  ec_settings :: "json \<Rightarrow> py_exc + 'm"
  ec_key_types :: "string list"
  ec_float :: "string \<Rightarrow> string"
  ec_sha256 :: "string \<Rightarrow> string"

definition json_decode_error :: py_exc where
  \<comment> \<open>\<open>json.JSONDecodeError\<close>; its text is not modelled\<close>
  "json_decode_error = OtherError ''JSONDecodeError'' []"

definition py_loads :: "'m entry_codec \<Rightarrow> string \<Rightarrow> py_exc + json" where
  "py_loads ec t = (case json_loads (ec_float ec) t of None \<Rightarrow> Inl json_decode_error | Some j \<Rightarrow> Inr j)"

definition or_text :: "string option \<Rightarrow> string \<Rightarrow> string" where
  \<comment> \<open>\<open>v or d\<close>\<close>
  "or_text v d = (case v of None \<Rightarrow> d | Some t \<Rightarrow> if t = [] then d else t)"

section \<open>From a row to an entry\<close>

definition json_item :: "json \<Rightarrow> string \<Rightarrow> py_exc + json" where
  \<comment> \<open>\<open>v[key]\<close>\<close>
  "json_item v key =
     (case v of
        JObj kvs \<Rightarrow> (case dict_get kvs key of Some x \<Rightarrow> Inr x | None \<Rightarrow> Inl (KeyError (py_repr key)))
      | _ \<Rightarrow> Inl (TypeError []))"

definition json_get :: "json \<Rightarrow> string \<Rightarrow> py_exc + json" where
  \<comment> \<open>\<open>v.get(key)\<close>\<close>
  "json_get v key =
     (case v of
        JObj kvs \<Rightarrow> (case dict_get kvs key of Some x \<Rightarrow> Inr x | None \<Rightarrow> Inr JNull)
      | _ \<Rightarrow> Inl (OtherError ''AttributeError'' []))"

definition json_iter :: "json \<Rightarrow> py_exc + json list" where
  \<comment> \<open>\<open>for item in v\<close>\<close>
  "json_iter v =
     (case v of
        JArr xs \<Rightarrow> Inr xs
      | JObj kvs \<Rightarrow> Inr (map (JStr \<circ> fst) kvs)
      | JStr t \<Rightarrow> Inr (map (\<lambda>c. JStr [c]) t)
      | _ \<Rightarrow> Inl (TypeError []))"

definition item_of_json :: "json \<Rightarrow> py_exc + composition_item" where
  "item_of_json item =
     bindE (json_item item ''name'') (\<lambda>n. bindE (json_get item ''weight'') (\<lambda>w.
     Inr \<lparr>ci_name = n, ci_weight = w\<rparr>))"

definition composition_of_json :: "json \<Rightarrow> py_exc + composition" where
  "composition_of_json raw =
     bindE (json_item raw ''strategy'') (\<lambda>strategy.
     bindE (json_item raw ''items'') (\<lambda>items.
     bindE (json_iter items) (\<lambda>xs.
     bindE (mapE item_of_json xs) (\<lambda>its.
     Inr \<lparr>co_strategy = strategy, co_items = its\<rparr>))))"

definition entry_from_row :: "'m entry_codec \<Rightarrow> context_row \<Rightarrow> py_exc + 'm catalog_entry" where
  "entry_from_row ec r =
     bindE (py_loads ec (or_text (cx_materialization_json r) ''{}'')) (\<lambda>materialization_data.
     bindE (case cx_composition_json r of
              None \<Rightarrow> Inr None
            | Some t \<Rightarrow> if t = [] then Inr None
                        else bindE (py_loads ec t) (\<lambda>raw. bindE (composition_of_json raw) (\<lambda>c. Inr (Some c)))) (\<lambda>composition.
     bindE (ec_settings ec materialization_data) (\<lambda>materialization.
     bindE (datetime_of (cx_last_refreshed_at r)) (\<lambda>last_refreshed_at.
     bindE (datetime_of (cx_data_as_of r)) (\<lambda>data_as_of.
     bindE (py_loads ec (or_text (cx_tags r) ''[]'')) (\<lambda>tags.
     bindE (py_loads ec (or_text (cx_dependency_refs r) ''[]'')) (\<lambda>dependencies.
     bindE (datetime_of (cx_history_available_from r)) (\<lambda>history_available_from.
     let key_type = or_text (cx_entity_key_type r) ''UNKNOWN'' in
     Inr \<lparr>en_name = cx_name r,
          en_namespace = or_text (Some (cx_namespace r)) ''default'',
          en_context_id = (case cx_context_id r of Some c \<Rightarrow> c | None \<Rightarrow> []),
          en_version = cx_version r,
          en_definition_hash = cx_definition_hash r,
          en_entity_key_name = cx_entity_key r,
          en_entity_key_type = (if key_type \<in> set (ec_key_types ec) then key_type else ''UNKNOWN''),
          en_has_score = (cx_has_score r \<noteq> 0),
          en_is_temporal = (or_text (cx_temporal_column r) [] \<noteq> []),
          en_lifecycle_state = cx_lifecycle_state r,
          en_materialization = materialization,
          en_current_snapshot_version = cx_current_snapshot_version r,
          en_last_refreshed_at = last_refreshed_at,
          en_data_as_of = data_as_of,
          en_description = cx_description r,
          en_tags = tags,
          en_dependencies = dependencies,
          en_definition_sql = cx_definition_sql r,
          en_composition = composition,
          en_score_expression = cx_score_expression r,
          en_temporal_column = cx_temporal_column r,
          en_temporal_granularity = cx_temporal_granularity r,
          en_source_kind = or_text (Some (cx_source_kind r)) ''native'',
          en_history_available_from = history_available_from,
          en_last_refresh_error = cx_last_refresh_error r\<rparr>))))))))"

section \<open>Saving\<close>

definition json_of_composition :: "composition \<Rightarrow> json" where
  "json_of_composition c =
     JObj [(''strategy'', co_strategy c),
           (''items'', JArr (map (\<lambda>i. JObj [(''name'', ci_name i), (''weight'', ci_weight i)]) (co_items c)))]"

definition save_fields :: "'m entry_codec \<Rightarrow> 'm catalog_entry \<Rightarrow> context_row \<Rightarrow> context_row" where
  \<comment> \<open>every column of \<open>values\<close> except \<open>context_id\<close>, \<open>version\<close> and \<open>raw_ddl\<close>\<close>
  "save_fields ec e r =
     r\<lparr>cx_name := en_name e,
       cx_namespace := en_namespace e,
       cx_definition_text := or_text (en_definition_sql e) [],
       cx_entity_key := en_entity_key_name e,
       cx_entity_key_type := Some (en_entity_key_type e),
       cx_has_score := (if en_has_score e then 1 else 0),
       cx_score_column := en_score_expression e,
       cx_description := en_description e,
       cx_tags := Some (json_dumps (en_tags e)),
       cx_lifecycle_state := en_lifecycle_state e,
       cx_dependency_refs := Some (json_dumps (en_dependencies e)),
       cx_definition_hash := en_definition_hash e,
       cx_materialization_json := Some (json_dumps (ec_asdict ec (en_materialization e))),
       cx_current_snapshot_version := en_current_snapshot_version e,
       cx_last_refreshed_at := iso_opt (en_last_refreshed_at e),
       cx_data_as_of := iso_opt (en_data_as_of e),
       cx_last_refresh_error := en_last_refresh_error e,
       cx_history_available_from := iso_opt (en_history_available_from e),
       cx_definition_sql := en_definition_sql e,
       cx_score_expression := en_score_expression e,
       cx_composition_json := map_option (json_dumps \<circ> json_of_composition) (en_composition e),
       cx_temporal_column := en_temporal_column e,
       cx_temporal_granularity := en_temporal_granularity e,
       cx_source_kind := en_source_kind e\<rparr>"

definition blank_row :: "int \<Rightarrow> string \<Rightarrow> string \<Rightarrow> int \<Rightarrow> string option \<Rightarrow> context_row" where
  \<comment> \<open>the defaults of the columns an insert does not give\<close>
  "blank_row i db_now c v raw_ddl =
     \<lparr>cx_id = i, cx_name = [], cx_namespace = ''default'', cx_version = v, cx_definition_text = [],
      cx_entity_key = [], cx_has_score = 0, cx_score_column = None, cx_description = None, cx_tags = None,
      cx_classification = Some ''internal'', cx_lifecycle_state = ''draft'', cx_dependency_refs = None,
      cx_provider_refs = None, cx_created_at = db_now, cx_updated_at = db_now, cx_last_validated_at = None,
      cx_last_executed_at = None, cx_freshness_metadata = None, cx_context_id = Some c,
      cx_definition_hash = None, cx_raw_ddl = raw_ddl, cx_materialization_json = None,
      cx_current_snapshot_version = None, cx_last_refreshed_at = None, cx_data_as_of = None,
      cx_last_refresh_error = None, cx_history_available_from = None, cx_dropped_at = None,
      cx_definition_sql = None, cx_entity_key_type = None, cx_score_expression = None,
      cx_composition_json = None, cx_temporal_column = None, cx_temporal_granularity = None,
      cx_source_kind = ''native''\<rparr>"

definition row_of_version :: "string \<Rightarrow> int \<Rightarrow> context_row \<Rightarrow> bool" where
  "row_of_version c v r \<longleftrightarrow> cx_context_id r = Some c \<and> cx_version r = v"

definition name_key :: "context_row \<Rightarrow> string \<times> string \<times> int" where
  "name_key r = (cx_name r, cx_namespace r, cx_version r)"

definition contexts_ok :: "context_row list \<Rightarrow> bool" where
  \<comment> \<open>the unique indexes of the table; NULL ids do not collide\<close>
  "contexts_ok rows \<longleftrightarrow>
     distinct (map name_key rows) \<and>
     distinct (map (\<lambda>r. (cx_context_id r, cx_version r)) (filter (\<lambda>r. cx_context_id r \<noteq> None) rows))"

definition write_contexts :: "context_row list \<Rightarrow> context_db \<Rightarrow> py_exc + context_db" where
  "write_contexts rows s =
     (if contexts_ok rows then Inr (s\<lparr>cd_contexts := rows\<rparr>) else Inl (unique_error ''contexts''))"

definition save_binds :: "'m catalog_entry \<Rightarrow> int list" where
  "save_binds e = en_version e # (case en_current_snapshot_version e of None \<Rightarrow> [] | Some v \<Rightarrow> [v])"

definition save_context :: "stmt_faults \<Rightarrow> 'm entry_codec \<Rightarrow> string \<Rightarrow> 'm catalog_entry \<Rightarrow> string option \<Rightarrow> unit cdb" where
  "save_context fault ec db_now e raw_ddl =
     (let c = en_context_id e; v = en_version e in
      bindP (statement fault 0 [v] Inr) (\<lambda>_.
      bindP (readP (\<lambda>s. list_ex (row_of_version c v) (cd_contexts s))) (\<lambda>existing.
      bindP (if \<not> existing
             then statement fault 1 (save_binds e) (\<lambda>s.
               bindE (write_contexts (cd_contexts s @ [save_fields ec e (blank_row (cd_contexts_seq s + 1) db_now c v raw_ddl)]) s)
                 (\<lambda>s'. Inr (s'\<lparr>cd_contexts_seq := cd_contexts_seq s + 1\<rparr>)))
             else statement fault 1 (save_binds e) (\<lambda>s.
               write_contexts (map (\<lambda>r.
                 if row_of_version c v r
                 then (save_fields ec e r)\<lparr>cx_raw_ddl := (case raw_ddl of None \<Rightarrow> cx_raw_ddl r | Some d \<Rightarrow> Some d),
                                           cx_updated_at := db_now\<rparr>
                 else r) (cd_contexts s)) s)) (\<lambda>_.
      statement fault 2 [] Inr))))"

section \<open>Loading, dropping, recording\<close>

definition live :: "context_row \<Rightarrow> bool" where
  "live r \<longleftrightarrow> cx_context_id r \<noteq> None \<and> cx_dropped_at r = None"

definition latest_rows :: "context_row list \<Rightarrow> context_row list" where
  \<comment> \<open>the join with \<open>MAX(version) ... GROUP BY context_id\<close>\<close>
  "latest_rows rows =
     filter (\<lambda>r. live r \<and> list_all (\<lambda>r'. live r' \<and> cx_context_id r' = cx_context_id r \<longrightarrow> cx_version r' \<le> cx_version r) rows) rows"

definition load_contexts ::
  "'m entry_codec \<Rightarrow> (context_row list \<Rightarrow> context_row list) \<Rightarrow> 'm catalog_entry list cdb" where
  "load_contexts ec scan =
     bindP (readP (\<lambda>s. sort_key (\<lambda>r. (cx_namespace r, cx_name r)) (scan (latest_rows (cd_contexts s)))))
       (\<lambda>rows. liftE (mapE (entry_from_row ec) rows))"

definition drop_context :: "stmt_faults \<Rightarrow> string \<Rightarrow> datetime \<Rightarrow> 'm catalog_entry \<Rightarrow> unit cdb" where
  "drop_context fault db_now now e =
     bindP (statement fault 0 [] (\<lambda>s. Inr (s\<lparr>cd_contexts := map (\<lambda>r.
       if cx_context_id r = Some (en_context_id e)
       then r\<lparr>cx_dropped_at := Some (isoformat now), cx_updated_at := db_now\<rparr> else r) (cd_contexts s)\<rparr>))) (\<lambda>_.
     statement fault 1 [] Inr)"

definition record_execution :: "stmt_faults \<Rightarrow> string \<Rightarrow> string \<Rightarrow> int \<Rightarrow> datetime \<Rightarrow> unit cdb" where
  "record_execution fault db_now c v executed_at =
     bindP (statement fault 0 [v] (\<lambda>s. Inr (s\<lparr>cd_contexts := map (\<lambda>r.
       if row_of_version c v r
       then r\<lparr>cx_last_executed_at := Some (isoformat executed_at), cx_updated_at := db_now\<rparr> else r) (cd_contexts s)\<rparr>))) (\<lambda>_.
     statement fault 1 [] Inr)"

section \<open>Back-fill\<close>

text \<open>
  SQLite takes \<open>definition_text\<close> from an arbitrary row of a group: \<open>pick\<close>. The groups come in
  the order of their key; \<open>uuid k\<close> is the k-th \<open>uuid4()\<close>.
\<close>

definition row_name :: "context_row \<Rightarrow> string \<times> string" where
  "row_name r = (cx_name r, cx_namespace r)"

definition backfill_groups :: "(context_row list \<Rightarrow> context_row) \<Rightarrow> context_row list \<Rightarrow> ((string \<times> string) \<times> string) list" where
  "backfill_groups pick rows =
     (let missing = filter (\<lambda>r. cx_context_id r = None) rows
      in map (\<lambda>k. (k, cx_definition_text (pick (filter (\<lambda>r. row_name r = k) missing)))) (sort (remdups (map row_name missing))))"

definition backfill_row :: "(string \<times> string) \<Rightarrow> string \<Rightarrow> string \<Rightarrow> context_row \<Rightarrow> context_row" where
  "backfill_row k context_id definition_hash r =
     (if row_name r = k
      then r\<lparr>cx_context_id := Some context_id,
             cx_definition_hash := (case cx_definition_hash r of None \<Rightarrow> Some definition_hash | Some h \<Rightarrow> Some h)\<rparr>
      else r)"

fun backfill_loop :: "stmt_faults \<Rightarrow> ('m entry_codec) \<Rightarrow> (nat \<Rightarrow> string) \<Rightarrow> nat \<Rightarrow> ((string \<times> string) \<times> string) list \<Rightarrow> unit cdb" where
  "backfill_loop fault ec uuid i [] = ret ()"
| "backfill_loop fault ec uuid i ((k, definition) # groups) =
     bindP (statement fault (Suc i) [] (\<lambda>s.
       write_contexts (map (backfill_row k (uuid i) (ec_sha256 ec definition)) (cd_contexts s)) s)) (\<lambda>_.
     backfill_loop fault ec uuid (Suc i) groups)"

definition backfill_v2_rows :: "stmt_faults \<Rightarrow> 'm entry_codec \<Rightarrow> (context_row list \<Rightarrow> context_row) \<Rightarrow> (nat \<Rightarrow> string) \<Rightarrow> unit cdb" where
  "backfill_v2_rows fault ec pick uuid =
     bindP (statement fault 0 [] Inr) (\<lambda>_.
     bindP (readP (\<lambda>s. backfill_groups pick (cd_contexts s))) (\<lambda>groups.
     bindP (backfill_loop fault ec uuid 0 groups) (\<lambda>_.
     statement fault (Suc (length groups)) [] Inr)))"

section \<open>An entry and its row\<close>

definition aware :: "datetime option \<Rightarrow> bool" where
  "aware t \<longleftrightarrow> (case t of None \<Rightarrow> True | Some d \<Rightarrow> valid_datetime d \<and> dt_tz d \<noteq> None)"

definition composition_ok :: "(string \<Rightarrow> string) \<Rightarrow> composition \<Rightarrow> bool" where
  "composition_ok fr c \<longleftrightarrow> json_ok fr (co_strategy c) \<and> list_all (\<lambda>i. json_ok fr (ci_name i) \<and> json_ok fr (ci_weight i)) (co_items c)"

definition entry_ok :: "'m entry_codec \<Rightarrow> 'm catalog_entry \<Rightarrow> bool" where
  \<comment> \<open>an entry the engine can have: its parts are JSON, its times aware, its settings rebuild from their dict\<close>
  "entry_ok ec e \<longleftrightarrow>
     en_namespace e \<noteq> [] \<and> en_source_kind e \<noteq> [] \<and> en_entity_key_type e \<noteq> [] \<and>
     en_entity_key_type e \<in> set (ec_key_types ec) \<and>
     en_is_temporal e = (or_text (en_temporal_column e) [] \<noteq> []) \<and>
     json_ok (ec_float ec) (en_tags e) \<and> json_ok (ec_float ec) (en_dependencies e) \<and>
     json_ok (ec_float ec) (ec_asdict ec (en_materialization e)) \<and>
     ec_settings ec (ec_asdict ec (en_materialization e)) = Inr (en_materialization e) \<and>
     (case en_composition e of None \<Rightarrow> True | Some c \<Rightarrow> composition_ok (ec_float ec) c) \<and>
     aware (en_last_refreshed_at e) \<and> aware (en_data_as_of e) \<and> aware (en_history_available_from e)"

lemma json_dumps_nonempty: "json_ok fr v \<Longrightarrow> json_dumps v \<noteq> []"
  by (rule json_head [of fr v "'', ''" "'': ''"]) auto

lemma py_loads_dumps: "json_ok (ec_float ec) v \<Longrightarrow> py_loads ec (json_dumps v) = Inr v"
  by (simp add: py_loads_def)

lemma item_of_json_round: "item_of_json (JObj [(''name'', ci_name i), (''weight'', ci_weight i)]) = Inr i"
  by (simp add: item_of_json_def json_item_def json_get_def)

lemma composition_round: "composition_of_json (json_of_composition c) = Inr c"
proof -
  have "mapE item_of_json (map (\<lambda>i. JObj [(''name'', ci_name i), (''weight'', ci_weight i)]) xs) = Inr xs" for xs
    by (induction xs) (simp_all add: item_of_json_round)
  then show ?thesis by (simp add: composition_of_json_def json_of_composition_def json_item_def json_iter_def)
qed

lemma composition_json_ok: "composition_ok fr c \<Longrightarrow> json_ok fr (json_of_composition c)"
  by (auto simp: composition_ok_def json_of_composition_def list_all_iff)

lemma datetime_of_aware: "aware t \<Longrightarrow> datetime_of (iso_opt t) = Inr t"
  by (rule datetime_of_iso) (auto simp: aware_def)

lemma entry_from_saved:
  assumes ok: "entry_ok ec e" and "cx_context_id r = Some (en_context_id e)" and "cx_version r = en_version e"
  shows "entry_from_row ec ((save_fields ec e r)\<lparr>cx_raw_ddl := d, cx_updated_at := t\<rparr>) = Inr e"
proof -
  let ?r = "(save_fields ec e r)\<lparr>cx_raw_ddl := d, cx_updated_at := t\<rparr>"
  have loads: "py_loads ec (or_text (Some (json_dumps v)) x) = Inr v" if "json_ok (ec_float ec) v" for v x
    using that by (simp add: or_text_def json_dumps_nonempty py_loads_dumps)
  have comp: "(case map_option (json_dumps \<circ> json_of_composition) (en_composition e) of
        None \<Rightarrow> Inr None
      | Some t \<Rightarrow> if t = [] then Inr None
                  else bindE (py_loads ec t) (\<lambda>raw. bindE (composition_of_json raw) (\<lambda>c. Inr (Some c)))) = Inr (en_composition e)"
  proof (cases "en_composition e")
    case (Some c)
    with ok have "json_ok (ec_float ec) (json_of_composition c)" by (simp add: entry_ok_def composition_json_ok)
    then show ?thesis by (simp add: Some json_dumps_nonempty py_loads_dumps composition_round)
  qed simp
  have fields: "cx_materialization_json ?r = Some (json_dumps (ec_asdict ec (en_materialization e)))"
    "cx_composition_json ?r = map_option (json_dumps \<circ> json_of_composition) (en_composition e)"
    "cx_tags ?r = Some (json_dumps (en_tags e))" "cx_dependency_refs ?r = Some (json_dumps (en_dependencies e))"
    "cx_last_refreshed_at ?r = iso_opt (en_last_refreshed_at e)" "cx_data_as_of ?r = iso_opt (en_data_as_of e)"
    "cx_history_available_from ?r = iso_opt (en_history_available_from e)"
    by (simp_all add: save_fields_def)
  from ok show ?thesis
    unfolding entry_from_row_def fields comp entry_ok_def
    by (simp add: loads datetime_of_aware Let_def) (simp add: save_fields_def assms(2,3) or_text_def)
qed

section \<open>Properties of saving and loading\<close>

lemma write_contexts_Inr: "write_contexts rows s = Inr s' \<longleftrightarrow> contexts_ok rows \<and> s' = s\<lparr>cd_contexts := rows\<rparr>"
  by (auto simp: write_contexts_def)

lemma row_of_version_save [simp]:
  "row_of_version c v (save_fields ec e r) = row_of_version c v r"
  "row_of_version c v (r\<lparr>cx_raw_ddl := d, cx_updated_at := t\<rparr>) = row_of_version c v r"
  by (simp_all add: row_of_version_def save_fields_def)

lemma dropped_save [simp]:
  "cx_dropped_at ((save_fields ec e r)\<lparr>cx_raw_ddl := d, cx_updated_at := t\<rparr>) = cx_dropped_at r"
  by (simp add: save_fields_def)

lemma contexts_ok_unique:
  assumes "contexts_ok rows" and "r \<in> set rows" and "r' \<in> set rows" and "row_of_version c v r" and "row_of_version c v r'"
  shows "r = r'"
proof -
  let ?live = "filter (\<lambda>r. cx_context_id r \<noteq> None) rows"
  have "inj_on (\<lambda>r. (cx_context_id r, cx_version r)) (set ?live)"
    using assms(1) by (simp add: contexts_ok_def distinct_map)
  from inj_onD [OF this, of r r'] show ?thesis using assms(2-) by (simp add: row_of_version_def)
qed

lemma image_one:
  assumes "\<And>r. r \<in> A \<Longrightarrow> P r \<Longrightarrow> r = r0" and "r0 \<in> A" and "P r0"
  shows "(\<lambda>r. if P r then f r else r) ` A = insert (f r0) {r \<in> A. \<not> P r}"
proof
  show "(\<lambda>r. if P r then f r else r) ` A \<subseteq> insert (f r0) {r \<in> A. \<not> P r}"
    using assms(1) by auto
  have "f r0 \<in> (\<lambda>r. if P r then f r else r) ` A"
    using assms(2,3) by (intro image_eqI [of _ _ r0]) simp_all
  moreover have "r \<in> (\<lambda>r. if P r then f r else r) ` A" if "r \<in> A" "\<not> P r" for r
    using that by (intro image_eqI [of _ _ r]) simp_all
  ultimately show "insert (f r0) {r \<in> A. \<not> P r} \<subseteq> (\<lambda>r. if P r then f r else r) ` A" by blast
qed

text \<open>The row that a save leaves, and what it does to the others.\<close>

lemma save_context_Inr:
  assumes "contexts_ok (cd_contexts s)" and "save_context fault ec db_now e raw_ddl s = (Inr u, s')"
  obtains r0 d t where
    "row_of_version (en_context_id e) (en_version e) r0"
    "set (cd_contexts s') = insert ((save_fields ec e r0)\<lparr>cx_raw_ddl := d, cx_updated_at := t\<rparr>)
       {r \<in> set (cd_contexts s). \<not> row_of_version (en_context_id e) (en_version e) r}"
    "contexts_ok (cd_contexts s')"
    "d = (case raw_ddl of None \<Rightarrow> cx_raw_ddl r0 | Some x \<Rightarrow> Some x)"
    "r0 \<in> set (cd_contexts s) \<or> cx_dropped_at r0 = None \<and> cx_raw_ddl r0 = raw_ddl"
proof -
  let ?tv = "row_of_version (en_context_id e) (en_version e)"
  show thesis
  proof (cases "list_ex ?tv (cd_contexts s)")
    case True
    then obtain r0 where r0: "r0 \<in> set (cd_contexts s)" "?tv r0" by (auto simp: list_ex_iff)
    then have uniq: "r = r0" if "r \<in> set (cd_contexts s)" "?tv r" for r
      using that by (intro contexts_ok_unique [OF assms(1) _ r0(1) _ r0(2)])
    let ?d = "case raw_ddl of None \<Rightarrow> cx_raw_ddl r0 | Some x \<Rightarrow> Some x"
    let ?f = "\<lambda>r. if ?tv r then (save_fields ec e r)\<lparr>cx_raw_ddl := (case raw_ddl of None \<Rightarrow> cx_raw_ddl r | Some x \<Rightarrow> Some x), cx_updated_at := db_now\<rparr> else r"
    from assms(2) True have s': "contexts_ok (map ?f (cd_contexts s))" "s' = s\<lparr>cd_contexts := map ?f (cd_contexts s)\<rparr>"
      by (auto simp: save_context_def Let_def statement_Inr write_contexts_Inr elim!: bindP_InrD)
    have "?f ` set (cd_contexts s) = insert ((save_fields ec e r0)\<lparr>cx_raw_ddl := ?d, cx_updated_at := db_now\<rparr>) {r \<in> set (cd_contexts s). \<not> ?tv r}"
      by (rule image_one [where P = ?tv]) (use r0 uniq in blast)+
    then show thesis using that [of r0 db_now ?d] r0 s' by simp
  next
    case False
    let ?r0 = "blank_row (cd_contexts_seq s + 1) db_now (en_context_id e) (en_version e) raw_ddl"
    from assms(2) False have s': "contexts_ok (cd_contexts s @ [save_fields ec e ?r0])"
      "s' = s\<lparr>cd_contexts := cd_contexts s @ [save_fields ec e ?r0], cd_contexts_seq := cd_contexts_seq s + 1\<rparr>"
      by (auto simp: save_context_def Let_def statement_Inr write_contexts_Inr bindE_Inr elim!: bindP_InrD)
    have same: "(save_fields ec e ?r0)\<lparr>cx_raw_ddl := raw_ddl, cx_updated_at := db_now\<rparr> = save_fields ec e ?r0"
      by (simp add: save_fields_def blank_row_def)
    have "{r \<in> set (cd_contexts s). \<not> ?tv r} = set (cd_contexts s)" using False by (auto simp: list_ex_iff)
    moreover have "cx_raw_ddl ?r0 = raw_ddl" "cx_dropped_at ?r0 = None" "?tv ?r0"
      by (simp_all add: blank_row_def row_of_version_def)
    ultimately show thesis using that [of ?r0 db_now raw_ddl] s' same by (cases raw_ddl) simp_all
  qed
qed

lemma entry_from_row_id:
  assumes "entry_from_row ec r = Inr e" and "cx_context_id r = Some c"
  shows "en_context_id e = c" and "en_version e = cx_version r"
  using assms by (auto simp: entry_from_row_def bindE_Inr Let_def)

lemma live_save [simp]:
  "live ((save_fields ec e r)\<lparr>cx_raw_ddl := d, cx_updated_at := t\<rparr>) = live r"
  by (simp add: live_def save_fields_def)

lemma set_latest_rows:
  "r \<in> set (latest_rows rows) \<longleftrightarrow> r \<in> set rows \<and> live r \<and>
     (\<forall>r' \<in> set rows. live r' \<longrightarrow> cx_context_id r' = cx_context_id r \<longrightarrow> cx_version r' \<le> cx_version r)"
  by (auto simp: latest_rows_def list_all_iff)

lemma filter_single:
  "distinct xs \<Longrightarrow> x \<in> set xs \<Longrightarrow> (\<And>y. y \<in> set xs \<Longrightarrow> P y \<longleftrightarrow> y = x) \<Longrightarrow> filter P xs = [x]"
  by (induction xs) (auto simp: filter_empty_conv)

lemma contexts_ok_distinct: "contexts_ok rows \<Longrightarrow> distinct rows"
  by (auto simp: contexts_ok_def distinct_map)

text \<open>Loading when every latest row can be read.\<close>

lemma load_contexts_run:
  assumes "scan_ok scan" and "\<And>r. r \<in> set (latest_rows (cd_contexts s)) \<Longrightarrow> entry_from_row ec r = Inr (g r)"
  shows "\<exists>rows. mset rows = mset (latest_rows (cd_contexts s)) \<and> load_contexts ec scan s = (Inr (map g rows), s)"
proof -
  let ?rows = "sort_key (\<lambda>r. (cx_namespace r, cx_name r)) (scan (latest_rows (cd_contexts s)))"
  have m: "mset ?rows = mset (latest_rows (cd_contexts s))" using assms(1) by (simp add: scan_ok_def)
  then have "set ?rows = set (latest_rows (cd_contexts s))" by (metis set_mset_mset)
  with assms(2) have "mapE (entry_from_row ec) ?rows = Inr (map g ?rows)" by (intro mapE_Inr) auto
  with m show ?thesis by (intro exI [of _ ?rows]) (simp add: load_contexts_def bindP_run)
qed

lemma saved_row_is_latest:
  assumes "contexts_ok (cd_contexts s)" and "save_context fault ec db_now e raw_ddl s = (Inr u, s')" and "entry_ok ec e"
    and latest: "\<And>r. r \<in> set (cd_contexts s) \<Longrightarrow> cx_context_id r = Some (en_context_id e) \<Longrightarrow>
      cx_version r \<le> en_version e \<and> (cx_version r = en_version e \<longrightarrow> cx_dropped_at r = None)"
  obtains new where "entry_from_row ec new = Inr e" "cx_context_id new = Some (en_context_id e)" "cx_version new = en_version e"
    "new \<in> set (latest_rows (cd_contexts s'))"
    "\<And>r. r \<in> set (latest_rows (cd_contexts s')) \<Longrightarrow> cx_context_id r = Some (en_context_id e) \<Longrightarrow> r = new"
    "set (cd_contexts s') = insert new {r \<in> set (cd_contexts s). \<not> row_of_version (en_context_id e) (en_version e) r}"
    "contexts_ok (cd_contexts s')"
proof -
  let ?c = "en_context_id e" and ?v = "en_version e"
  obtain r0 d t where r0: "row_of_version ?c ?v r0"
    and set': "set (cd_contexts s') = insert ((save_fields ec e r0)\<lparr>cx_raw_ddl := d, cx_updated_at := t\<rparr>)
       {r \<in> set (cd_contexts s). \<not> row_of_version ?c ?v r}"
    and ok': "contexts_ok (cd_contexts s')"
    and old: "r0 \<in> set (cd_contexts s) \<or> cx_dropped_at r0 = None \<and> cx_raw_ddl r0 = raw_ddl"
    by (rule save_context_Inr [OF assms(1,2)]) blast
  let ?new = "(save_fields ec e r0)\<lparr>cx_raw_ddl := d, cx_updated_at := t\<rparr>"
  have id: "cx_context_id ?new = Some ?c" "cx_version ?new = ?v"
    using r0 by (simp_all add: row_of_version_def save_fields_def)
  have new: "entry_from_row ec ?new = Inr e"
    using r0 by (intro entry_from_saved [OF assms(3)]) (simp_all add: row_of_version_def)
  have "cx_dropped_at r0 = None" using old latest [of r0] r0 by (auto simp: row_of_version_def)
  then have livenew: "live ?new" using r0 unfolding live_save by (simp add: live_def row_of_version_def)
  have top: "cx_version r \<le> ?v" if "r \<in> set (cd_contexts s')" "cx_context_id r = Some ?c" for r
    using that latest [of r] id by (auto simp: set')
  have new_latest: "?new \<in> set (latest_rows (cd_contexts s'))"
    unfolding set_latest_rows using livenew top id set' by (metis insertI1)
  have only: "r = ?new" if "r \<in> set (latest_rows (cd_contexts s'))" "cx_context_id r = Some ?c" for r
  proof -
    from that have "?v \<le> cx_version r" unfolding set_latest_rows using livenew id set' by (metis insertI1)
    with top that have "row_of_version ?c ?v r" by (simp add: set_latest_rows row_of_version_def order_antisym)
    then show ?thesis using that(1) set' by (simp add: set_latest_rows)
  qed
  show thesis by (rule that [OF new id new_latest only set' ok'])
qed

text \<open>
  C18: what is saved is what is loaded. After an entry is saved whose version is live and the
  latest of its context, \<open>load_contexts\<close> returns exactly that entry for its context id, with
  every field as it was given; rows of other contexts and versions are as they were and the unique
  indexes hold.
\<close>

theorem saved_context_is_loaded:
  assumes "contexts_ok (cd_contexts s)" and "save_context fault ec db_now e raw_ddl s = (Inr u, s')"
    and "entry_ok ec e" and "scan_ok scan"
    and latest: "\<And>r. r \<in> set (cd_contexts s) \<Longrightarrow> cx_context_id r = Some (en_context_id e) \<Longrightarrow>
      cx_version r \<le> en_version e \<and> (cx_version r = en_version e \<longrightarrow> cx_dropped_at r = None)"
    and others: "\<And>r. r \<in> set (cd_contexts s) \<Longrightarrow> cx_context_id r \<noteq> Some (en_context_id e) \<Longrightarrow> live r \<Longrightarrow> \<exists>e'. entry_from_row ec r = Inr e'"
  shows "\<exists>es. load_contexts ec scan s' = (Inr es, s') \<and> [e' \<leftarrow> es. en_context_id e' = en_context_id e] = [e] \<and>
    contexts_ok (cd_contexts s') \<and>
    (\<forall>r. \<not> row_of_version (en_context_id e) (en_version e) r \<longrightarrow> r \<in> set (cd_contexts s) \<longleftrightarrow> r \<in> set (cd_contexts s'))"
proof -
  let ?c = "en_context_id e" and ?v = "en_version e"
  obtain new where new: "entry_from_row ec new = Inr e" and id: "cx_context_id new = Some ?c" "cx_version new = ?v"
    and new_latest: "new \<in> set (latest_rows (cd_contexts s'))"
    and only: "\<And>r. r \<in> set (latest_rows (cd_contexts s')) \<Longrightarrow> cx_context_id r = Some ?c \<Longrightarrow> r = new"
    and set': "set (cd_contexts s') = insert new {r \<in> set (cd_contexts s). \<not> row_of_version ?c ?v r}"
    and ok': "contexts_ok (cd_contexts s')"
    using saved_row_is_latest [OF assms(1-3) latest] by blast
  let ?g = "\<lambda>r. case entry_from_row ec r of Inr e' \<Rightarrow> e' | Inl _ \<Rightarrow> e"
  have read: "entry_from_row ec r = Inr (?g r)" if "r \<in> set (latest_rows (cd_contexts s'))" for r
  proof (cases "cx_context_id r = Some ?c")
    case True
    then show ?thesis using only [OF that True] new by simp
  next
    case False
    then have "r \<in> set (cd_contexts s)" "live r" using that set' id by (auto simp: set_latest_rows)
    then show ?thesis using others [OF _ False] by fastforce
  qed
  obtain rows where rows: "mset rows = mset (latest_rows (cd_contexts s'))" "load_contexts ec scan s' = (Inr (map ?g rows), s')"
    using load_contexts_run [OF assms(4) read] by blast
  have rset: "set rows = set (latest_rows (cd_contexts s'))" using rows(1) by (metis set_mset_mset)
  have "distinct (latest_rows (cd_contexts s'))" unfolding latest_rows_def using contexts_ok_distinct [OF ok'] by (rule distinct_filter)
  then have "distinct rows" using mset_eq_imp_distinct_iff [OF rows(1)] by blast
  then have "filter (\<lambda>r. en_context_id (?g r) = ?c) rows = [new]"
  proof (rule filter_single)
    show "new \<in> set rows" using new_latest rset by simp
    fix r assume r: "r \<in> set rows"
    then obtain c where c: "cx_context_id r = Some c" by (auto simp: rset set_latest_rows live_def)
    have "en_context_id (?g r) = c" using entry_from_row_id(1) [OF read c] r rset by simp
    then show "en_context_id (?g r) = ?c \<longleftrightarrow> r = new" using only [of r] r rset c id by auto
  qed
  then have "[e' \<leftarrow> map ?g rows. en_context_id e' = ?c] = [e]" by (simp add: filter_map comp_def new)
  then show ?thesis using rows(2) ok' set' id by (auto simp: row_of_version_def)
qed

text \<open>
  Re-saving a version without DDL keeps the DDL it had, and saving with DDL stores it; a
  version that was dropped stays dropped.
\<close>

theorem save_keeps_ddl:
  assumes "save_context fault ec db_now e raw_ddl s = (Inr u, s')"
    and "r \<in> set (cd_contexts s)" and "row_of_version (en_context_id e) (en_version e) r"
  shows "\<exists>r' \<in> set (cd_contexts s'). row_of_version (en_context_id e) (en_version e) r' \<and>
    cx_raw_ddl r' = (case raw_ddl of None \<Rightarrow> cx_raw_ddl r | Some d \<Rightarrow> Some d) \<and>
    cx_dropped_at r' = cx_dropped_at r \<and> cx_id r' = cx_id r \<and> cx_created_at r' = cx_created_at r"
proof -
  let ?tv = "row_of_version (en_context_id e) (en_version e)"
  let ?new = "(save_fields ec e r)\<lparr>cx_raw_ddl := (case raw_ddl of None \<Rightarrow> cx_raw_ddl r | Some x \<Rightarrow> Some x), cx_updated_at := db_now\<rparr>"
  have "list_ex ?tv (cd_contexts s)" using assms(2,3) by (auto simp: list_ex_iff)
  with assms(1) have "s' = s\<lparr>cd_contexts := map (\<lambda>r. if ?tv r
      then (save_fields ec e r)\<lparr>cx_raw_ddl := (case raw_ddl of None \<Rightarrow> cx_raw_ddl r | Some x \<Rightarrow> Some x), cx_updated_at := db_now\<rparr>
      else r) (cd_contexts s)\<rparr>"
    by (auto simp: save_context_def Let_def statement_Inr write_contexts_Inr elim!: bindP_InrD)
  then have "?new \<in> set (cd_contexts s')"
    using assms(2,3) by (auto intro!: image_eqI [of _ _ r])
  then show ?thesis
    using assms(3) by (intro bexI [of _ ?new]) (simp_all add: save_fields_def row_of_version_def)
qed

section \<open>Properties of dropping\<close>

lemma drop_context_Inr:
  assumes "drop_context fault db_now now e s = (Inr u, s')"
  shows "cd_contexts s' = map (\<lambda>r. if cx_context_id r = Some (en_context_id e)
       then r\<lparr>cx_dropped_at := Some (isoformat now), cx_updated_at := db_now\<rparr> else r) (cd_contexts s)"
  using assms by (auto simp: drop_context_def statement_Inr elim!: bindP_InrD)

lemma latest_rows_filter:
  "latest_rows (map (\<lambda>r. if cx_context_id r = Some c then r\<lparr>cx_dropped_at := Some t, cx_updated_at := t'\<rparr> else r) rows)
     = filter (\<lambda>r. cx_context_id r \<noteq> Some c) (latest_rows rows)"
proof -
  let ?f = "\<lambda>r. if cx_context_id r = Some c then r\<lparr>cx_dropped_at := Some t, cx_updated_at := t'\<rparr> else r"
  have id: "cx_context_id (?f r) = cx_context_id r" "cx_version (?f r) = cx_version r" for r by simp_all
  have lv: "live (?f r) \<longleftrightarrow> live r \<and> cx_context_id r \<noteq> Some c" for r by (simp add: live_def)
  let ?top = "\<lambda>rs r. live r \<and> list_all (\<lambda>r'. live r' \<and> cx_context_id r' = cx_context_id r \<longrightarrow> cx_version r' \<le> cx_version r) rs"
  have top: "?top (map ?f rows) (?f r) \<longleftrightarrow> ?top rows r \<and> cx_context_id r \<noteq> Some c" for r
    by (auto simp: list_all_iff id lv)
  have "filter (?top (map ?f rows)) (map ?f rs) = filter (\<lambda>r. ?top rows r \<and> cx_context_id r \<noteq> Some c) rs" for rs
  proof (induction rs)
    case (Cons r rs)
    then show ?case using top [of r] by (simp only: list.map filter.simps) simp
  qed simp
  from this [of rows] show ?thesis by (simp add: latest_rows_def conj_commute)
qed

text \<open>
  A dropped context is gone from the listing and nothing else is: after \<open>drop_context\<close>,
  the rows \<open>load_contexts\<close> reads are those it read before without the ones of that context id.
\<close>

theorem dropped_context_not_loaded:
  assumes "drop_context fault db_now now e s = (Inr u, s')"
  shows "latest_rows (cd_contexts s') = filter (\<lambda>r. cx_context_id r \<noteq> Some (en_context_id e)) (latest_rows (cd_contexts s)) \<and>
    cd_snapshots s' = cd_snapshots s \<and> cd_payloads s' = cd_payloads s \<and> cd_history s' = cd_history s"
proof
  show "latest_rows (cd_contexts s') = filter (\<lambda>r. cx_context_id r \<noteq> Some (en_context_id e)) (latest_rows (cd_contexts s))"
    unfolding drop_context_Inr [OF assms] by (rule latest_rows_filter)
  show "cd_snapshots s' = cd_snapshots s \<and> cd_payloads s' = cd_payloads s \<and> cd_history s' = cd_history s"
    using assms by (auto simp: drop_context_def statement_Inr elim!: bindP_InrD)
qed

text \<open>
  A name stays taken after its context was dropped: saving a new context id under a
  name, namespace and version that some row has, dropped or not, raises and changes nothing.
\<close>

theorem dropped_name_stays_taken:
  assumes "r \<in> set (cd_contexts s)" and "name_key r = (en_name e, en_namespace e, en_version e)"
    and "\<And>r'. r' \<in> set (cd_contexts s) \<Longrightarrow> cx_context_id r' \<noteq> Some (en_context_id e)"
  shows "\<exists>ex. save_context fault ec db_now e raw_ddl s = (Inl ex, s)"
proof -
  let ?new = "save_fields ec e (blank_row (cd_contexts_seq s + 1) db_now (en_context_id e) (en_version e) raw_ddl)"
  have "name_key ?new = (en_name e, en_namespace e, en_version e)"
    by (simp add: name_key_def save_fields_def blank_row_def)
  with assms(1,2) have "name_key ?new \<in> name_key ` set (cd_contexts s)" by (metis image_eqI)
  then have bad: "\<not> contexts_ok (cd_contexts s @ [?new])" by (simp add: contexts_ok_def)
  have "\<not> list_ex (row_of_version (en_context_id e) (en_version e)) (cd_contexts s)"
    using assms(3) by (auto simp: list_ex_iff row_of_version_def)
  with bad show ?thesis
    by (auto simp: save_context_def Let_def bindP_run statement_def write_contexts_def split: option.splits)
qed

text \<open>
  The listing never shows two versions of one context: under the unique indexes, the
  rows that \<open>load_contexts\<close> reads have distinct context ids.
\<close>

theorem loaded_context_ids_distinct:
  assumes "contexts_ok (cd_contexts s)"
  shows "distinct (map cx_context_id (latest_rows (cd_contexts s)))"
proof -
  have "r = r'" if "r \<in> set (latest_rows (cd_contexts s))" "r' \<in> set (latest_rows (cd_contexts s))" "cx_context_id r = cx_context_id r'" for r r'
  proof -
    from that have "cx_version r = cx_version r'" by (auto simp: set_latest_rows intro: order_antisym)
    moreover have "cx_context_id r \<noteq> None" using that(1) by (simp add: set_latest_rows live_def)
    then obtain c where "cx_context_id r = Some c" by blast
    ultimately show ?thesis
      using that assms by (intro contexts_ok_unique [of "cd_contexts s" r r' c "cx_version r"]) (auto simp: set_latest_rows row_of_version_def)
  qed
  then show ?thesis
    unfolding distinct_map using contexts_ok_distinct [OF assms] by (auto simp: latest_rows_def intro: inj_onI)
qed

section \<open>Properties of the back-fill\<close>

lemma backfill_loop_Inr:
  "backfill_loop fault ec uuid i groups s = (Inr u, s') \<Longrightarrow>
   cd_contexts s' = map (fold (\<lambda>(j, (k, d)). backfill_row k (uuid j) (ec_sha256 ec d)) (enumerate i groups)) (cd_contexts s)
     \<and> (contexts_ok (cd_contexts s) \<longrightarrow> contexts_ok (cd_contexts s'))"
proof (induction groups arbitrary: i s)
  case (Cons g groups)
  obtain k d where g: "g = (k, d)" by fastforce
  let ?s1 = "s\<lparr>cd_contexts := map (backfill_row k (uuid i) (ec_sha256 ec d)) (cd_contexts s)\<rparr>"
  from Cons.prems have ok: "contexts_ok (cd_contexts ?s1)" and rest: "backfill_loop fault ec uuid (Suc i) groups ?s1 = (Inr u, s')"
    by (auto simp: g statement_Inr write_contexts_Inr elim!: bindP_InrD)
  have "contexts_ok (cd_contexts s')" using Cons.IH [OF rest, THEN conjunct2] ok by blast
  moreover have "cd_contexts s' = map (fold (\<lambda>(j, (k, d)). backfill_row k (uuid j) (ec_sha256 ec d)) (enumerate (Suc i) groups)) (cd_contexts ?s1)"
    by (rule Cons.IH [OF rest, THEN conjunct1])
  then have "cd_contexts s' = map (fold (\<lambda>(j, (k, d)). backfill_row k (uuid j) (ec_sha256 ec d)) (enumerate i (g # groups))) (cd_contexts s)"
    by (simp add: g comp_def)
  ultimately show ?case by blast
qed simp

lemma backfill_row_name [simp]: "row_name (backfill_row k c h r) = row_name r"
  by (simp add: backfill_row_def row_name_def)

lemma backfill_row_other: "row_name r \<noteq> k \<Longrightarrow> backfill_row k c h r = r"
  by (simp add: backfill_row_def)

lemma backfill_fold_other:
  "row_name r \<notin> fst ` snd ` set jgs \<Longrightarrow> fold (\<lambda>(j, (k, d)). backfill_row k (uuid j) (h d)) jgs r = r"
  by (induction jgs) (auto simp: backfill_row_other)

lemma backfill_fold_group:
  "distinct (map (fst \<circ> snd) jgs) \<Longrightarrow> (j, (row_name r, d)) \<in> set jgs \<Longrightarrow>
   fold (\<lambda>(j, (k, d)). backfill_row k (uuid j) (h d)) jgs r = backfill_row (row_name r) (uuid j) (h d) r"
proof (induction jgs arbitrary: r)
  case (Cons jg jgs)
  obtain j1 k1 d1 where jg: "jg = (j1, (k1, d1))" by (metis prod.collapse)
  show ?case
  proof (cases "jg = (j, (row_name r, d))")
    case True
    with Cons.prems(1) have "row_name r \<notin> fst ` snd ` set jgs" by (auto simp: image_image)
    then have "row_name (backfill_row (row_name r) (uuid j) (h d) r) \<notin> fst ` snd ` set jgs" by simp
    from backfill_fold_other [OF this, of uuid h] True show ?thesis by simp
  next
    case False
    with Cons.prems have "(j, (row_name r, d)) \<in> set jgs" by auto
    moreover from this Cons.prems(1) have "k1 \<noteq> row_name r" by (force simp: jg)
    ultimately show ?thesis using Cons by (simp add: jg backfill_row_other)
  qed
qed simp

lemma backfill_fold_groups:
  fixes rows pick ec and uuid :: "nat \<Rightarrow> string"
  defines "jgs \<equiv> enumerate 0 (backfill_groups pick rows)"
  defines "f \<equiv> fold (\<lambda>(j, (k, d)). backfill_row k (uuid j) (ec_sha256 ec d)) jgs"
  shows "row_name r \<in> row_name ` {r \<in> set rows. cx_context_id r = None} \<Longrightarrow>
      \<exists>j h. \<forall>r'. row_name r' = row_name r \<longrightarrow> f r' = backfill_row (row_name r) (uuid j) h r'"
    and "row_name r \<notin> row_name ` {r \<in> set rows. cx_context_id r = None} \<Longrightarrow> f r = r"
proof -
  let ?missing = "filter (\<lambda>r. cx_context_id r = None) rows"
  have keys: "map fst (backfill_groups pick rows) = sort (remdups (map row_name ?missing))"
    by (simp add: backfill_groups_def Let_def comp_def)
  have dist: "distinct (map (fst \<circ> snd) jgs)"
    using keys by (simp add: jgs_def flip: map_map del: map_map)
  have jkeys: "fst ` snd ` set jgs = row_name ` {r \<in> set rows. cx_context_id r = None}"
  proof -
    have "snd ` set jgs = set (backfill_groups pick rows)" by (simp add: jgs_def flip: list.set_map)
    then have "fst ` snd ` set jgs = set (map fst (backfill_groups pick rows))" by simp
    then show ?thesis by (simp add: keys)
  qed
  show "\<exists>j h. \<forall>r'. row_name r' = row_name r \<longrightarrow> f r' = backfill_row (row_name r) (uuid j) h r'"
    if "row_name r \<in> row_name ` {r \<in> set rows. cx_context_id r = None}"
  proof -
    from that obtain j d where jd: "(j, (row_name r, d)) \<in> set jgs" unfolding jkeys [symmetric] by fastforce
    have "f r' = backfill_row (row_name r) (uuid j) (ec_sha256 ec d) r'" if "row_name r' = row_name r" for r'
      using backfill_fold_group [OF dist, of j r' d uuid "ec_sha256 ec"] jd that by (simp add: f_def)
    then show ?thesis by blast
  qed
  show "f r = r" if "row_name r \<notin> row_name ` {r \<in> set rows. cx_context_id r = None}"
    using backfill_fold_other [of r jgs] jkeys that by (simp add: f_def)
qed


end
