(* ===== verification/Context_Examples.thy ===== *)
theory Context_Examples
  imports Snapshot_Store Context_Catalog
begin

text \<open>Concrete runs of the context runtime repository, which the properties are applied to.\<close>

definition new_year :: datetime where
  "new_year = \<lparr>dt_year = 2026, dt_month = 1, dt_day = 1, dt_hour = 0, dt_minute = 0, dt_second = 0, dt_micro = 0, dt_tz = Some 0\<rparr>"

definition demo_codec :: codec where
  "demo_codec = \<lparr>cd_sha256 = (\<lambda>t. t), cd_uuid5 = (\<lambda>t. t), cd_encode_scores = (\<lambda>d. Inr ''s''),
     cd_decode_scores = (\<lambda>t. Inr [(7, 1)])\<rparr>"

definition demo_entry_codec :: "json entry_codec" where
  "demo_entry_codec = \<lparr>ec_asdict = (\<lambda>m. m), ec_settings = Inr, ec_key_types = [''INT64'', ''UNKNOWN''],
     ec_float = (\<lambda>t. t), ec_sha256 = (\<lambda>t. t)\<rparr>"

definition demo_entry :: "json catalog_entry" where
  "demo_entry =
     \<lparr>en_name = ''late'', en_namespace = ''default'', en_context_id = ''c1'', en_version = 1, en_definition_hash = Some ''h'',
      en_entity_key_name = ''id'', en_entity_key_type = ''INT64'', en_has_score = True, en_is_temporal = False,
      en_lifecycle_state = ''active'', en_materialization = JObj [(''mode'', JStr ''manual'')],
      en_current_snapshot_version = None, en_last_refreshed_at = Some new_year, en_data_as_of = None,
      en_description = None, en_tags = JArr [JStr ''a''], en_dependencies = JArr [], en_definition_sql = Some ''SELECT'',
      en_composition = Some \<lparr>co_strategy = JStr ''union'', co_items = [\<lparr>ci_name = JStr ''x'', ci_weight = JNull\<rparr>]\<rparr>,
      en_score_expression = None, en_temporal_column = None, en_temporal_granularity = None,
      en_source_kind = ''native'', en_history_available_from = None, en_last_refresh_error = None\<rparr>"

definition demo_meta :: "int \<Rightarrow> snapshot_meta" where
  "demo_meta v = \<lparr>sm_version = v, sm_storage_kind = ''roaring'', sm_member_count = 1, sm_computed_at = new_year,
     sm_data_as_of = new_year, sm_valid_from = new_year, sm_definition_hash = Some ''h'', sm_source_watermark = Some ''w''\<rparr>"

definition demo_change :: membership_change where
  "demo_change = \<lparr>mc_context_id = ''c1'', mc_entity_id = 7, mc_change_type = ''added'', mc_recorded_at = Some new_year,
     mc_effective_at = Some new_year, mc_context_version = 1, mc_source = ''native'', mc_evidence_ref = None,
     mc_previous_score = None, mc_new_score = Some 1\<rparr>"

definition empty_cdb :: context_db where
  "empty_cdb = \<lparr>cd_contexts = [], cd_contexts_seq = 0, cd_snapshots = [], cd_payloads = [], cd_history = []\<rparr>"

abbreviation "no_fault \<equiv> (\<lambda>_ :: nat. None :: py_exc option)"

abbreviation "demo_promote v \<equiv>
  promote_snapshot no_fault demo_codec ''now'' demo_entry (demo_meta v) ''members'' [(7, 1)] [demo_change]"

lemma empty_store_wf: "store_wf demo_codec empty_cdb"
  by (simp add: store_wf_def empty_cdb_def one_current_def)

lemma promote_snapshot_returns_iff_new_witness:
  "\<exists>s'. demo_promote 1 empty_cdb = (Inr (), s')"
  using promote_snapshot_returns_iff_new [OF empty_store_wf, of no_fault "[(7, 1)]" "''s''" "demo_meta 1" demo_entry "[demo_change]" "''now''" "''members''"]
  by (simp add: demo_codec_def demo_meta_def demo_entry_def demo_change_def int64_ok_def empty_cdb_def)

lemma demo_promoted:
  obtains s' where "demo_promote 1 empty_cdb = (Inr (), s')" and "store_wf demo_codec s'"
proof -
  have "store_wf demo_codec s'" if run: "demo_promote 1 empty_cdb = (Inr (), s')" for s'
  proof -
    obtain sp where sp: "promote_statements no_fault demo_codec ''now'' demo_entry (demo_meta 1) ''members'' sp [demo_change] empty_cdb = (Inr (), s')"
      using run by (rule promote_snapshot_Inr)
    from promote_statements_Inr [OF sp] show ?thesis
      by (metis store_wf_promoted [OF empty_store_wf])
  qed
  moreover have "\<exists>s'. demo_promote 1 empty_cdb = (Inr (), s')"
  proof -
    let ?c = "en_context_id demo_entry"
    have "fst (demo_promote 1 empty_cdb) = Inr ()"
      by (simp add: promote_snapshot_def demo_codec_def bindP_run transaction_def promote_statements_def Let_def statement_def
          int64_ok_def demo_meta_def demo_entry_def demo_change_def insert_payload_def empty_cdb_def insert_snapshot_def
          set_current_def one_current_def building_row_def supersede_def is_current_def make_current_def snapshot_key_def
          split: sum.split)
    then show ?thesis by (metis prod.collapse)
  qed
  ultimately show thesis using that by blast
qed

lemma promote_snapshot_atomic_witness:
  "\<exists>s'. demo_promote 1 empty_cdb = (Inr (), s') \<and> store_wf demo_codec s' \<and> current_version s' ''c1'' = Some 1"
proof -
  obtain s' where run: "demo_promote 1 empty_cdb = (Inr (), s')" by (rule demo_promoted)
  from promote_snapshot_atomic [OF empty_store_wf run] run show ?thesis
    by (auto simp: demo_entry_def demo_meta_def)
qed

lemma valid_new_year: "valid_datetime new_year" "dt_tz new_year \<noteq> None"
  by (simp_all add: valid_datetime_def new_year_def days_in_month_def)


text \<open>A store with one snapshot, intact and damaged.\<close>

definition one_snapshot :: snapshot_row where
  "one_snapshot = \<lparr>sn_context_id = ''c1'', sn_version = 1, sn_storage_kind = ''roaring'', sn_member_count = 1,
     sn_serialized_bytes = 7, sn_computed_at = isoformat new_year, sn_data_as_of = isoformat new_year,
     sn_valid_from = isoformat new_year, sn_valid_to = None, sn_definition_hash = None, sn_definition_version = 1,
     sn_source_watermark = None, sn_membership_sha256 = ''members'', sn_score_sha256 = ''s'', sn_state = ''current''\<rparr>"

definition one_payload :: "string \<Rightarrow> payload_row" where
  "one_payload blob = \<lparr>py_context_id = ''c1'', py_version = 1, py_membership_blob = blob, py_score_blob = Some ''s''\<rparr>"

definition one_db :: "string \<Rightarrow> context_db" where
  "one_db blob = empty_cdb\<lparr>cd_snapshots := [one_snapshot], cd_payloads := [one_payload blob]\<rparr>"

lemma one_keys: "snapshot_key one_snapshot = (''c1'', 1)" "payload_key (one_payload b) = (''c1'', 1)"
  by (simp_all add: one_snapshot_def one_payload_def snapshot_key_def payload_key_def)

lemma one_stored: "set (stored_snapshots (one_db b)) = {(one_snapshot, one_payload b)}"
  by (auto simp: set_stored_snapshots one_db_def one_keys) (simp add: one_snapshot_def)

lemma one_store_wf: "store_wf demo_codec (one_db ''members'')"
  by (simp add: store_wf_def one_db_def one_keys one_current_def intact_def demo_codec_def)
     (simp add: one_snapshot_def one_payload_def)

lemma hydrate_rejects_corrupt_payload_witness:
  "\<exists>e g'. hydrate_runtime demo_codec (\<lambda>a. ret 1) (\<lambda>evs. ret ()) (one_db ''memberz'') (0 :: nat) = (Inl e, g')"
proof -
  have "(one_snapshot, one_payload ''memberz'') \<in> set (stored_snapshots (one_db ''memberz''))" by (simp add: one_stored)
  from hydrate_rejects_corrupt_payload [OF this, of demo_codec "\<lambda>a. ret 1" "\<lambda>evs. ret ()" "0 :: nat"] show ?thesis
    by (auto simp: demo_codec_def one_snapshot_def one_payload_def)
qed

lemma hydrate_restores_every_snapshot_witness:
  "\<exists>g. hydrate_runtime demo_codec (\<lambda>a g. (Inr 1, a # g)) (\<lambda>evs. ret ()) (one_db ''members'') [] = (Inr (), g)"
proof -
  have read: "datetime_of (Some (isoformat new_year)) = Inr (Some new_year)"
    using datetime_of_iso [of "Some new_year"] valid_new_year by (simp add: iso_opt_def)
  let ?args = "\<lambda>rp :: snapshot_row \<times> payload_row. case restore_args_of demo_codec rp of Inr a \<Rightarrow> a"
  have args: "restore_args_of demo_codec rp = Inr (?args rp) \<and> (\<forall>g. (\<lambda>a g. (Inr 1, a # g)) (?args rp) g = (Inr (sn_version (fst rp)), (\<lambda>a g. a # g) (?args rp) g))"
    if "rp \<in> set (stored_snapshots (one_db ''members''))" for rp
    using that by (simp add: one_stored restore_args_of_def read demo_codec_def) (simp add: one_snapshot_def read)
  from hydrate_restores_every_snapshot [OF one_store_wf, where deserialize = "\<lambda>a g. (Inr 1, a # g)" and restored = "\<lambda>a g. a # g",
      OF args, where app_history = "\<lambda>evs. ret ()" and appended = "\<lambda>evs g. g"]
  show ?thesis by simp
qed

lemma prune_runs: "\<exists>s'. prune_history no_fault e cutoff s = (Inr (), s')"
  by (cases "anchor_version (en_context_id e) (isoformat cutoff) s")
     (simp_all add: prune_history_def Let_def bindP_run statement_def transaction_def)

lemma prune_history_keeps_answers_witness:
  "\<exists>s'. prune_history no_fault demo_entry new_year (one_db ''members'') = (Inr (), s') \<and> store_wf demo_codec s' \<and>
     anchor_version ''c1'' (isoformat new_year) s' = anchor_version ''c1'' (isoformat new_year) (one_db ''members'')"
proof -
  obtain s' where run: "prune_history no_fault demo_entry new_year (one_db ''members'') = (Inr (), s')"
    using prune_runs by blast
  have "versions_follow_data ''c1'' (one_db ''members'')" by (simp add: versions_follow_data_def one_db_def)
  with prune_history_keeps_answers [OF one_store_wf run] run show ?thesis by (auto simp: demo_entry_def)
qed

section \<open>Definitions\<close>

abbreviation "demo_save e ddl \<equiv> save_context no_fault demo_entry_codec ''now'' e ddl"

definition saved_row :: "string option \<Rightarrow> context_row" where
  "saved_row ddl = save_fields demo_entry_codec demo_entry (blank_row 1 ''now'' ''c1'' 1 ddl)"

lemma empty_contexts_ok: "contexts_ok (cd_contexts empty_cdb)"
  by (simp add: contexts_ok_def empty_cdb_def)

lemma demo_saves: "demo_save demo_entry ddl empty_cdb = (Inr (), empty_cdb\<lparr>cd_contexts := [saved_row ddl], cd_contexts_seq := 1\<rparr>)"
proof -
  have "save_binds demo_entry = [1]" by (simp add: save_binds_def demo_entry_def)
  moreover have "en_version demo_entry = 1" "en_context_id demo_entry = ''c1''" by (simp_all add: demo_entry_def)
  ultimately show ?thesis
    by (simp add: save_context_def Let_def bindP_run statement_def int64_ok_def empty_cdb_def write_contexts_def
        contexts_ok_def saved_row_def)
qed

lemma demo_entry_ok: "entry_ok demo_entry_codec demo_entry"
  using valid_new_year
  by (simp add: entry_ok_def demo_entry_def demo_entry_codec_def or_text_def composition_ok_def aware_def)

lemma saved_context_is_loaded_witness:
  "\<exists>es. load_contexts demo_entry_codec (\<lambda>rows. rows) (empty_cdb\<lparr>cd_contexts := [saved_row None], cd_contexts_seq := 1\<rparr>) =
     (Inr es, empty_cdb\<lparr>cd_contexts := [saved_row None], cd_contexts_seq := 1\<rparr>) \<and> [e' \<leftarrow> es. en_context_id e' = ''c1''] = [demo_entry]"
  using saved_context_is_loaded [OF empty_contexts_ok demo_saves demo_entry_ok scan_ok_id, of None]
  by (auto simp: empty_cdb_def demo_entry_def)

lemma saved_row_simps [simp]:
  "cx_context_id (saved_row ddl) = Some ''c1''" "cx_version (saved_row ddl) = 1" "cx_raw_ddl (saved_row ddl) = ddl"
  "cx_dropped_at (saved_row ddl) = None" "name_key (saved_row ddl) = (''late'', ''default'', 1)"
  by (simp_all add: saved_row_def save_fields_def blank_row_def name_key_def demo_entry_def)

abbreviation "saved_db ddl \<equiv> empty_cdb\<lparr>cd_contexts := [saved_row ddl], cd_contexts_seq := 1\<rparr>"

lemma demo_saves_again: "\<exists>s'. demo_save demo_entry None (saved_db ddl) = (Inr (), s')"
proof -
  have b: "save_binds demo_entry = [1]" by (simp add: save_binds_def demo_entry_def)
  have "en_version demo_entry = 1" "en_context_id demo_entry = ''c1''" by (simp_all add: demo_entry_def)
  then show ?thesis
    by (simp add: save_context_def Let_def bindP_run statement_def int64_ok_def write_contexts_def contexts_ok_def b row_of_version_def)
qed

lemma save_keeps_ddl_witness:
  "\<exists>s'. demo_save demo_entry None (saved_db (Some ''ddl'')) = (Inr (), s') \<and>
     (\<exists>r \<in> set (cd_contexts s'). cx_raw_ddl r = Some ''ddl'')"
proof -
  obtain s' where run: "demo_save demo_entry None (saved_db (Some ''ddl'')) = (Inr (), s')" using demo_saves_again by blast
  from save_keeps_ddl [OF run, of "saved_row (Some ''ddl'')"] run show ?thesis
    by (auto simp: row_of_version_def demo_entry_def)
qed

lemma drop_runs: "\<exists>s'. drop_context no_fault t now e s = (Inr (), s')"
  by (simp add: drop_context_def bindP_run statement_def)

lemma dropped_context_not_loaded_witness:
  "\<exists>s'. drop_context no_fault ''now'' new_year demo_entry (saved_db None) = (Inr (), s') \<and> latest_rows (cd_contexts s') = []"
proof -
  obtain s' where run: "drop_context no_fault ''now'' new_year demo_entry (saved_db None) = (Inr (), s')" using drop_runs by blast
  from dropped_context_not_loaded [OF run] run show ?thesis
    by (auto simp: demo_entry_def latest_rows_def)
qed

lemma dropped_name_stays_taken_witness:
  "\<exists>ex. demo_save (demo_entry\<lparr>en_context_id := ''c2''\<rparr>) None (saved_db None) = (Inl ex, saved_db None)"
  using dropped_name_stays_taken [of "saved_row None" "saved_db None" "demo_entry\<lparr>en_context_id := ''c2''\<rparr>" no_fault demo_entry_codec "''now''" None]
  by (simp add: demo_entry_def)

lemma loaded_context_ids_distinct_witness:
  "distinct (map cx_context_id (latest_rows (cd_contexts (saved_db None))))"
  by (rule loaded_context_ids_distinct) (simp add: contexts_ok_def)

definition old_row :: "int \<Rightarrow> string option \<Rightarrow> context_row" where
  "old_row v c = (blank_row v ''now'' [] v None)\<lparr>cx_name := ''late'', cx_context_id := c\<rparr>"

definition old_db :: context_db where
  "old_db = empty_cdb\<lparr>cd_contexts := [old_row 1 None, old_row 2 (Some ''c9'')]\<rparr>"


end
