(* ===== verification/Http_Base.thy ===== *)
theory Http_Base
  imports Server_Db
begin

text \<open>
  What the HTTP handlers of \<open>app/api\<close> share. A handler runs a service and returns the body, or raises:
  an \<open>HTTPException\<close> of its own, or whatever it does not catch. The framework (FastAPI) refuses a
  request whose query parameters break the declared bounds before the handler runs, and checks what
  the handler returned against the declared response model afterwards. \<open>status\<close> is the status code
  the client then sees.
\<close>

datatype http_exc =
    HttpError nat string         \<comment> \<open>\<open>HTTPException(status_code, detail)\<close>\<close>
  | Unprocessable                \<comment> \<open>the request does not meet the declared parameters\<close>
  | Uncaught py_exc              \<comment> \<open>an exception the handler lets through\<close>
  | ResponseInvalid              \<comment> \<open>the returned value does not fit the response model\<close>

type_synonym ('s, 'b) handler = "(http_exc, 's, 'b) prog"

fun status :: "nat \<Rightarrow> http_exc + 'b \<Rightarrow> nat" where
  \<comment> \<open>the first argument is the \<open>status_code\<close> the route declares\<close>
  "status ok (Inr b) = ok"
| "status ok (Inl (HttpError n d)) = n"
| "status ok (Inl Unprocessable) = 422"
| "status ok (Inl (Uncaught e)) = 500"
| "status ok (Inl ResponseInvalid) = 500"

definition catching :: "(py_exc \<Rightarrow> http_exc) \<Rightarrow> (py_exc, 's, 'a) prog \<Rightarrow> ('s, 'a) handler" where
  \<comment> \<open>the \<open>try: ... except ...: raise\<close> around a service call\<close>
  "catching f m = (\<lambda>s. case m s of (Inl e, s') \<Rightarrow> (Inl (f e), s') | (Inr x, s') \<Rightarrow> (Inr x, s'))"

fun value_error :: "nat \<Rightarrow> py_exc \<Rightarrow> http_exc" where
  \<comment> \<open>\<open>except ValueError as exc: raise HTTPException(n, str(exc))\<close>\<close>
  "value_error n (ValueError m) = HttpError n m"
| "value_error n e = Uncaught e"

definition any_error :: "nat \<Rightarrow> py_exc \<Rightarrow> http_exc" where
  \<comment> \<open>\<open>except Exception as exc: raise HTTPException(n, str(exc))\<close>\<close>
  "any_error n e = HttpError n (exc_text e)"

definition not_found :: "string \<Rightarrow> string \<Rightarrow> http_exc" where
  "not_found what name = HttpError 404 (what @ '' '' @ [CHR 0x27] @ name @ [CHR 0x27] @ '' not found'')"

definition existing :: "http_exc \<Rightarrow> ('s \<Rightarrow> 'a option) \<Rightarrow> ('s, 'a) handler" where
  \<comment> \<open>\<open>x = service.get(...); if x is None: raise HTTPException(404, ...)\<close>\<close>
  "existing missing get = bindP (readP get) (\<lambda>x. case x of None \<Rightarrow> raise missing | Some a \<Rightarrow> ret a)"

definition page_params :: "int option \<Rightarrow> int \<Rightarrow> int \<Rightarrow> ('s, unit) handler" where
  \<comment> \<open>\<open>limit: Query(ge=1[, le=m])\<close>, \<open>offset: Query(ge=0)\<close>\<close>
  "page_params max_limit lmt off =
     guardP (1 \<le> lmt \<and> (case max_limit of None \<Rightarrow> True | Some m \<Rightarrow> lmt \<le> m) \<and> 0 \<le> off) Unprocessable"

definition response_model :: "('a \<Rightarrow> 'b option) \<Rightarrow> 'a \<Rightarrow> ('s, 'b) handler" where
  \<comment> \<open>\<open>response_model=...\<close>: the value the model makes of what was returned, if it fits\<close>
  "response_model fit v = (case fit v of None \<Rightarrow> raise ResponseInvalid | Some b \<Rightarrow> ret b)"

fun fit_all :: "('a \<Rightarrow> 'b option) \<Rightarrow> 'a list \<Rightarrow> 'b list option" where
  "fit_all fit [] = Some []"
| "fit_all fit (x # xs) =
     (case fit x of None \<Rightarrow> None | Some y \<Rightarrow> map_option ((#) y) (fit_all fit xs))"

section \<open>Running a handler\<close>

lemma catching_run:
  "catching f m s = (case m s of (Inl e, s') \<Rightarrow> (Inl (f e), s') | (Inr x, s') \<Rightarrow> (Inr x, s'))"
  by (simp add: catching_def)

lemma catching_state [simp]: "snd (catching f m s) = snd (m s)"
  by (simp add: catching_def split: prod.split sum.split)

lemma catching_Inr: "m s = (Inr x, s') \<Longrightarrow> catching f m s = (Inr x, s')"
  and catching_Inl: "m s = (Inl e, s') \<Longrightarrow> catching f m s = (Inl (f e), s')"
  by (simp_all add: catching_def)

lemma existing_run:
  "existing missing get s = (case get s of None \<Rightarrow> Inl missing | Some a \<Rightarrow> Inr a, s)"
  by (simp add: existing_def split: option.split)

lemma page_params_run [simp]:
  "page_params max_limit lmt off s =
     (if 1 \<le> lmt \<and> (case max_limit of None \<Rightarrow> True | Some m \<Rightarrow> lmt \<le> m) \<and> 0 \<le> off then Inr () else Inl Unprocessable, s)"
  by (simp add: page_params_def guardP_run)

lemma response_model_run:
  "response_model fit v s = (case fit v of None \<Rightarrow> Inl ResponseInvalid | Some b \<Rightarrow> Inr b, s)"
  by (simp add: response_model_def split: option.split)

lemma response_model_state [simp]: "snd (response_model fit v s) = s"
  by (simp add: response_model_run)

lemma fit_all_Some: "(\<And>x. x \<in> set xs \<Longrightarrow> fit x = Some (g x)) \<Longrightarrow> fit_all fit xs = Some (map g xs)"
  by (induction xs) auto

lemma fit_all_None: "fit_all fit xs = None \<longleftrightarrow> (\<exists>x \<in> set xs. fit x = None)"
  by (induction xs) (auto split: option.splits)

lemma fit_all_length: "fit_all fit xs = Some ys \<Longrightarrow> length ys = length xs"
  by (induction xs arbitrary: ys) (auto split: option.splits)

lemma status_value_error [simp]: "status ok (Inl (value_error n e)) = (case e of ValueError m \<Rightarrow> n | _ \<Rightarrow> 500)"
  by (cases e) simp_all

lemma status_any_error [simp]: "status ok (Inl (any_error n e)) = n"
  by (simp add: any_error_def)

lemma status_not_found [simp]: "status ok (Inl (not_found what name)) = 404"
  by (simp add: not_found_def)

end
