(* ===== verification/Audit_Service.thy ===== *)
theory Audit_Service
  imports Server_Db
begin

text \<open>
  The audit log (\<open>app/services/audit_service.py\<close>): \<open>audit_log\<close> appends one row with the next
  \<open>AUTOINCREMENT\<close> id, \<open>audit_query\<close> filters, reads newest first in pages and parses the detail.
\<close>

section \<open>Operations\<close>

record audit_args =
  aa_event_type :: string
  aa_resource_type :: "string option"
  aa_resource_name :: "string option"
  aa_detail :: "json option"
  aa_actor :: string
  aa_namespace :: string
  aa_trace_id :: "string option"

definition insert_audit :: "audit_args \<Rightarrow> string \<Rightarrow> string \<Rightarrow> server_db \<Rightarrow> server_db" where
  "insert_audit a trace_id timestamp s =
     (let i = sd_audit_seq s + 1;
          r = \<lparr>au_id = i, au_timestamp = timestamp, au_event_type = aa_event_type a, au_actor = aa_actor a,
               au_namespace = aa_namespace a, au_resource_type = aa_resource_type a,
               au_resource_name = aa_resource_name a, au_detail = map_option json_dumps (aa_detail a),
               au_trace_id = trace_id\<rparr>
      in s\<lparr>sd_audit := sd_audit s @ [r], sd_audit_seq := i\<rparr>)"

definition audit_log :: "svc_env \<Rightarrow> audit_args \<Rightarrow> int svc" where
  "audit_log env a =
     bindP (case aa_trace_id a of None \<Rightarrow> new_uuid env | Some t \<Rightarrow> ret t) (\<lambda>trace_id.
     bindP (read_clock env) (\<lambda>timestamp.
     bindP (modP (insert_audit a trace_id timestamp)) (\<lambda>_.
     readP sd_audit_seq)))"

record audit_filter =
  af_event_type :: "string option"
  af_namespace :: "string option"
  af_resource_type :: "string option"
  af_resource_name :: "string option"

definition audit_matches :: "audit_filter \<Rightarrow> audit_row \<Rightarrow> bool" where
  \<comment> \<open>a NULL column equals nothing\<close>
  "audit_matches q r \<longleftrightarrow>
     opt_filter (af_event_type q) au_event_type r \<and>
     opt_filter (af_namespace q) au_namespace r \<and>
     opt_filter (map_option Some (af_resource_type q)) au_resource_type r \<and>
     opt_filter (map_option Some (af_resource_name q)) au_resource_name r"

definition parsed_text :: "svc_env \<Rightarrow> string option \<Rightarrow> json" where
  \<comment> \<open>\<open>if v is not None: try: json.loads(v) except (JSONDecodeError, TypeError): pass\<close>\<close>
  "parsed_text env v =
     (case v of
        None \<Rightarrow> JNull
      | Some t \<Rightarrow> (case json_loads (se_float env) t of Some j \<Rightarrow> j | None \<Rightarrow> JStr t))"

definition audit_entry_of :: "svc_env \<Rightarrow> audit_row \<Rightarrow> audit_entry" where
  "audit_entry_of env r =
     \<lparr>au_id = au_id r, au_timestamp = au_timestamp r, au_event_type = au_event_type r, au_actor = au_actor r,
      au_namespace = au_namespace r, au_resource_type = au_resource_type r,
      au_resource_name = au_resource_name r, au_detail = parsed_text env (au_detail r),
      au_trace_id = au_trace_id r\<rparr>"

definition audit_query :: "svc_env \<Rightarrow> audit_filter \<Rightarrow> int \<Rightarrow> int \<Rightarrow> audit_entry list svc" where
  "audit_query env q lmt off =
     bindP (bind_int lmt) (\<lambda>_.
     bindP (bind_int off) (\<lambda>_.
     readP (\<lambda>s. map (audit_entry_of env)
       (sql_page lmt off (rev (sort_key au_id (filter (audit_matches q) (sd_audit s))))))))"

section \<open>The log only grows\<close>

definition audit_wf :: "server_db \<Rightarrow> bool" where
  \<comment> \<open>ids increase along the table and the sequence has reached them\<close>
  "audit_wf s \<longleftrightarrow>
     sorted_wrt (<) (map au_id (sd_audit s)) \<and> (\<forall>r \<in> set (sd_audit s). au_id r \<le> sd_audit_seq s)"

definition audit_row_of :: "svc_env \<Rightarrow> audit_args \<Rightarrow> server_db \<Rightarrow> audit_row" where
  \<comment> \<open>the row a call of \<open>audit_log\<close> writes\<close>
  "audit_row_of env a s =
     \<lparr>au_id = sd_audit_seq s + 1, au_timestamp = se_clock env (sd_reads s), au_event_type = aa_event_type a,
      au_actor = aa_actor a, au_namespace = aa_namespace a, au_resource_type = aa_resource_type a,
      au_resource_name = aa_resource_name a, au_detail = map_option json_dumps (aa_detail a),
      au_trace_id = (case aa_trace_id a of None \<Rightarrow> se_uuid env (sd_uuids s) | Some t \<Rightarrow> t)\<rparr>"

definition after_audit :: "svc_env \<Rightarrow> audit_args \<Rightarrow> server_db \<Rightarrow> server_db" where
  "after_audit env a s =
     s\<lparr>sd_audit := sd_audit s @ [audit_row_of env a s], sd_audit_seq := sd_audit_seq s + 1,
       sd_reads := Suc (sd_reads s),
       sd_uuids := (case aa_trace_id a of None \<Rightarrow> Suc (sd_uuids s) | Some _ \<Rightarrow> sd_uuids s)\<rparr>"

lemma audit_log_run: "audit_log env a s = (Inr (sd_audit_seq s + 1), after_audit env a s)"
proof (cases "aa_trace_id a")
  case None
  show ?thesis
    unfolding audit_log_def bindP_run insert_audit_def Let_def after_audit_def audit_row_of_def None by simp
next
  case (Some t)
  show ?thesis
    unfolding audit_log_def bindP_run insert_audit_def Let_def after_audit_def audit_row_of_def Some by simp
qed

lemma after_audit_fields [simp]:
  "sd_audit (after_audit env a s) = sd_audit s @ [audit_row_of env a s]"
  "sd_audit_seq (after_audit env a s) = sd_audit_seq s + 1"
  "sd_providers (after_audit env a s) = sd_providers s"
  "sd_providers_seq (after_audit env a s) = sd_providers_seq s"
  "sd_identity (after_audit env a s) = sd_identity s"
  "sd_identity_seq (after_audit env a s) = sd_identity_seq s"
  by (simp_all add: after_audit_def)

lemma audit_wf_log:
  assumes "audit_wf s"
  shows "audit_wf (after_audit env a s)"
  using assms by (auto simp: audit_wf_def sorted_wrt_append audit_row_of_def)

lemma newest_first:
  assumes "audit_wf s"
  shows "rev (sort_key au_id (filter p (sd_audit s))) = rev (filter p (sd_audit s))"
proof -
  have "sorted_wrt (\<lambda>r r'. au_id r < au_id r') (filter p (sd_audit s))"
    using assms by (simp add: audit_wf_def sorted_wrt_map sorted_wrt_filter)
  then have "sorted (map au_id (filter p (sd_audit s)))"
    unfolding sorted_map by (rule sorted_wrt_mono_rel [rotated]) simp
  then show ?thesis by (simp add: sort_key_id_if_sorted)
qed

lemma audit_query_run:
  assumes "audit_wf s" and "int64_ok lmt" and "int64_ok off"
  shows "audit_query env q lmt off s =
    (Inr (sql_page lmt off (map (audit_entry_of env) (rev (filter (audit_matches q) (sd_audit s))))), s)"
  using assms by (simp add: audit_query_def bind_int_def newest_first sql_page_def Let_def take_map drop_map)

lemma audit_query_overflow:
  "\<not> int64_ok lmt \<or> \<not> int64_ok off \<Longrightarrow> audit_query env q lmt off s = (Inl overflow_error, s)"
  by (auto simp: audit_query_def bind_int_def bindP_run guardP_run)

lemma parsed_dumps [simp]: "json_ok (se_float env) j \<Longrightarrow> parsed_text env (Some (json_dumps j)) = j"
  by (simp add: parsed_text_def)

text \<open>
  C23: what is logged is what is read: right after a call of the audit service, a query whose
  filters the event matches returns that event first, with the id the call returned and the
  detail as it was given, and writing it changed no earlier row of the log.
\<close>

theorem audit_log_then_query:
  assumes "audit_wf s" and "audit_log env a s = (Inr i, s')"
    and "audit_matches q (audit_row_of env a s)" and "1 \<le> lmt" and "int64_ok lmt"
    and "\<And>d. aa_detail a = Some d \<Longrightarrow> json_ok (se_float env) d"
  shows "\<exists>e older. audit_query env q lmt 0 s' = (Inr (e # older), s') \<and>
    au_id e = i \<and> au_event_type e = aa_event_type a \<and> au_resource_name e = aa_resource_name a \<and>
    au_detail e = (case aa_detail a of None \<Rightarrow> JNull | Some d \<Rightarrow> d) \<and>
    take (length (sd_audit s)) (sd_audit s') = sd_audit s \<and> audit_wf s'"
proof -
  let ?r = "audit_row_of env a s"
  from assms(2) have i: "i = sd_audit_seq s + 1" and s': "s' = after_audit env a s"
    by (simp_all add: audit_log_run)
  have wf: "audit_wf s'" using audit_wf_log [OF assms(1)] by (simp add: s')
  obtain k where k: "nat lmt = Suc k" using assms(4) by (cases "nat lmt") auto
  have "\<exists>older. audit_query env q lmt 0 s' = (Inr (audit_entry_of env ?r # older), s')"
    using assms(3,4) k audit_query_run [OF wf assms(5), of 0 env q] by (simp add: int64_ok_def s' sql_page_def)
  moreover have "au_detail (audit_entry_of env ?r) = (case aa_detail a of None \<Rightarrow> JNull | Some d \<Rightarrow> d)"
    using assms(6) by (cases "aa_detail a") (simp_all add: audit_entry_of_def audit_row_of_def parsed_text_def)
  ultimately show ?thesis using wf by (auto simp: audit_entry_of_def audit_row_of_def i s')
qed

text \<open>
  Reading the audit log page by page gives each matching event once, newest first:
  the first \<open>n\<close> pages of size \<open>lmt\<close> are together the \<open>n * lmt\<close> newest matching events.
\<close>

theorem audit_pages_tile:
  assumes "audit_wf s" and "0 < lmt" and "int n * lmt < 2 ^ 63" and "int64_ok lmt"
  shows "concat (map (\<lambda>i. case fst (audit_query env q lmt (int i * lmt) s) of Inr es \<Rightarrow> es | Inl _ \<Rightarrow> []) [0..<n])
    = take (n * nat lmt) (map (audit_entry_of env) (rev (filter (audit_matches q) (sd_audit s))))"
proof -
  let ?xs = "map (audit_entry_of env) (rev (filter (audit_matches q) (sd_audit s)))"
  have "int64_ok (int i * lmt)" if "i < n" for i
  proof -
    have "int i * lmt \<le> int n * lmt" using that assms(2) by (intro mult_right_mono) auto
    moreover have "0 \<le> int i * lmt" using assms(2) by simp
    ultimately show ?thesis using assms(3) unfolding int64_ok_def by linarith
  qed
  then have pages: "map (\<lambda>i. case fst (audit_query env q lmt (int i * lmt) s) of Inr es \<Rightarrow> es | Inl _ \<Rightarrow> []) [0..<n]
      = map (\<lambda>i. sql_page lmt (int i * lmt) ?xs) [0..<n]"
    by (simp add: audit_query_run [OF assms(1,4)])
  show ?thesis unfolding pages by (rule sql_pages_concat [OF assms(2)])
qed

section \<open>Events of the registries\<close>

text \<open>\<open>if self.audit is not None: self.audit.log(...)\<close>, with the defaults of \<open>log\<close>.\<close>

definition event_args :: "string \<Rightarrow> string \<Rightarrow> string \<Rightarrow> string \<Rightarrow> json option \<Rightarrow> audit_args" where
  "event_args rtype event name ns detail =
     \<lparr>aa_event_type = event, aa_resource_type = Some rtype, aa_resource_name = Some name, aa_detail = detail,
      aa_actor = ''system'', aa_namespace = ns, aa_trace_id = None\<rparr>"

definition audit_event :: "svc_env \<Rightarrow> string \<Rightarrow> string \<Rightarrow> string \<Rightarrow> string \<Rightarrow> json option \<Rightarrow> unit svc" where
  "audit_event env rtype event name ns detail =
     (if se_audit_on env
      then bindP (audit_log env (event_args rtype event name ns detail)) (\<lambda>_. ret ())
      else ret ())"

definition audited :: "svc_env \<Rightarrow> audit_args \<Rightarrow> server_db \<Rightarrow> server_db" where
  "audited env a s = (if se_audit_on env then after_audit env a s else s)"

lemma audit_event_run [simp]:
  "audit_event env rtype event name ns detail s = (Inr (), audited env (event_args rtype event name ns detail) s)"
  by (simp add: audit_event_def audited_def audit_log_run bindP_run)

lemma audited_fields [simp]:
  "sd_providers (audited env a s) = sd_providers s" "sd_providers_seq (audited env a s) = sd_providers_seq s"
  "sd_identity (audited env a s) = sd_identity s" "sd_identity_seq (audited env a s) = sd_identity_seq s"
  by (simp_all add: audited_def)

lemma sd_audit_audited:
  "sd_audit (audited env a s) = sd_audit s @ (if se_audit_on env then [audit_row_of env a s] else [])"
  by (simp add: audited_def)

lemma audit_wf_audited: "audit_wf s \<Longrightarrow> audit_wf (audited env a s)"
  by (simp add: audited_def audit_wf_log)

section \<open>Examples\<close>

definition demo_svc_env :: svc_env where
  "demo_svc_env = \<lparr>se_clock = (\<lambda>k. ''2026-01-01 00:00:00''), se_uuid = (\<lambda>k. show_nat k), se_float = (\<lambda>t. t), se_audit_on = True\<rparr>"

definition empty_db :: server_db where
  "empty_db = \<lparr>sd_audit = [], sd_audit_seq = 0, sd_providers = [], sd_providers_seq = 0, sd_identity = [],
     sd_identity_seq = 0, sd_reads = 0, sd_uuids = 0\<rparr>"

definition demo_audit :: audit_args where
  "demo_audit = \<lparr>aa_event_type = ''provider.health_recorded'', aa_resource_type = Some ''provider'',
     aa_resource_name = Some ''jira'', aa_detail = Some (JObj [(''success'', JBool True), (''n'', JInt 3)]),
     aa_actor = ''system'', aa_namespace = ''default'', aa_trace_id = None\<rparr>"

definition any_audit :: audit_filter where
  "any_audit = \<lparr>af_event_type = None, af_namespace = None, af_resource_type = Some ''provider'', af_resource_name = Some ''jira''\<rparr>"

lemma empty_db_audit_wf: "audit_wf empty_db"
  by (simp add: audit_wf_def empty_db_def)

lemma audit_log_then_query_witness:
  "\<exists>e older. audit_query demo_svc_env any_audit 5 0 (after_audit demo_svc_env demo_audit empty_db)
       = (Inr (e # older), after_audit demo_svc_env demo_audit empty_db) \<and>
     au_id e = 1 \<and> au_detail e = JObj [(''success'', JBool True), (''n'', JInt 3)]"
proof -
  have "audit_log demo_svc_env demo_audit empty_db = (Inr 1, after_audit demo_svc_env demo_audit empty_db)"
    by (simp add: audit_log_run empty_db_def)
  from audit_log_then_query [OF empty_db_audit_wf this, of any_audit 5] show ?thesis
    by (auto simp: int64_ok_def audit_matches_def opt_filter_def audit_row_of_def any_audit_def demo_audit_def)
qed

lemma audit_pages_tile_witness:
  "concat (map (\<lambda>i. case fst (audit_query demo_svc_env any_audit 2 (int i * 2) (after_audit demo_svc_env demo_audit empty_db))
       of Inr es \<Rightarrow> es | Inl _ \<Rightarrow> []) [0..<3])
    = [audit_entry_of demo_svc_env (audit_row_of demo_svc_env demo_audit empty_db)]"
  using audit_pages_tile [OF audit_wf_log [OF empty_db_audit_wf, of demo_svc_env demo_audit], of 2 3 demo_svc_env any_audit]
  by (simp add: int64_ok_def empty_db_def audit_matches_def opt_filter_def audit_row_of_def any_audit_def demo_audit_def)

end
