(* ===== verification/Registry.thy ===== *)
theory Registry
  imports Server_Db
begin

text \<open>
  The contract that the provider registry and the identity-map registry share: a map from
  (name, namespace) to what was registered, where a key is registered once.
\<close>

fun run_all :: "('q \<Rightarrow> ('e, 's, 'a) prog) \<Rightarrow> 'q list \<Rightarrow> 's \<Rightarrow> 's" where
  \<comment> \<open>independent requests, one after the other; one that fails does not stop the others\<close>
  "run_all f [] s = s"
| "run_all f (q # qs) s = run_all f qs (snd (f q s))"

locale named_registry =
  fixes wf :: "'db \<Rightarrow> bool"
    and get :: "'db \<Rightarrow> string \<times> string \<Rightarrow> 'v option"
    and register :: "'q \<Rightarrow> ('e, 'db, 'v) prog"
    and key :: "'q \<Rightarrow> string \<times> string"
  assumes registered: "wf s \<Longrightarrow> register q s = (Inr v, s') \<Longrightarrow>
      wf s' \<and> get s (key q) = None \<and> get s' = (get s)(key q \<mapsto> v)"
    and refused: "wf s \<Longrightarrow> register q s = (Inl e, s') \<Longrightarrow> wf s' \<and> get s' = get s"
begin

lemma register_cases:
  assumes "wf s"
  obtains v s' where "register q s = (Inr v, s')" "wf s'" "get s (key q) = None" "get s' = (get s)(key q \<mapsto> v)"
  | e s' where "register q s = (Inl e, s')" "wf s'" "get s' = get s"
proof (cases "register q s")
  case (Pair r s')
  then show thesis
    using that registered [OF assms] refused [OF assms] by (cases r) blast+
qed

lemma wf_register: "wf s \<Longrightarrow> wf (snd (register q s))"
  by (rule register_cases [of s q]) simp_all

lemma get_register: "wf s \<Longrightarrow> get s k = Some v \<Longrightarrow> get (snd (register q s)) k = Some v"
  by (rule register_cases [of s q]) auto

lemma dom_register: "wf s \<Longrightarrow> dom (get (snd (register q s))) \<subseteq> insert (key q) (dom (get s))"
  by (rule register_cases [of s q]) auto

lemma wf_run_all: "wf s \<Longrightarrow> wf (run_all register qs s)"
  by (induction qs arbitrary: s) (simp_all add: wf_register)

text \<open>What is registered stays as it is, whatever is registered later.\<close>

lemma first_registration_stays:
  "wf s \<Longrightarrow> get s k = Some v \<Longrightarrow> get (run_all register qs s) k = Some v"
  by (induction qs arbitrary: s) (simp_all add: wf_register get_register)

lemma registered_then_kept:
  assumes "wf s" and "register q s = (Inr v, s')"
  shows "get (run_all register qs s') (key q) = Some v"
  using registered [OF assms] by (intro first_registration_stays) auto

lemma second_registration_refused:
  assumes "wf s" and "register q s = (Inr v, s')" and "key q' = key q"
  shows "\<exists>e. fst (register q' (run_all register qs s')) = Inl e"
proof -
  have wf: "wf (run_all register qs s')" using registered [OF assms(1,2)] wf_run_all by blast
  have "get (run_all register qs s') (key q') \<noteq> None"
    using registered_then_kept [OF assms(1,2), of qs] assms(3) by simp
  with wf show ?thesis by (auto elim: register_cases [of _ q'])
qed

text \<open>Only the keys of the requests are added.\<close>

lemma dom_run_all: "wf s \<Longrightarrow> dom (get (run_all register qs s)) \<subseteq> dom (get s) \<union> key ` set qs"
proof (induction qs arbitrary: s)
  case (Cons q qs)
  note dom_register [OF Cons.prems, of q]
  with Cons.IH [OF wf_register [OF Cons.prems, of q]] show ?case by auto
qed simp

end

end
