(* ===== verification/Provider_Service.thy ===== *)
theory Provider_Service
  imports Audit_Service Registry
begin

text \<open>
  The provider registry (\<open>app/services/provider_service.py\<close> with the request models of
  \<open>app/models/provider.py\<close>): registering under a unique (name, namespace), reading, listing in
  pages, updating the mutable fields, enabling and disabling, recording health checks, each
  change with its audit event.
\<close>

section \<open>Helpers\<close>

definition provider_key :: "('e, 's) provider_rec \<Rightarrow> string \<times> string" where
  "provider_key r = (pr_name r, pr_namespace r)"

definition provider_row_to_dict :: "svc_env \<Rightarrow> provider_row \<Rightarrow> provider_dict" where
  "provider_row_to_dict env r =
     \<lparr>pr_id = pr_id r, pr_name = pr_name r, pr_namespace = pr_namespace r, pr_provider_type = pr_provider_type r,
      pr_endpoint = pr_endpoint r, pr_credentials_ref = pr_credentials_ref r, pr_timeout_ms = pr_timeout_ms r,
      pr_health_state = pr_health_state r, pr_entity_key_type = pr_entity_key_type r,
      pr_resource_shape = parsed_text env (pr_resource_shape r), pr_trust_tier = pr_trust_tier r,
      pr_enabled = (pr_enabled r \<noteq> 0), pr_registered_at = pr_registered_at r, pr_updated_at = pr_updated_at r,
      pr_last_success_at = pr_last_success_at r, pr_last_failure_at = pr_last_failure_at r\<rparr>"

definition provider_audit :: "svc_env \<Rightarrow> string \<Rightarrow> string \<Rightarrow> string \<Rightarrow> json option \<Rightarrow> unit svc" where
  "provider_audit env event name ns detail = audit_event env ''provider'' event name ns detail"

section \<open>Operations\<close>

definition provider_get :: "svc_env \<Rightarrow> string \<Rightarrow> string \<Rightarrow> server_db \<Rightarrow> provider_dict option" where
  "provider_get env name ns s =
     map_option (provider_row_to_dict env) (select_key provider_key (name, ns) (sd_providers s))"

text \<open>\<open>return self.get(...)\<close> after a write: the row is there, so the dict is not \<open>None\<close>.\<close>

definition get_after_write :: "svc_env \<Rightarrow> string \<Rightarrow> string \<Rightarrow> provider_dict svc" where
  "get_after_write env name ns =
     bindP (readP (provider_get env name ns))
       (\<lambda>d. case d of Some p \<Rightarrow> ret p | None \<Rightarrow> raise (TypeError ''None''))"

record provider_create =
  pc_name :: string
  pc_provider_type :: string
  pc_namespace :: string
  pc_endpoint :: "string option"
  pc_timeout_ms :: int
  pc_entity_key_type :: "string option"
  pc_trust_tier :: string

definition new_provider :: "provider_create \<Rightarrow> int \<Rightarrow> string \<Rightarrow> provider_row" where
  \<comment> \<open>the columns the insert gives, and the defaults of the others\<close>
  "new_provider q i db_now =
     \<lparr>pr_id = i, pr_name = pc_name q, pr_namespace = pc_namespace q, pr_provider_type = pc_provider_type q,
      pr_endpoint = pc_endpoint q, pr_credentials_ref = None, pr_timeout_ms = Some (pc_timeout_ms q),
      pr_health_state = ''unknown'', pr_entity_key_type = pc_entity_key_type q, pr_resource_shape = None,
      pr_trust_tier = Some (pc_trust_tier q), pr_enabled = 1, pr_registered_at = db_now,
      pr_updated_at = db_now, pr_last_success_at = None, pr_last_failure_at = None\<rparr>"

definition insert_provider :: "provider_create \<Rightarrow> string \<Rightarrow> unit svc" where
  "insert_provider q db_now =
     (\<lambda>s. case insert_unique provider_key ''providers.name, providers.namespace''
              (new_provider q (sd_providers_seq s + 1) db_now) (sd_providers s) of
            Inl e \<Rightarrow> (Inl e, s)
          | Inr rows \<Rightarrow> (Inr (), s\<lparr>sd_providers := rows, sd_providers_seq := sd_providers_seq s + 1\<rparr>))"

definition provider_register :: "svc_env \<Rightarrow> provider_create \<Rightarrow> provider_dict svc" where
  "provider_register env q =
     bindP (bind_int (pc_timeout_ms q)) (\<lambda>_.
     bindP (read_clock env) (\<lambda>db_now.
     bindP (insert_provider q db_now) (\<lambda>_.
     bindP (provider_audit env ''provider.registered'' (pc_name q) (pc_namespace q) None) (\<lambda>_.
     get_after_write env (pc_name q) (pc_namespace q)))))"

definition provider_list ::
  "svc_env \<Rightarrow> (provider_row list \<Rightarrow> provider_row list) \<Rightarrow> string option \<Rightarrow> string option \<Rightarrow> int \<Rightarrow> int \<Rightarrow> (provider_dict list \<times> int) svc" where
  "provider_list env scan ns ptype lmt off =
     bindP (readP (\<lambda>s. filter (\<lambda>r. opt_filter ns pr_namespace r \<and> opt_filter ptype pr_provider_type r) (sd_providers s))) (\<lambda>rows.
     bindP (bind_int lmt) (\<lambda>_.
     bindP (bind_int off) (\<lambda>_.
     ret (map (provider_row_to_dict env) (page_by_name scan pr_name lmt off rows), int (length rows)))))"

definition provider_not_found :: "string \<Rightarrow> string \<Rightarrow> py_exc" where
  "provider_not_found name ns = ValueError (''Provider '' @ [CHR 0x27] @ name @ [CHR 0x27] @ '' not found in namespace '' @ [CHR 0x27] @ ns @ [CHR 0x27])"

definition require_provider :: "svc_env \<Rightarrow> string \<Rightarrow> string \<Rightarrow> provider_dict svc" where
  "require_provider env name ns =
     bindP (readP (provider_get env name ns))
       (\<lambda>d. case d of Some p \<Rightarrow> ret p | None \<Rightarrow> raise (provider_not_found name ns))"

definition modify_provider :: "string \<Rightarrow> string \<Rightarrow> (provider_row \<Rightarrow> provider_row) \<Rightarrow> unit svc" where
  \<comment> \<open>\<open>UPDATE providers SET ... WHERE name = ? AND namespace = ?\<close>\<close>
  "modify_provider name ns f =
     modP (\<lambda>s. s\<lparr>sd_providers := update_key provider_key (name, ns) f (sd_providers s)\<rparr>)"

text \<open>The keyword arguments of \<open>update\<close>: \<open>None\<close> here is a field that was not passed.\<close>

datatype shape_arg = ShapeNone | ShapeText string | ShapeJson json  \<comment> \<open>\<open>None\<close>, a str, a dict or list\<close>

record provider_update =
  pu_endpoint :: "string option option"
  pu_timeout_ms :: "int option option"
  pu_entity_key_type :: "string option option"
  pu_trust_tier :: "string option option"
  pu_credentials_ref :: "string option option"
  pu_resource_shape :: "shape_arg option"

fun shape_value :: "shape_arg \<Rightarrow> string option" where
  "shape_value ShapeNone = None"
| "shape_value (ShapeText t) = Some t"
| "shape_value (ShapeJson j) = Some (json_dumps j)"

definition update_empty :: "provider_update \<Rightarrow> bool" where
  "update_empty u \<longleftrightarrow>
     pu_endpoint u = None \<and> pu_timeout_ms u = None \<and> pu_entity_key_type u = None \<and>
     pu_trust_tier u = None \<and> pu_credentials_ref u = None \<and> pu_resource_shape u = None"

definition given :: "'v option \<Rightarrow> 'v \<Rightarrow> 'v" where
  "given x v = (case x of None \<Rightarrow> v | Some w \<Rightarrow> w)"

definition apply_update :: "provider_update \<Rightarrow> string \<Rightarrow> provider_row \<Rightarrow> provider_row" where
  "apply_update u now r =
     r\<lparr>pr_endpoint := given (pu_endpoint u) (pr_endpoint r),
       pr_timeout_ms := given (pu_timeout_ms u) (pr_timeout_ms r),
       pr_entity_key_type := given (pu_entity_key_type u) (pr_entity_key_type r),
       pr_trust_tier := given (pu_trust_tier u) (pr_trust_tier r),
       pr_credentials_ref := given (pu_credentials_ref u) (pr_credentials_ref r),
       pr_resource_shape := given (map_option shape_value (pu_resource_shape u)) (pr_resource_shape r),
       pr_updated_at := now\<rparr>"

definition provider_update_fields :: "svc_env \<Rightarrow> string \<Rightarrow> string \<Rightarrow> provider_update \<Rightarrow> provider_dict svc" where
  "provider_update_fields env name ns u =
     bindP (require_provider env name ns) (\<lambda>current.
     if update_empty u then ret current
     else
       bindP (read_clock env) (\<lambda>now.
       bindP (case pu_timeout_ms u of Some (Some t) \<Rightarrow> bind_int t | _ \<Rightarrow> ret ()) (\<lambda>_.
       bindP (modify_provider name ns (apply_update u now)) (\<lambda>_.
       bindP (provider_audit env ''provider.updated'' name ns None) (\<lambda>_.
       get_after_write env name ns)))))"

definition set_enabled :: "svc_env \<Rightarrow> string \<Rightarrow> string \<Rightarrow> bool \<Rightarrow> provider_dict svc" where
  "set_enabled env name ns b =
     bindP (require_provider env name ns) (\<lambda>_.
     bindP (read_clock env) (\<lambda>now.
     bindP (modify_provider name ns (\<lambda>r. r\<lparr>pr_enabled := (if b then 1 else 0), pr_updated_at := now\<rparr>)) (\<lambda>_.
     bindP (provider_audit env (if b then ''provider.enabled'' else ''provider.disabled'') name ns None) (\<lambda>_.
     get_after_write env name ns))))"

definition provider_enable :: "svc_env \<Rightarrow> string \<Rightarrow> string \<Rightarrow> provider_dict svc" where
  "provider_enable env name ns = set_enabled env name ns True"

definition provider_disable :: "svc_env \<Rightarrow> string \<Rightarrow> string \<Rightarrow> provider_dict svc" where
  "provider_disable env name ns = set_enabled env name ns False"

definition health_text :: "bool \<Rightarrow> string" where
  "health_text success = (if success then ''healthy'' else ''unhealthy'')"

definition health_row :: "bool \<Rightarrow> string \<Rightarrow> provider_row \<Rightarrow> provider_row" where
  "health_row success now r =
     (if success
      then r\<lparr>pr_health_state := ''healthy'', pr_last_success_at := Some now, pr_updated_at := now\<rparr>
      else r\<lparr>pr_health_state := ''unhealthy'', pr_last_failure_at := Some now, pr_updated_at := now\<rparr>)"

definition record_health :: "svc_env \<Rightarrow> string \<Rightarrow> string \<Rightarrow> bool \<Rightarrow> provider_dict svc" where
  "record_health env name ns success =
     bindP (require_provider env name ns) (\<lambda>_.
     bindP (read_clock env) (\<lambda>now.
     bindP (modify_provider name ns (health_row success now)) (\<lambda>_.
     bindP (provider_audit env ''provider.health_recorded'' name ns
       (Some (JObj [(''success'', JBool success), (''health_state'', JStr (health_text success))]))) (\<lambda>_.
     get_after_write env name ns))))"

section \<open>The registry contract\<close>

definition provider_wf :: "server_db \<Rightarrow> bool" where
  "provider_wf s \<longleftrightarrow>
     distinct (map provider_key (sd_providers s)) \<and> sorted_wrt (<) (map pr_id (sd_providers s)) \<and>
     (\<forall>r \<in> set (sd_providers s). pr_id r \<le> sd_providers_seq s)"

definition provider_map :: "svc_env \<Rightarrow> server_db \<Rightarrow> string \<times> string \<Rightarrow> provider_dict option" where
  "provider_map env s k = map_option (provider_row_to_dict env) (select_key provider_key k (sd_providers s))"

lemma provider_map_get: "provider_get env name ns s = provider_map env s (name, ns)"
  by (simp add: provider_map_def provider_get_def)

lemma provider_map_None: "provider_map env s k = None \<longleftrightarrow> k \<notin> provider_key ` set (sd_providers s)"
  by (simp add: provider_map_def select_key_None)

abbreviation create_key :: "provider_create \<Rightarrow> string \<times> string" where
  "create_key q \<equiv> (pc_name q, pc_namespace q)"

lemma provider_key_new [simp]: "provider_key (new_provider q i t) = create_key q"
  by (simp add: provider_key_def new_provider_def)

lemma provider_map_cong: "sd_providers s' = sd_providers s \<Longrightarrow> provider_map env s' = provider_map env s"
  by (simp add: provider_map_def fun_eq_iff)

lemma get_after_write_run:
  "provider_get env name ns s = Some p \<Longrightarrow> get_after_write env name ns s = (Inr p, s)"
  by (simp add: get_after_write_def bindP_run)

lemma require_provider_run:
  "require_provider env name ns s =
     (case provider_get env name ns s of Some p \<Rightarrow> Inr p | None \<Rightarrow> Inl (provider_not_found name ns), s)"
  by (simp add: require_provider_def split: option.split)

definition after_register :: "svc_env \<Rightarrow> provider_create \<Rightarrow> server_db \<Rightarrow> server_db" where
  "after_register env q s =
     audited env (event_args ''provider'' ''provider.registered'' (pc_name q) (pc_namespace q) None)
       (s\<lparr>sd_reads := Suc (sd_reads s),
          sd_providers := sd_providers s @ [new_provider q (sd_providers_seq s + 1) (se_clock env (sd_reads s))],
          sd_providers_seq := sd_providers_seq s + 1\<rparr>)"

lemma provider_register_fresh:
  assumes "int64_ok (pc_timeout_ms q)" and "provider_map env s (create_key q) = None"
  shows "provider_register env q s =
    (Inr (provider_row_to_dict env (new_provider q (sd_providers_seq s + 1) (se_clock env (sd_reads s)))), after_register env q s)"
proof -
  let ?row = "new_provider q (sd_providers_seq s + 1) (se_clock env (sd_reads s))"
  have sel: "select_key provider_key (create_key q) (sd_providers s) = None"
    using assms(2) by (simp add: provider_map_def)
  then have "provider_get env (pc_name q) (pc_namespace q) (after_register env q s) = Some (provider_row_to_dict env ?row)"
    by (simp add: provider_get_def after_register_def select_key_append)
  moreover have "create_key q \<notin> provider_key ` set (sd_providers s)"
    using sel by (simp add: select_key_None)
  ultimately show ?thesis
    using assms(1)
    by (simp add: provider_register_def bindP_run bind_int_def insert_provider_def provider_audit_def
        get_after_write_run after_register_def)
qed

lemma provider_register_taken:
  assumes "int64_ok (pc_timeout_ms q)" and "provider_map env s (create_key q) \<noteq> None"
  shows "provider_register env q s =
    (Inl (IntegrityError ''UNIQUE constraint failed: providers.name, providers.namespace''), s\<lparr>sd_reads := Suc (sd_reads s)\<rparr>)"
proof -
  have "create_key q \<in> provider_key ` set (sd_providers s)"
    using assms(2) by (simp add: provider_map_None)
  then show ?thesis
    using assms(1) by (simp add: provider_register_def bindP_run bind_int_def insert_provider_def insert_unique_taken)
qed

lemma provider_register_overflow:
  "\<not> int64_ok (pc_timeout_ms q) \<Longrightarrow> provider_register env q s = (Inl overflow_error, s)"
  by (simp add: provider_register_def bindP_run bind_int_def)

lemma provider_wf_reads [simp]: "provider_wf (s\<lparr>sd_reads := k\<rparr>) = provider_wf s"
  by (simp add: provider_wf_def)

lemma provider_wf_audited [simp]: "provider_wf (audited env a s) = provider_wf s"
  by (simp add: provider_wf_def)

lemma provider_wf_register:
  assumes "provider_wf s" and "provider_map env s (create_key q) = None"
  shows "provider_wf (after_register env q s)"
  using assms
  by (auto simp: provider_wf_def after_register_def provider_map_None sorted_wrt_append new_provider_def provider_key_def)

lemma provider_map_register:
  assumes "provider_map env s (create_key q) = None"
  shows "provider_map env (after_register env q s) =
    (provider_map env s)(create_key q \<mapsto>
       provider_row_to_dict env (new_provider q (sd_providers_seq s + 1) (se_clock env (sd_reads s))))"
  using assms
  by (auto simp: fun_eq_iff provider_map_def after_register_def select_key_append split: option.split)

lemma provider_register_cases:
  obtains "int64_ok (pc_timeout_ms q)" "provider_map env s (create_key q) = None"
    "provider_register env q s =
      (Inr (provider_row_to_dict env (new_provider q (sd_providers_seq s + 1) (se_clock env (sd_reads s)))), after_register env q s)"
  | e where "provider_register env q s = (Inl e, s)"
  | e where "provider_register env q s = (Inl e, s\<lparr>sd_reads := Suc (sd_reads s)\<rparr>)"
  using provider_register_fresh [of q env s] provider_register_taken [of q env s] provider_register_overflow [of q env s]
  by metis

lemma provider_register_failed:
  assumes "provider_register env q s = (Inl e, s')"
  shows "sd_providers s' = sd_providers s \<and> provider_wf s' = provider_wf s"
  by (rule provider_register_cases [of q env s]) (use assms in simp_all)

interpretation providers: named_registry provider_wf "provider_map env" "provider_register env" create_key for env
proof (unfold_locales, goal_cases)
  case (1 s q v s')
  show ?case
  proof (rule provider_register_cases [of q env s])
    assume free: "provider_map env s (create_key q) = None"
      and run: "provider_register env q s =
        (Inr (provider_row_to_dict env (new_provider q (sd_providers_seq s + 1) (se_clock env (sd_reads s)))), after_register env q s)"
    from run 1(2) have r: "v = provider_row_to_dict env (new_provider q (sd_providers_seq s + 1) (se_clock env (sd_reads s)))"
      "s' = after_register env q s" by (auto simp only: prod.inject sum.inject)
    show ?thesis
      unfolding r using provider_wf_register [OF 1(1) free] provider_map_register [OF free] free by blast
  qed (use 1(2) in simp_all)
next
  case (2 s q e s')
  have "provider_map env s' = provider_map env s"
    using provider_register_failed [OF 2(2)] by (intro provider_map_cong) simp
  with 2 show ?case using provider_register_failed [OF 2(2)] by simp
qed

section \<open>Changing a provider\<close>

definition after_change :: "svc_env \<Rightarrow> audit_args \<Rightarrow> string \<Rightarrow> string \<Rightarrow> (provider_row \<Rightarrow> provider_row) \<Rightarrow> server_db \<Rightarrow> server_db" where
  "after_change env a name ns f s =
     audited env a (s\<lparr>sd_reads := Suc (sd_reads s),
       sd_providers := update_key provider_key (name, ns) f (sd_providers s)\<rparr>)"

definition keeps_identity :: "(provider_row \<Rightarrow> provider_row) \<Rightarrow> bool" where
  "keeps_identity f \<longleftrightarrow> (\<forall>r. provider_key (f r) = provider_key r \<and> pr_id (f r) = pr_id r)"

lemma keeps_identity_ops [simp]:
  "keeps_identity (apply_update u now)" "keeps_identity (health_row ok now)"
  "keeps_identity (\<lambda>r. r\<lparr>pr_enabled := e, pr_updated_at := now\<rparr>)"
  by (simp_all add: keeps_identity_def provider_key_def apply_update_def health_row_def)

lemma provider_map_change:
  assumes "keeps_identity f" and "select_key provider_key (name, ns) (sd_providers s) = Some r"
  shows "provider_map env (after_change env a name ns f s) =
    (provider_map env s)((name, ns) \<mapsto> provider_row_to_dict env (f r))"
proof -
  have "select_key provider_key k (update_key provider_key (name, ns) f (sd_providers s)) =
      (if k = (name, ns) then Some (f r) else select_key provider_key k (sd_providers s))" for k
    using select_key_update [of provider_key f k "(name, ns)" "sd_providers s"] assms by (simp add: keeps_identity_def)
  then show ?thesis by (auto simp: fun_eq_iff provider_map_def after_change_def)
qed

lemma provider_wf_change:
  assumes "keeps_identity f"
  shows "provider_wf (after_change env a name ns f s) = provider_wf s"
proof -
  let ?u = "update_key provider_key (name, ns) f (sd_providers s)"
  have ids: "map pr_id ?u = map pr_id (sd_providers s)"
    using assms by (intro update_key_column) (simp add: keeps_identity_def)
  have keys: "map provider_key ?u = map provider_key (sd_providers s)"
    using assms by (intro update_key_keys) (simp add: keeps_identity_def)
  have bound: "(\<forall>r \<in> set rs. pr_id r \<le> n) \<longleftrightarrow> (\<forall>i \<in> set (map pr_id rs). i \<le> n)" for rs :: "provider_row list" and n by auto
  show ?thesis
    unfolding provider_wf_def after_change_def by (simp add: ids keys bound del: set_map list.set_map)
qed

lemma provider_get_row:
  assumes "provider_get env name ns s = Some p"
  obtains r where "select_key provider_key (name, ns) (sd_providers s) = Some r" and "p = provider_row_to_dict env r"
  using assms by (auto simp: provider_get_def)

lemma get_after_change:
  assumes "keeps_identity f" and "select_key provider_key (name, ns) (sd_providers s) = Some r"
  shows "get_after_write env name ns (after_change env a name ns f s) =
    (Inr (provider_row_to_dict env (f r)), after_change env a name ns f s)"
  using provider_map_change [OF assms, of env a] by (intro get_after_write_run) (simp add: provider_map_get)

text \<open>The operations on a registered provider, as one type.\<close>

datatype provider_op = OpUpdate provider_update | OpEnable | OpDisable | OpHealth bool

fun provider_do :: "svc_env \<Rightarrow> string \<Rightarrow> string \<Rightarrow> provider_op \<Rightarrow> provider_dict svc" where
  "provider_do env name ns (OpUpdate u) = provider_update_fields env name ns u"
| "provider_do env name ns OpEnable = provider_enable env name ns"
| "provider_do env name ns OpDisable = provider_disable env name ns"
| "provider_do env name ns (OpHealth b) = record_health env name ns b"

fun op_row :: "provider_op \<Rightarrow> string \<Rightarrow> provider_row \<Rightarrow> provider_row" where
  "op_row (OpUpdate u) now = apply_update u now"
| "op_row OpEnable now = (\<lambda>r. r\<lparr>pr_enabled := 1, pr_updated_at := now\<rparr>)"
| "op_row OpDisable now = (\<lambda>r. r\<lparr>pr_enabled := 0, pr_updated_at := now\<rparr>)"
| "op_row (OpHealth b) now = health_row b now"

fun op_event :: "provider_op \<Rightarrow> string \<times> json option" where
  "op_event (OpUpdate u) = (''provider.updated'', None)"
| "op_event OpEnable = (''provider.enabled'', None)"
| "op_event OpDisable = (''provider.disabled'', None)"
| "op_event (OpHealth b) = (''provider.health_recorded'',
     Some (JObj [(''success'', JBool b), (''health_state'', JStr (health_text b))]))"

fun op_changes :: "provider_op \<Rightarrow> bool" where
  "op_changes (OpUpdate u) = (\<not> update_empty u)"
| "op_changes op = True"

fun op_fits :: "provider_op \<Rightarrow> bool" where
  "op_fits (OpUpdate u) = (case pu_timeout_ms u of Some (Some t) \<Rightarrow> int64_ok t | _ \<Rightarrow> True)"
| "op_fits op = True"

definition after_op :: "svc_env \<Rightarrow> string \<Rightarrow> string \<Rightarrow> provider_op \<Rightarrow> server_db \<Rightarrow> server_db" where
  "after_op env name ns op s =
     after_change env (event_args ''provider'' (fst (op_event op)) name ns (snd (op_event op))) name ns
       (op_row op (se_clock env (sd_reads s))) s"

lemma keeps_identity_op [simp]: "keeps_identity (op_row op now)"
  by (cases op) simp_all

lemma provider_do_missing:
  "provider_map env s (name, ns) = None \<Longrightarrow> provider_do env name ns op s = (Inl (provider_not_found name ns), s)"
  by (cases op)
     (simp_all add: provider_update_fields_def provider_enable_def provider_disable_def set_enabled_def
       record_health_def bindP_run require_provider_run provider_map_get)

lemma provider_do_unchanged:
  "provider_map env s (name, ns) = Some p \<Longrightarrow> \<not> op_changes op \<Longrightarrow> provider_do env name ns op s = (Inr p, s)"
  by (cases op) (simp_all add: provider_update_fields_def bindP_run require_provider_run provider_map_get)

lemma provider_do_overflow:
  "provider_map env s (name, ns) = Some p \<Longrightarrow> op_changes op \<Longrightarrow> \<not> op_fits op \<Longrightarrow>
   provider_do env name ns op s = (Inl overflow_error, s\<lparr>sd_reads := Suc (sd_reads s)\<rparr>)"
  by (cases op)
     (simp_all add: provider_update_fields_def bindP_run require_provider_run provider_map_get bind_int_def
       split: option.splits)

lemma provider_do_run:
  assumes sel: "select_key provider_key (name, ns) (sd_providers s) = Some r"
    and op: "op_changes op" "op_fits op"
  shows "provider_do env name ns op s =
    (Inr (provider_row_to_dict env (op_row op (se_clock env (sd_reads s)) r)), after_op env name ns op s)"
proof -
  note got = get_after_change [OF keeps_identity_op sel, of env _ op "se_clock env (sd_reads s)"]
  have found: "provider_map env s (name, ns) = Some (provider_row_to_dict env r)"
    using sel by (simp add: provider_map_def)
  show ?thesis
  proof (cases op)
    case (OpUpdate u)
    with op have fits: "(case pu_timeout_ms u of Some (Some t) \<Rightarrow> bind_int t | _ \<Rightarrow> ret ()) = (ret () :: unit svc)"
      by (auto simp: bind_int_def split: option.splits)
    show ?thesis
      using got [of "event_args ''provider'' ''provider.updated'' name ns None"] op found OpUpdate
      by (simp add: provider_update_fields_def fits bindP_run require_provider_run provider_map_get modify_provider_def
          provider_audit_def after_op_def flip: after_change_def)
  next
    case OpEnable
    with got [of "event_args ''provider'' ''provider.enabled'' name ns None"] found show ?thesis
      by (simp add: provider_enable_def set_enabled_def bindP_run require_provider_run provider_map_get
          modify_provider_def provider_audit_def after_op_def flip: after_change_def)
  next
    case OpDisable
    with got [of "event_args ''provider'' ''provider.disabled'' name ns None"] found show ?thesis
      by (simp add: provider_disable_def set_enabled_def bindP_run require_provider_run provider_map_get
          modify_provider_def provider_audit_def after_op_def flip: after_change_def)
  next
    case (OpHealth b)
    with got [of "event_args ''provider'' ''provider.health_recorded'' name ns (snd (op_event op))"] found show ?thesis
      by (simp add: record_health_def bindP_run require_provider_run provider_map_get
          modify_provider_def provider_audit_def after_op_def flip: after_change_def)
  qed
qed

lemma provider_do_cases:
  obtains (missing) "provider_map env s (name, ns) = None"
      "provider_do env name ns op s = (Inl (provider_not_found name ns), s)"
  | (unchanged) p where "provider_map env s (name, ns) = Some p" "\<not> op_changes op"
      "provider_do env name ns op s = (Inr p, s)"
  | (overflow) p where "provider_map env s (name, ns) = Some p" "\<not> op_fits op"
      "provider_do env name ns op s = (Inl overflow_error, s\<lparr>sd_reads := Suc (sd_reads s)\<rparr>)"
  | (changed) r where "select_key provider_key (name, ns) (sd_providers s) = Some r"
      "provider_map env s (name, ns) = Some (provider_row_to_dict env r)" "op_changes op" "op_fits op"
      "provider_do env name ns op s =
        (Inr (provider_row_to_dict env (op_row op (se_clock env (sd_reads s)) r)), after_op env name ns op s)"
proof (cases "select_key provider_key (name, ns) (sd_providers s)")
  case None
  then show thesis by (intro missing provider_do_missing) (simp_all add: provider_map_def)
next
  case (Some r)
  then have m: "provider_map env s (name, ns) = Some (provider_row_to_dict env r)" by (simp add: provider_map_def)
  show thesis
    using unchanged [OF m _ provider_do_unchanged [OF m]] overflow [OF m _ provider_do_overflow [OF m]]
      changed [OF Some m _ _ provider_do_run [OF Some]] by blast
qed

lemma provider_map_reads [simp]: "provider_map env (s\<lparr>sd_reads := k\<rparr>) = provider_map env s"
  by (rule provider_map_cong) simp

lemma provider_map_op:
  "select_key provider_key (name, ns) (sd_providers s) = Some r \<Longrightarrow>
   provider_map env (after_op env name ns op s) =
     (provider_map env s)((name, ns) \<mapsto> provider_row_to_dict env (op_row op (se_clock env (sd_reads s)) r))"
  unfolding after_op_def by (rule provider_map_change [OF keeps_identity_op])

lemma provider_wf_op [simp]: "provider_wf (after_op env name ns op s) = provider_wf s"
  unfolding after_op_def by (rule provider_wf_change [OF keeps_identity_op])

lemma sd_audit_op: "sd_audit (after_op env name ns op s) = sd_audit s @
    (if se_audit_on env
     then [audit_row_of env (event_args ''provider'' (fst (op_event op)) name ns (snd (op_event op))) (s\<lparr>sd_reads := Suc (sd_reads s),
             sd_providers := update_key provider_key (name, ns) (op_row op (se_clock env (sd_reads s))) (sd_providers s)\<rparr>)]
     else [])"
  by (simp add: after_op_def after_change_def sd_audit_audited)

section \<open>Properties\<close>

text \<open>
  A provider name is registered once per namespace. A registration that returned stays
  readable under its key, whatever else is registered afterwards, and every later
  registration of the same name and namespace raises.
\<close>

theorem provider_registered_once:
  assumes "provider_wf s" and "provider_register env q s = (Inr d, s')" and "create_key q' = create_key q"
  shows "provider_get env (pc_name q) (pc_namespace q) (run_all (provider_register env) qs s') = Some d \<and>
    (\<exists>e. fst (provider_register env q' (run_all (provider_register env) qs s')) = Inl e)"
  using providers.registered_then_kept [OF assms(1,2), of qs] providers.second_registration_refused [OF assms, of qs]
  by (simp add: provider_map_get)

text \<open>What an update does to the dict of the provider.\<close>

fun shape_json :: "svc_env \<Rightarrow> shape_arg \<Rightarrow> json" where
  "shape_json env ShapeNone = JNull"
| "shape_json env (ShapeText t) = parsed_text env (Some t)"
| "shape_json env (ShapeJson j) = j"

definition updated_dict :: "svc_env \<Rightarrow> provider_update \<Rightarrow> string \<Rightarrow> provider_dict \<Rightarrow> provider_dict" where
  "updated_dict env u now p =
     p\<lparr>pr_endpoint := given (pu_endpoint u) (pr_endpoint p),
       pr_timeout_ms := given (pu_timeout_ms u) (pr_timeout_ms p),
       pr_entity_key_type := given (pu_entity_key_type u) (pr_entity_key_type p),
       pr_trust_tier := given (pu_trust_tier u) (pr_trust_tier p),
       pr_credentials_ref := given (pu_credentials_ref u) (pr_credentials_ref p),
       pr_resource_shape := given (map_option (shape_json env) (pu_resource_shape u)) (pr_resource_shape p),
       pr_updated_at := now\<rparr>"

definition shape_ok :: "svc_env \<Rightarrow> provider_update \<Rightarrow> bool" where
  "shape_ok env u \<longleftrightarrow> (case pu_resource_shape u of Some (ShapeJson j) \<Rightarrow> json_ok (se_float env) j | _ \<Rightarrow> True)"

lemma provider_dict_update:
  "shape_ok env u \<Longrightarrow> provider_row_to_dict env (apply_update u now r) = updated_dict env u now (provider_row_to_dict env r)"
  by (auto simp: provider_row_to_dict_def apply_update_def updated_dict_def given_def shape_ok_def parsed_text_def
      split: option.splits shape_arg.splits)

text \<open>
  An update of a registered provider with at least one field returns the provider with
  exactly the given fields replaced (a dict given as resource shape reads back as that dict)
  and the new \<open>updated_at\<close>; every other provider, and identity and health of this one, are untouched.
\<close>

theorem provider_update_sets_given_fields:
  assumes "provider_get env name ns s = Some p" and "\<not> update_empty u" and "op_fits (OpUpdate u)" and "shape_ok env u"
  defines "p' \<equiv> updated_dict env u (se_clock env (sd_reads s)) p"
  shows "\<exists>s'. provider_update_fields env name ns u s = (Inr p', s') \<and>
    (\<forall>name' ns'. provider_get env name' ns' s' =
       (if (name', ns') = (name, ns) then Some p' else provider_get env name' ns' s)) \<and>
    pr_id p' = pr_id p \<and> pr_enabled p' = pr_enabled p \<and> pr_health_state p' = pr_health_state p"
proof -
  obtain r where sel: "select_key provider_key (name, ns) (sd_providers s) = Some r" and p: "p = provider_row_to_dict env r"
    using assms(1) by (rule provider_get_row)
  have "op_changes (OpUpdate u)" using assms(2) by simp
  from provider_do_run [OF sel this assms(3), of env]
  have run: "provider_update_fields env name ns u s = (Inr p', after_op env name ns (OpUpdate u) s)"
    by (simp add: provider_dict_update [OF assms(4)] p'_def p)
  have "provider_map env (after_op env name ns (OpUpdate u) s) = (provider_map env s)((name, ns) \<mapsto> p')"
    using provider_map_op [OF sel, of env "OpUpdate u"] by (simp add: provider_dict_update [OF assms(4)] p'_def p)
  with run show ?thesis by (auto simp: provider_map_get p'_def updated_dict_def)
qed

text \<open>
  The operations on a provider that is not registered raise \<open>ValueError\<close> with the message of
  the code and change nothing: no row, no audit event, no clock reading.
\<close>

theorem unknown_provider_refused:
  assumes "provider_get env name ns s = None"
  shows "provider_update_fields env name ns u s = (Inl (provider_not_found name ns), s) \<and>
    provider_enable env name ns s = (Inl (provider_not_found name ns), s) \<and>
    provider_disable env name ns s = (Inl (provider_not_found name ns), s) \<and>
    record_health env name ns b s = (Inl (provider_not_found name ns), s)"
  using provider_do_missing [of env s name ns "OpUpdate u"] provider_do_missing [of env s name ns OpEnable]
    provider_do_missing [of env s name ns OpDisable] provider_do_missing [of env s name ns "OpHealth b"] assms
  by (simp add: provider_map_get)

text \<open>The flags after a sequence of operations: the last one that sets a flag decides.\<close>

fun enabled_after :: "provider_op list \<Rightarrow> bool \<Rightarrow> bool" where
  "enabled_after [] b = b"
| "enabled_after (OpEnable # ops) b = enabled_after ops True"
| "enabled_after (OpDisable # ops) b = enabled_after ops False"
| "enabled_after (op # ops) b = enabled_after ops b"

fun health_after :: "provider_op list \<Rightarrow> string \<Rightarrow> string" where
  "health_after [] h = h"
| "health_after (OpHealth b # ops) h = health_after ops (health_text b)"
| "health_after (op # ops) h = health_after ops h"

lemma op_row_flags:
  "pr_enabled (provider_row_to_dict env (op_row op now r)) = enabled_after [op] (pr_enabled (provider_row_to_dict env r))"
  "pr_health_state (op_row op now r) = health_after [op] (pr_health_state r)"
  by (cases op; simp add: provider_row_to_dict_def apply_update_def health_row_def health_text_def)+

lemma flags_Cons:
  "enabled_after (op # ops) b = enabled_after ops (enabled_after [op] b)"
  "health_after (op # ops) h = health_after ops (health_after [op] h)"
  by (cases op; simp)+

lemma provider_do_flags:
  assumes "provider_map env s (name, ns) = Some p" and "provider_do env name ns op s = (r, s')"
  shows "\<exists>p'. provider_map env s' = (provider_map env s)((name, ns) \<mapsto> p') \<and> pr_id p' = pr_id p \<and>
    pr_registered_at p' = pr_registered_at p \<and>
    pr_enabled p' = enabled_after [op] (pr_enabled p) \<and> pr_health_state p' = health_after [op] (pr_health_state p)"
proof (cases rule: provider_do_cases [of env s name ns op])
  case missing
  with assms show ?thesis by simp
next
  case (unchanged q)
  then have "s' = s" "\<exists>u. op = OpUpdate u" using assms by (cases op; simp)+
  with assms(1) show ?thesis by (intro exI [of _ p]) (auto simp: fun_upd_idem)
next
  case (overflow q)
  then have "s' = s\<lparr>sd_reads := Suc (sd_reads s)\<rparr>" "\<exists>u. op = OpUpdate u" using assms by (cases op; simp)+
  with assms(1) show ?thesis by (intro exI [of _ p]) (auto simp: fun_upd_idem)
next
  case (changed row)
  let ?p = "provider_row_to_dict env (op_row op (se_clock env (sd_reads s)) row)"
  from changed assms have s': "s' = after_op env name ns op s" and p: "p = provider_row_to_dict env row" by simp_all
  have "pr_id ?p = pr_id p \<and> pr_registered_at ?p = pr_registered_at p"
    by (cases op) (simp_all add: p provider_row_to_dict_def apply_update_def health_row_def)
  moreover have "pr_health_state ?p = health_after [op] (pr_health_state p)"
    using op_row_flags(2) [of op _ row] by (simp add: p provider_row_to_dict_def)
  ultimately show ?thesis
    unfolding s' provider_map_op [OF changed(1)] using op_row_flags(1) [of env op] by (auto simp: p)
qed

text \<open>
  After any sequence of updates, enables, disables and health checks (failing ones
  included), a registered provider is still registered under its id, its \<open>enabled\<close> flag is what
  the last enable or disable set, its health what the last check recorded, and no other
  provider has changed.
\<close>

theorem provider_flags_follow_operations:
  assumes "provider_get env name ns s = Some p"
  shows "\<exists>p'. provider_get env name ns (run_all (provider_do env name ns) ops s) = Some p' \<and>
    pr_id p' = pr_id p \<and> pr_registered_at p' = pr_registered_at p \<and>
    pr_enabled p' = enabled_after ops (pr_enabled p) \<and> pr_health_state p' = health_after ops (pr_health_state p) \<and>
    (\<forall>name' ns'. (name', ns') \<noteq> (name, ns) \<longrightarrow>
       provider_get env name' ns' (run_all (provider_do env name ns) ops s) = provider_get env name' ns' s)"
  using assms
proof (induction ops arbitrary: s p)
  case (Cons op ops)
  obtain r s' where step: "provider_do env name ns op s = (r, s')" by fastforce
  obtain p1 where p1: "provider_map env s' = (provider_map env s)((name, ns) \<mapsto> p1)" "pr_id p1 = pr_id p"
    "pr_registered_at p1 = pr_registered_at p" "pr_enabled p1 = enabled_after [op] (pr_enabled p)"
    "pr_health_state p1 = health_after [op] (pr_health_state p)"
    using provider_do_flags [OF _ step, of p] Cons.prems by (auto simp: provider_map_get)
  have "provider_get env name ns s' = Some p1" by (simp add: provider_map_get p1(1))
  from Cons.IH [OF this] p1 show ?case
    by (auto simp: step flags_Cons [of op ops] provider_map_get)
qed simp

text \<open>Every request that changes the registry.\<close>

datatype provider_request = Register provider_create | Change string string provider_op

fun provider_handle :: "svc_env \<Rightarrow> provider_request \<Rightarrow> provider_dict svc" where
  "provider_handle env (Register q) = provider_register env q"
| "provider_handle env (Change name ns op) = provider_do env name ns op"

fun request_event :: "provider_request \<Rightarrow> audit_args" where
  "request_event (Register q) = event_args ''provider'' ''provider.registered'' (pc_name q) (pc_namespace q) None"
| "request_event (Change name ns op) = event_args ''provider'' (fst (op_event op)) name ns (snd (op_event op))"

fun request_changes :: "provider_request \<Rightarrow> bool" where
  "request_changes (Register q) = True"
| "request_changes (Change name ns op) = op_changes op"

lemma audit_wf_cong: "sd_audit s' = sd_audit s \<Longrightarrow> sd_audit_seq s' = sd_audit_seq s \<Longrightarrow> audit_wf s' = audit_wf s"
  by (simp add: audit_wf_def)

lemma audit_wf_reads [simp]: "audit_wf (s\<lparr>sd_reads := k\<rparr>) = audit_wf s"
  by (simp add: audit_wf_def)

lemma audit_wf_op:
  assumes "audit_wf s"
  shows "audit_wf (after_op env name ns op s)"
proof -
  have "audit_wf (s\<lparr>sd_reads := Suc (sd_reads s), sd_providers := ps\<rparr>)" for ps
    by (rule audit_wf_cong [THEN iffD2, OF _ _ assms]) simp_all
  then show ?thesis unfolding after_op_def after_change_def by (rule audit_wf_audited)
qed

lemma audit_wf_registered:
  assumes "audit_wf s"
  shows "audit_wf (after_register env q s)"
proof -
  have "audit_wf (s\<lparr>sd_reads := Suc (sd_reads s), sd_providers := ps, sd_providers_seq := k\<rparr>)" for ps k
    by (rule audit_wf_cong [THEN iffD2, OF _ _ assms]) simp_all
  then show ?thesis unfolding after_register_def by (rule audit_wf_audited)
qed

lemma provider_handle_keeps: "keeps (\<lambda>s. provider_wf s \<and> audit_wf s) (provider_handle env req)"
proof (cases req)
  case (Register q)
  have "provider_wf s' \<and> audit_wf s'" if "provider_wf s" "audit_wf s" "provider_register env q s = (r, s')" for s s' r
  proof (rule provider_register_cases [of q env s])
    assume "provider_map env s (create_key q) = None" "provider_register env q s =
      (Inr (provider_row_to_dict env (new_provider q (sd_providers_seq s + 1) (se_clock env (sd_reads s)))), after_register env q s)"
    with that show ?thesis using provider_wf_register audit_wf_registered by auto
  qed (use that in \<open>auto simp: audit_wf_def\<close>)
  then show ?thesis unfolding Register keeps_def by (metis provider_handle.simps(1) prod.collapse)
next
  case (Change name ns op)
  have "provider_wf s' \<and> audit_wf s'" if "provider_wf s" "audit_wf s" "provider_do env name ns op s = (r, s')" for s s' r
    using that
    by (cases rule: provider_do_cases [of env s name ns op]) (auto simp: audit_wf_op)
  then show ?thesis unfolding Change keeps_def by (metis provider_handle.simps(2) prod.collapse)
qed

lemma run_all_keeps: "(\<And>q. keeps P (f q)) \<Longrightarrow> P s \<Longrightarrow> P (run_all f qs s)"
  by (induction qs arbitrary: s) (simp_all add: keeps_def)

text \<open>
  From an empty database, after any sequence of registrations, updates, enables,
  disables and health checks, no two providers share a name and namespace, no two rows share an
  id, and the audit ids increase along the log.
\<close>

theorem provider_requests_keep_keys_unique:
  "distinct (map provider_key (sd_providers (run_all (provider_handle env) reqs empty_db))) \<and>
   distinct (map pr_id (sd_providers (run_all (provider_handle env) reqs empty_db))) \<and>
   sorted_wrt (<) (map au_id (sd_audit (run_all (provider_handle env) reqs empty_db)))"
proof -
  have "provider_wf empty_db \<and> audit_wf empty_db"
    by (simp add: provider_wf_def audit_wf_def empty_db_def)
  from run_all_keeps [of "\<lambda>s. provider_wf s \<and> audit_wf s" "provider_handle env", OF provider_handle_keeps this, of reqs]
  show ?thesis
    unfolding provider_wf_def audit_wf_def by (simp add: strict_sorted_iff)
qed

text \<open>
  With an audit service, a request that changes the registry writes exactly one audit
  event, with the event type of the operation and the provider's name and namespace; a request
  that fails, or an update with no field, writes none.
\<close>

theorem provider_request_audited_once:
  assumes "se_audit_on env" and "provider_handle env req s = (r, s')"
  shows "(case r of
      Inl e \<Rightarrow> sd_audit s' = sd_audit s
    | Inr p \<Rightarrow>
        if request_changes req
        then \<exists>row. sd_audit s' = sd_audit s @ [row] \<and> au_id row = sd_audit_seq s + 1 \<and>
          au_event_type row = aa_event_type (request_event req) \<and> au_resource_type row = Some ''provider'' \<and>
          au_resource_name row = Some (pr_name p) \<and> au_namespace row = pr_namespace p
        else sd_audit s' = sd_audit s)"
proof (cases req)
  case (Register q)
  show ?thesis
    by (rule provider_register_cases [of q env s])
       (use assms in \<open>auto simp: Register after_register_def sd_audit_audited audit_row_of_def event_args_def
          provider_row_to_dict_def new_provider_def\<close>)
next
  case (Change name ns op)
  show ?thesis
  proof (cases rule: provider_do_cases [of env s name ns op])
    case (changed row)
    then have "pr_name row = name" "pr_namespace row = ns" using select_key_Some [OF changed(1)] by (simp_all add: provider_key_def)
    moreover have "pr_name (op_row op now row) = pr_name row" "pr_namespace (op_row op now row) = pr_namespace row" for now
      using keeps_identity_op [of op now] by (simp_all add: keeps_identity_def provider_key_def)
    ultimately show ?thesis
      using changed assms by (auto simp: Change sd_audit_op audit_row_of_def event_args_def provider_row_to_dict_def)
  qed (use assms in \<open>auto simp: Change\<close>)
qed

text \<open>
  Listing providers gives, page after page, every provider that matches the filters,
  once, in name order, and each page comes with the number of all matches.
\<close>

theorem provider_list_pages:
  fixes s :: server_db and ns ptype :: "string option"
  assumes "scan_ok scan" and "0 < lmt" and "int64_ok lmt" and "int n * lmt < 2 ^ 63"
  defines "matching \<equiv> filter (\<lambda>r. opt_filter ns pr_namespace r \<and> opt_filter ptype pr_provider_type r) (sd_providers s)"
  shows "\<exists>listing. sorted (map pr_name listing) \<and>
    mset listing = image_mset (provider_row_to_dict env) (mset matching) \<and>
    (\<forall>i < n. provider_list env scan ns ptype lmt (int i * lmt) s =
       (Inr (sql_page lmt (int i * lmt) listing, int (length matching)), s)) \<and>
    concat (map (\<lambda>i. sql_page lmt (int i * lmt) listing) [0..<n]) = take (n * nat lmt) listing"
proof -
  let ?listing = "map (provider_row_to_dict env) (sort_key pr_name (scan matching))"
  have name: "pr_name (provider_row_to_dict env r) = pr_name r" for r by (simp add: provider_row_to_dict_def)
  have "int64_ok (int i * lmt)" if "i < n" for i
  proof -
    have "int i * lmt \<le> int n * lmt" using that assms(2) by (intro mult_right_mono) auto
    moreover have "0 \<le> int i * lmt" using assms(2) by simp
    ultimately show ?thesis using assms(4) unfolding int64_ok_def by linarith
  qed
  then have "provider_list env scan ns ptype lmt (int i * lmt) s =
      (Inr (sql_page lmt (int i * lmt) ?listing, int (length matching)), s)" if "i < n" for i
    using that assms(3)
    by (simp add: provider_list_def bind_int_def page_by_name_def sql_page_def Let_def take_map drop_map matching_def)
  moreover have "sorted (map pr_name ?listing)"
    using sorted_sort_key [of pr_name "scan matching"] by (simp add: comp_def name)
  moreover have "mset ?listing = image_mset (provider_row_to_dict env) (mset matching)"
    using assms(1) by (simp add: scan_ok_def)
  ultimately show ?thesis using sql_pages_concat [OF assms(2), of ?listing n] by blast
qed

end
