(* ===== verification/Provider_Examples.thy ===== *)
theory Provider_Examples
  imports Provider_Service
begin

text \<open>Concrete runs of the provider registry, which the properties are applied to.\<close>

definition jira :: provider_create where
  "jira = \<lparr>pc_name = ''jira'', pc_provider_type = ''REMOTE'', pc_namespace = ''default'',
     pc_endpoint = None, pc_timeout_ms = 30000, pc_entity_key_type = None, pc_trust_tier = ''standard''\<rparr>"

definition jira_db :: server_db where
  "jira_db = after_register demo_svc_env jira empty_db"

definition jira_dict :: provider_dict where
  "jira_dict = provider_row_to_dict demo_svc_env (new_provider jira 1 ''2026-01-01 00:00:00'')"

definition jira_shape :: provider_update where
  "jira_shape = \<lparr>pu_endpoint = Some (Some ''http://x''), pu_timeout_ms = Some (Some 5), pu_entity_key_type = None,
     pu_trust_tier = None, pu_credentials_ref = None, pu_resource_shape = Some (ShapeJson (JArr [JInt 1, JStr ''a'']))\<rparr>"

lemma empty_provider_wf: "provider_wf empty_db"
  by (simp add: provider_wf_def empty_db_def)

lemma jira_registers: "provider_register demo_svc_env jira empty_db = (Inr jira_dict, jira_db)"
proof -
  have "provider_map demo_svc_env empty_db (create_key jira) = None"
    by (simp add: provider_map_def empty_db_def select_key_def)
  from provider_register_fresh [OF _ this] show ?thesis
    by (simp add: jira_dict_def jira_db_def int64_ok_def jira_def empty_db_def demo_svc_env_def)
qed

lemma jira_there: "provider_get demo_svc_env ''jira'' ''default'' jira_db = Some jira_dict"
  using providers.registered [OF empty_provider_wf jira_registers] by (simp add: provider_map_get jira_def)

lemma jira_alone: "sd_providers jira_db = [new_provider jira 1 ''2026-01-01 00:00:00'']"
  by (simp add: jira_db_def after_register_def empty_db_def demo_svc_env_def)

lemma provider_registered_once_witness:
  "provider_get demo_svc_env ''jira'' ''default'' (run_all (provider_register demo_svc_env) [jira\<lparr>pc_name := ''b''\<rparr>, jira] jira_db) = Some jira_dict \<and>
   (\<exists>e. fst (provider_register demo_svc_env (jira\<lparr>pc_timeout_ms := 1\<rparr>) (run_all (provider_register demo_svc_env) [jira\<lparr>pc_name := ''b''\<rparr>, jira] jira_db)) = Inl e)"
  using provider_registered_once [OF empty_provider_wf jira_registers, of "jira\<lparr>pc_timeout_ms := 1\<rparr>" "[jira\<lparr>pc_name := ''b''\<rparr>, jira]"]
  by (simp add: jira_def)

lemma provider_update_sets_given_fields_witness:
  "\<exists>p s'. provider_update_fields demo_svc_env ''jira'' ''default'' jira_shape jira_db = (Inr p, s') \<and>
     pr_resource_shape p = JArr [JInt 1, JStr ''a''] \<and> pr_timeout_ms p = Some 5 \<and> pr_trust_tier p = Some ''standard''"
proof -
  have "\<not> update_empty jira_shape" "op_fits (OpUpdate jira_shape)" "shape_ok demo_svc_env jira_shape"
    by (simp_all add: update_empty_def jira_shape_def int64_ok_def shape_ok_def)
  from provider_update_sets_given_fields [OF jira_there this] show ?thesis
    by (auto simp: updated_dict_def given_def jira_shape_def jira_dict_def provider_row_to_dict_def new_provider_def jira_def)
qed

lemma unknown_provider_refused_witness:
  "record_health demo_svc_env ''nobody'' ''default'' True jira_db = (Inl (provider_not_found ''nobody'' ''default''), jira_db)"
proof -
  have "provider_get demo_svc_env ''nobody'' ''default'' jira_db = None"
    by (simp add: provider_get_def jira_alone select_key_def provider_key_def new_provider_def jira_def)
  from unknown_provider_refused [OF this] show ?thesis by blast
qed

lemma provider_flags_follow_operations_witness:
  "\<exists>p. provider_get demo_svc_env ''jira'' ''default''
      (run_all (provider_do demo_svc_env ''jira'' ''default'') [OpDisable, OpHealth True, OpUpdate jira_shape, OpHealth False] jira_db) = Some p \<and>
    \<not> pr_enabled p \<and> pr_health_state p = ''unhealthy''"
  using provider_flags_follow_operations [OF jira_there, of "[OpDisable, OpHealth True, OpUpdate jira_shape, OpHealth False]"]
  by (auto simp: health_text_def)

lemma provider_request_audited_once_witness:
  "\<exists>row. sd_audit jira_db = [row] \<and> au_event_type row = ''provider.registered'' \<and> au_resource_name row = Some ''jira''"
proof -
  have "provider_handle demo_svc_env (Register jira) empty_db = (Inr jira_dict, jira_db)"
    using jira_registers by simp
  from provider_request_audited_once [OF _ this] show ?thesis
    by (auto simp: demo_svc_env_def empty_db_def event_args_def jira_dict_def provider_row_to_dict_def new_provider_def jira_def)
qed

lemma provider_list_pages_witness:
  "\<exists>ps. provider_list demo_svc_env (\<lambda>rows. rows) (Some ''default'') None 10 0 jira_db = (Inr (ps, 1), jira_db)"
proof -
  have "length (filter (\<lambda>r. opt_filter (Some ''default'') pr_namespace r \<and> opt_filter None pr_provider_type r) (sd_providers jira_db)) = 1"
    by (simp add: jira_alone opt_filter_def new_provider_def jira_def)
  with provider_list_pages [OF scan_ok_id, where lmt = 10 and n = 1 and ns = "Some ''default''" and ptype = None and s = jira_db and env = demo_svc_env] show ?thesis
    by (auto simp: int64_ok_def)
qed

end
