(* ===== verification/Identity_Service.thy ===== *)
theory Identity_Service
  imports Audit_Service Registry
begin

text \<open>
  The identity-map registry (\<open>app/services/identity_service.py\<close>): registering under a unique
  (name, namespace), reading, listing in pages, and pushing every map to the engine at start-up.
  The engine is a parameter: the operation that registers a map, over the engine's state.
\<close>

section \<open>Operations\<close>

definition identity_key :: "identity_row \<Rightarrow> string \<times> string" where
  "identity_key r = (im_name r, im_namespace r)"

definition identity_audit :: "svc_env \<Rightarrow> string \<Rightarrow> string \<Rightarrow> string \<Rightarrow> json option \<Rightarrow> unit svc" where
  "identity_audit env event name ns detail = audit_event env ''identity_map'' event name ns detail"

definition identity_get :: "string \<Rightarrow> string \<Rightarrow> server_db \<Rightarrow> identity_row option" where
  "identity_get name ns s = select_key identity_key (name, ns) (sd_identity s)"

record identity_create =
  ic_name :: string
  ic_source_system :: string
  ic_source_entity_path :: string
  ic_target_system :: string
  ic_target_entity_path :: string
  ic_namespace :: string
  ic_matching_mode :: string
  ic_confidence :: real_value
  ic_description :: "string option"

definition new_identity :: "identity_create \<Rightarrow> int \<Rightarrow> string \<Rightarrow> identity_row" where
  "new_identity q i db_now =
     \<lparr>im_id = i, im_name = ic_name q, im_namespace = ic_namespace q, im_source_system = ic_source_system q,
      im_source_entity_path = ic_source_entity_path q, im_target_system = ic_target_system q,
      im_target_entity_path = ic_target_entity_path q, im_matching_mode = ic_matching_mode q,
      im_confidence = bind_real (ic_confidence q), im_description = ic_description q, im_version = 1,
      im_created_at = db_now, im_updated_at = db_now\<rparr>"

definition insert_identity :: "identity_create \<Rightarrow> string \<Rightarrow> unit svc" where
  "insert_identity q db_now =
     (\<lambda>s. case insert_unique identity_key ''identity_maps.name, identity_maps.namespace''
              (new_identity q (sd_identity_seq s + 1) db_now) (sd_identity s) of
            Inl e \<Rightarrow> (Inl e, s)
          | Inr rows \<Rightarrow> (Inr (), s\<lparr>sd_identity := rows, sd_identity_seq := sd_identity_seq s + 1\<rparr>))"

definition identity_register :: "svc_env \<Rightarrow> identity_create \<Rightarrow> identity_row svc" where
  "identity_register env q =
     bindP (read_clock env) (\<lambda>db_now.
     bindP (insert_identity q db_now) (\<lambda>_.
     bindP (identity_audit env ''identity_map.registered'' (ic_name q) (ic_namespace q) None) (\<lambda>_.
     bindP (readP (identity_get (ic_name q) (ic_namespace q))) (\<lambda>d.
     case d of Some r \<Rightarrow> ret r | None \<Rightarrow> raise (TypeError ''None'')))))"

definition identity_list ::
  "(identity_row list \<Rightarrow> identity_row list) \<Rightarrow> string option \<Rightarrow> int \<Rightarrow> int \<Rightarrow> (identity_row list \<times> int) svc" where
  "identity_list scan ns lmt off =
     bindP (readP (\<lambda>s. filter (opt_filter ns im_namespace) (sd_identity s))) (\<lambda>rows.
     bindP (bind_int lmt) (\<lambda>_.
     bindP (bind_int off) (\<lambda>_.
     ret (page_by_name scan im_name lmt off rows, int (length rows)))))"

type_synonym 'g register_map = "string \<Rightarrow> (string, string) dict \<Rightarrow> (py_exc, 'g, unit) prog"

fun register_maps :: "'g register_map \<Rightarrow> identity_row list \<Rightarrow> (py_exc, 'g, unit) prog" where
  "register_maps reg [] = ret ()"
| "register_maps reg (r # rows) =
     bindP (reg (im_name r) [(im_source_entity_path r, im_target_entity_path r)]) (\<lambda>_. register_maps reg rows)"

definition sync_to_engine :: "'g register_map option \<Rightarrow> server_db \<Rightarrow> (py_exc, 'g, unit) prog" where
  "sync_to_engine engine s = (case engine of None \<Rightarrow> ret () | Some reg \<Rightarrow> register_maps reg (sd_identity s))"

section \<open>The registry contract\<close>

definition identity_wf :: "server_db \<Rightarrow> bool" where
  "identity_wf s \<longleftrightarrow>
     distinct (map identity_key (sd_identity s)) \<and> sorted_wrt (<) (map im_id (sd_identity s)) \<and>
     (\<forall>r \<in> set (sd_identity s). im_id r \<le> sd_identity_seq s)"

definition identity_map_of :: "server_db \<Rightarrow> string \<times> string \<Rightarrow> identity_row option" where
  "identity_map_of s k = select_key identity_key k (sd_identity s)"

abbreviation identity_create_key :: "identity_create \<Rightarrow> string \<times> string" where
  "identity_create_key q \<equiv> (ic_name q, ic_namespace q)"

definition after_identity :: "svc_env \<Rightarrow> identity_create \<Rightarrow> server_db \<Rightarrow> server_db" where
  "after_identity env q s =
     audited env (event_args ''identity_map'' ''identity_map.registered'' (ic_name q) (ic_namespace q) None)
       (s\<lparr>sd_reads := Suc (sd_reads s),
          sd_identity := sd_identity s @ [new_identity q (sd_identity_seq s + 1) (se_clock env (sd_reads s))],
          sd_identity_seq := sd_identity_seq s + 1\<rparr>)"

lemma identity_key_new [simp]: "identity_key (new_identity q i t) = identity_create_key q"
  by (simp add: identity_key_def new_identity_def)

lemma identity_map_None: "identity_map_of s k = None \<longleftrightarrow> k \<notin> identity_key ` set (sd_identity s)"
  by (simp add: identity_map_of_def select_key_None)

lemma identity_map_after:
  assumes "identity_map_of s (identity_create_key q) = None"
  shows "identity_map_of (after_identity env q s) =
    (identity_map_of s)(identity_create_key q \<mapsto> new_identity q (sd_identity_seq s + 1) (se_clock env (sd_reads s)))"
  using assms
  by (auto simp: fun_eq_iff identity_map_of_def after_identity_def select_key_append split: option.split)

lemma identity_register_fresh:
  assumes "identity_map_of s (identity_create_key q) = None"
  shows "identity_register env q s =
    (Inr (new_identity q (sd_identity_seq s + 1) (se_clock env (sd_reads s))), after_identity env q s)"
proof -
  have "identity_create_key q \<notin> identity_key ` set (sd_identity s)"
    using assms by (simp add: identity_map_None)
  moreover have "identity_get (ic_name q) (ic_namespace q) (after_identity env q s) =
      Some (new_identity q (sd_identity_seq s + 1) (se_clock env (sd_reads s)))"
    using identity_map_after [OF assms, of env] by (simp add: identity_get_def identity_map_of_def fun_eq_iff)
  ultimately show ?thesis
    by (simp add: identity_register_def bindP_run insert_identity_def identity_audit_def flip: after_identity_def)
qed

lemma identity_register_taken:
  assumes "identity_map_of s (identity_create_key q) \<noteq> None"
  shows "identity_register env q s =
    (Inl (IntegrityError ''UNIQUE constraint failed: identity_maps.name, identity_maps.namespace''), s\<lparr>sd_reads := Suc (sd_reads s)\<rparr>)"
proof -
  have "identity_create_key q \<in> identity_key ` set (sd_identity s)"
    using assms by (simp add: identity_map_None)
  then show ?thesis by (simp add: identity_register_def bindP_run insert_identity_def insert_unique_taken)
qed

lemma identity_wf_after:
  assumes "identity_wf s" and "identity_map_of s (identity_create_key q) = None"
  shows "identity_wf (after_identity env q s)"
  using assms
  by (auto simp: identity_wf_def after_identity_def identity_map_None sorted_wrt_append new_identity_def identity_key_def)

interpretation identities: named_registry identity_wf identity_map_of "identity_register env" identity_create_key for env
proof (unfold_locales, goal_cases)
  case (1 s q v s')
  have free: "identity_map_of s (identity_create_key q) = None"
    using 1(2) identity_register_taken [of s q env] by fastforce
  have r: "v = new_identity q (sd_identity_seq s + 1) (se_clock env (sd_reads s))" "s' = after_identity env q s"
    using 1(2) identity_register_fresh [OF free, of env] by auto
  show ?case unfolding r using free identity_map_after [OF free] identity_wf_after [OF 1(1) free] by blast
next
  case (2 s q e s')
  then have "identity_map_of s (identity_create_key q) \<noteq> None"
    using identity_register_fresh [of s q env] by fastforce
  then have "s' = s\<lparr>sd_reads := Suc (sd_reads s)\<rparr>" using 2(2) identity_register_taken [of s q env] by simp
  with 2(1) show ?case by (simp add: identity_wf_def identity_map_of_def fun_eq_iff)
qed

section \<open>Properties\<close>

text \<open>
  An identity map is registered once per name and namespace: what a registration
  returned is what \<open>get\<close> gives for good, with version 1 and the given fields, and every later
  registration of the key raises.
\<close>

theorem identity_registered_once:
  assumes "identity_wf s" and "identity_register env q s = (Inr d, s')" and "identity_create_key q' = identity_create_key q"
  shows "identity_get (ic_name q) (ic_namespace q) (run_all (identity_register env) qs s') = Some d \<and>
    im_version d = 1 \<and> im_source_entity_path d = ic_source_entity_path q \<and> im_target_entity_path d = ic_target_entity_path q \<and>
    (\<exists>e. fst (identity_register env q' (run_all (identity_register env) qs s')) = Inl e)"
proof -
  have "identity_map_of s (identity_create_key q) = None"
    using identities.registered [OF assms(1,2)] by blast
  from identity_register_fresh [OF this, of env] assms(2)
  have "d = new_identity q (sd_identity_seq s + 1) (se_clock env (sd_reads s))" by simp
  then show ?thesis
    using identities.registered_then_kept [OF assms(1,2), of qs] identities.second_registration_refused [OF assms, of qs]
    by (simp add: identity_get_def identity_map_of_def new_identity_def)
qed

text \<open>What the engine is relied on for: registering a map sets the mapping of its name.\<close>

definition map_registrar :: "'g register_map \<Rightarrow> ('g \<Rightarrow> string \<Rightarrow> (string, string) dict option) \<Rightarrow> bool" where
  "map_registrar reg view \<longleftrightarrow>
     (\<forall>name m g. \<exists>g'. reg name m g = (Inr (), g') \<and> view g' = (view g)(name \<mapsto> m))"

text \<open>
  After start-up, the engine maps the name of every stored identity map as the
  youngest row of that name says: rows of other namespaces that share the name are overwritten;
  names that are not stored keep what the engine had.
\<close>

theorem sync_to_engine_youngest_wins:
  assumes "map_registrar reg view"
  shows "\<exists>g'. sync_to_engine (Some reg) s g = (Inr (), g') \<and>
    (\<forall>name. view g' name =
       (case filter (\<lambda>r. im_name r = name) (sd_identity s) of
          [] \<Rightarrow> view g name
        | rs \<Rightarrow> Some [(im_source_entity_path (last rs), im_target_entity_path (last rs))]))"
proof -
  have "\<exists>g'. register_maps reg rows g = (Inr (), g') \<and>
      (\<forall>name. view g' name =
         (case filter (\<lambda>r. im_name r = name) rows of
            [] \<Rightarrow> view g name
          | rs \<Rightarrow> Some [(im_source_entity_path (last rs), im_target_entity_path (last rs))]))" for rows
  proof (induction rows arbitrary: g)
    case (Cons r rows)
    obtain g1 where g1: "reg (im_name r) [(im_source_entity_path r, im_target_entity_path r)] g = (Inr (), g1)"
      "view g1 = (view g)(im_name r \<mapsto> [(im_source_entity_path r, im_target_entity_path r)])"
      using assms unfolding map_registrar_def by blast
    from Cons.IH [of g1] obtain g' where g': "register_maps reg rows g1 = (Inr (), g')"
      "\<And>name. view g' name = (case filter (\<lambda>r. im_name r = name) rows of [] \<Rightarrow> view g1 name
          | rs \<Rightarrow> Some [(im_source_entity_path (last rs), im_target_entity_path (last rs))])" by blast
    then show ?case by (simp add: bindP_run g1 split: list.split)
  qed simp
  then show ?thesis by (simp add: sync_to_engine_def)
qed

section \<open>Examples\<close>

definition account_map :: identity_create where
  "account_map = \<lparr>ic_name = ''accounts'', ic_source_system = ''crm'', ic_source_entity_path = ''crm.id'',
     ic_target_system = ''erp'', ic_target_entity_path = ''erp.id'', ic_namespace = ''default'',
     ic_matching_mode = ''exact'', ic_confidence = Finite 1, ic_description = None\<rparr>"

lemma empty_identity_wf: "identity_wf empty_db"
  by (simp add: identity_wf_def empty_db_def)

lemma account_registers:
  "identity_register demo_svc_env account_map empty_db =
     (Inr (new_identity account_map 1 ''2026-01-01 00:00:00''), after_identity demo_svc_env account_map empty_db)"
proof -
  have "identity_map_of empty_db (identity_create_key account_map) = None"
    by (simp add: identity_map_of_def empty_db_def select_key_def)
  from identity_register_fresh [OF this] show ?thesis by (simp add: empty_db_def demo_svc_env_def)
qed

lemma identity_registered_once_witness:
  "identity_get ''accounts'' ''default''
     (run_all (identity_register demo_svc_env) [account_map, account_map\<lparr>ic_namespace := ''b''\<rparr>] (after_identity demo_svc_env account_map empty_db))
   = Some (new_identity account_map 1 ''2026-01-01 00:00:00'')"
  using identity_registered_once [OF empty_identity_wf account_registers refl, of "[account_map, account_map\<lparr>ic_namespace := ''b''\<rparr>]"]
  by (simp add: account_map_def)

lemma sync_to_engine_youngest_wins_witness:
  "\<exists>g'. sync_to_engine (Some (\<lambda>name m. modP (\<lambda>g. g(name \<mapsto> m)))) (after_identity demo_svc_env account_map empty_db) Map.empty = (Inr (), g') \<and>
     g' ''accounts'' = Some [(''crm.id'', ''erp.id'')]"
proof -
  have "map_registrar (\<lambda>name m. modP (\<lambda>g. g(name \<mapsto> m))) (\<lambda>g. g)" by (simp add: map_registrar_def)
  from sync_to_engine_youngest_wins [OF this, of "after_identity demo_svc_env account_map empty_db" Map.empty]
  show ?thesis by (auto simp: after_identity_def empty_db_def new_identity_def account_map_def demo_svc_env_def)
qed

end
