(* ===== verification/Registry_Api.thy ===== *)
theory Registry_Api
  imports Http_Base Provider_Examples Identity_Service
begin

text \<open>
  The HTTP handlers over the registries and the audit log: \<open>app/api/providers.py\<close>,
  \<open>app/api/identity.py\<close> and \<open>app/api/audit.py\<close>, with the response models of \<open>app/models\<close>.
\<close>

section \<open>Providers\<close>

type_synonym provider_response = "(bool, string option) provider_rec"

definition text_or_none :: "json \<Rightarrow> string option option" where
  \<comment> \<open>a value for a field \<open>str | None\<close>\<close>
  "text_or_none j = (case j of JNull \<Rightarrow> Some None | JStr t \<Rightarrow> Some (Some t) | _ \<Rightarrow> None)"

definition fit_provider :: "provider_dict \<Rightarrow> provider_response option" where
  \<comment> \<open>\<open>ProviderResponse\<close>: \<open>timeout_ms: int\<close>, \<open>trust_tier: str\<close>, \<open>resource_shape: str | None\<close>\<close>
  "fit_provider p =
     (if pr_timeout_ms p = None \<or> pr_trust_tier p = None then None
      else map_option (\<lambda>shape.
        \<lparr>pr_id = pr_id p, pr_name = pr_name p, pr_namespace = pr_namespace p, pr_provider_type = pr_provider_type p,
         pr_endpoint = pr_endpoint p, pr_credentials_ref = pr_credentials_ref p, pr_timeout_ms = pr_timeout_ms p,
         pr_health_state = pr_health_state p, pr_entity_key_type = pr_entity_key_type p, pr_resource_shape = shape,
         pr_trust_tier = pr_trust_tier p, pr_enabled = pr_enabled p, pr_registered_at = pr_registered_at p,
         pr_updated_at = pr_updated_at p, pr_last_success_at = pr_last_success_at p,
         pr_last_failure_at = pr_last_failure_at p\<rparr>) (text_or_none (pr_resource_shape p)))"

definition register_provider :: "svc_env \<Rightarrow> provider_create \<Rightarrow> (server_db, provider_response) handler" where
  "register_provider env body =
     bindP (guardP (pc_provider_type body \<in> {''MCP'', ''REMOTE''}) Unprocessable) (\<lambda>_.
     bindP (catching (any_error 400) (provider_register env body)) (response_model fit_provider))"

definition list_providers ::
  "svc_env \<Rightarrow> (provider_row list \<Rightarrow> provider_row list) \<Rightarrow> string option \<Rightarrow> string option \<Rightarrow> int \<Rightarrow> int \<Rightarrow>
   (server_db, provider_response list \<times> int) handler" where
  "list_providers env scan ns ptype lmt off =
     bindP (page_params None lmt off) (\<lambda>_.
     bindP (catching Uncaught (provider_list env scan ns ptype lmt off)) (\<lambda>(ps, total).
     bindP (response_model (fit_all fit_provider) ps) (\<lambda>rs. ret (rs, total))))"

definition existing_provider :: "svc_env \<Rightarrow> string \<Rightarrow> string \<Rightarrow> (server_db, provider_dict) handler" where
  "existing_provider env name ns = existing (not_found ''Provider'' name) (provider_get env name ns)"

definition describe_provider :: "svc_env \<Rightarrow> string \<Rightarrow> string \<Rightarrow> (server_db, provider_response) handler" where
  "describe_provider env name ns = bindP (existing_provider env name ns) (response_model fit_provider)"

record provider_update_body =
  pb_endpoint :: "string option option"
  pb_timeout_ms :: "int option option"
  pb_entity_key_type :: "string option option"
  pb_trust_tier :: "string option option"

definition update_of_body :: "provider_update_body \<Rightarrow> provider_update" where
  \<comment> \<open>\<open>body.model_dump(exclude_unset=True)\<close> as keyword arguments\<close>
  "update_of_body b =
     \<lparr>pu_endpoint = pb_endpoint b, pu_timeout_ms = pb_timeout_ms b, pu_entity_key_type = pb_entity_key_type b,
      pu_trust_tier = pb_trust_tier b, pu_credentials_ref = None, pu_resource_shape = None\<rparr>"

definition update_provider :: "svc_env \<Rightarrow> string \<Rightarrow> string \<Rightarrow> provider_update_body \<Rightarrow> (server_db, provider_response) handler" where
  "update_provider env name ns body =
     bindP (existing_provider env name ns) (\<lambda>_.
     bindP (catching (value_error 400) (provider_update_fields env name ns (update_of_body body))) (response_model fit_provider))"

definition enable_provider :: "svc_env \<Rightarrow> string \<Rightarrow> string \<Rightarrow> (server_db, provider_response) handler" where
  "enable_provider env name ns =
     bindP (existing_provider env name ns) (\<lambda>_.
     bindP (catching Uncaught (provider_enable env name ns)) (response_model fit_provider))"

definition disable_provider :: "svc_env \<Rightarrow> string \<Rightarrow> string \<Rightarrow> (server_db, provider_response) handler" where
  "disable_provider env name ns =
     bindP (existing_provider env name ns) (\<lambda>_.
     bindP (catching Uncaught (provider_disable env name ns)) (response_model fit_provider))"

definition provider_health :: "svc_env \<Rightarrow> string \<Rightarrow> string \<Rightarrow> (server_db, provider_response) handler" where
  "provider_health env name ns = bindP (existing_provider env name ns) (response_model fit_provider)"

section \<open>Identity maps\<close>

record identity_response =
  ir_id :: int
  ir_name :: string
  ir_namespace :: string
  ir_source_system :: string
  ir_source_entity_path :: string
  ir_target_system :: string
  ir_target_entity_path :: string
  ir_matching_mode :: string
  ir_confidence :: real_value     \<comment> \<open>required; an infinite one passes the model\<close>
  ir_description :: "string option"
  ir_version :: int
  ir_created_at :: string
  ir_updated_at :: string

definition fit_identity :: "identity_row \<Rightarrow> identity_response option" where
  "fit_identity r =
     map_option (\<lambda>c.
       \<lparr>ir_id = im_id r, ir_name = im_name r, ir_namespace = im_namespace r, ir_source_system = im_source_system r,
        ir_source_entity_path = im_source_entity_path r, ir_target_system = im_target_system r,
        ir_target_entity_path = im_target_entity_path r, ir_matching_mode = im_matching_mode r, ir_confidence = c,
        ir_description = im_description r, ir_version = im_version r, ir_created_at = im_created_at r,
        ir_updated_at = im_updated_at r\<rparr>) (im_confidence r)"

definition register_identity_map :: "svc_env \<Rightarrow> identity_create \<Rightarrow> (server_db, identity_response) handler" where
  "register_identity_map env body =
     bindP (catching (value_error 400) (identity_register env body)) (response_model fit_identity)"

definition list_identity_maps ::
  "(identity_row list \<Rightarrow> identity_row list) \<Rightarrow> string option \<Rightarrow> int \<Rightarrow> int \<Rightarrow> (server_db, identity_response list \<times> int) handler" where
  "list_identity_maps scan ns lmt off =
     bindP (page_params None lmt off) (\<lambda>_.
     bindP (catching Uncaught (identity_list scan ns lmt off)) (\<lambda>(ms, total).
     bindP (response_model (fit_all fit_identity) ms) (\<lambda>rs. ret (rs, total))))"

definition describe_identity_map :: "string \<Rightarrow> string \<Rightarrow> (server_db, identity_response) handler" where
  "describe_identity_map name ns =
     bindP (existing (not_found ''Identity map'' name) (identity_get name ns)) (response_model fit_identity)"

section \<open>The audit log\<close>

definition fit_audit_entry :: "audit_entry \<Rightarrow> audit_entry option" where
  \<comment> \<open>\<open>AuditEntry\<close>: \<open>detail: dict | None\<close>\<close>
  "fit_audit_entry e = (case au_detail e of JNull \<Rightarrow> Some e | JObj kvs \<Rightarrow> Some e | _ \<Rightarrow> None)"

definition query_audit_log :: "svc_env \<Rightarrow> audit_filter \<Rightarrow> int \<Rightarrow> int \<Rightarrow> (server_db, audit_entry list \<times> int) handler" where
  \<comment> \<open>the model \<open>AuditLogResponse\<close> is built by the handler: an entry that does not fit raises there\<close>
  "query_audit_log env q lmt off =
     bindP (page_params None lmt off) (\<lambda>_.
     bindP (catching Uncaught (audit_query env q lmt off)) (\<lambda>entries.
     bindP (response_model (fit_all fit_audit_entry) entries) (\<lambda>es. ret (es, int (length entries)))))"

section \<open>Rows that can be served\<close>

text \<open>
  Every response is checked against \<open>ProviderResponse\<close>, and the columns \<open>timeout_ms\<close> and
  \<open>trust_tier\<close> may be NULL while the model requires a value. A row is servable when it fits.
\<close>

definition servable :: "provider_row \<Rightarrow> bool" where
  "servable r \<longleftrightarrow> pr_timeout_ms r \<noteq> None \<and> pr_trust_tier r \<noteq> None \<and> pr_resource_shape r = None"

definition all_servable :: "server_db \<Rightarrow> bool" where
  "all_servable s \<longleftrightarrow> (\<forall>r \<in> set (sd_providers s). servable r)"

lemma servable_fits: "servable r \<Longrightarrow> fit_provider (provider_row_to_dict env r) \<noteq> None"
  by (simp add: servable_def fit_provider_def provider_row_to_dict_def parsed_text_def text_or_none_def)

lemma all_servable_get:
  assumes "all_servable s" and "provider_get env name ns s = Some p"
  shows "fit_provider p \<noteq> None"
proof -
  from assms(2) obtain r where "select_key provider_key (name, ns) (sd_providers s) = Some r" "p = provider_row_to_dict env r"
    by (rule provider_get_row)
  moreover from this(1) have "r \<in> set (sd_providers s)"
    by (auto simp: select_key_def find_Some_iff)
  ultimately show ?thesis using assms(1) servable_fits by (auto simp: all_servable_def)
qed

lemma servable_new [simp]: "servable (new_provider q i t)"
  by (simp add: servable_def new_provider_def)

lemma all_servable_simps [simp]:
  "all_servable (s\<lparr>sd_reads := k\<rparr>) = all_servable s" "all_servable (audited env a s) = all_servable s"
  by (simp_all add: all_servable_def)

text \<open>The body of an update that sets a required field to null.\<close>

definition nulls_required :: "provider_update_body \<Rightarrow> bool" where
  "nulls_required b \<longleftrightarrow> pb_timeout_ms b = Some None \<or> pb_trust_tier b = Some None"

lemma servable_update:
  "servable r \<Longrightarrow> \<not> nulls_required b \<Longrightarrow> servable (apply_update (update_of_body b) now r)"
  by (auto simp: servable_def nulls_required_def apply_update_def update_of_body_def given_def split: option.splits)

lemma servable_op:
  "servable r \<Longrightarrow> (\<And>u. op = OpUpdate u \<Longrightarrow> \<exists>b. u = update_of_body b \<and> \<not> nulls_required b) \<Longrightarrow> servable (op_row op now r)"
  by (cases op) (auto simp: servable_update, simp_all add: servable_def health_row_def)

lemma all_servable_op:
  assumes "all_servable s" and "\<And>r now. servable r \<Longrightarrow> servable (op_row op now r)"
  shows "all_servable (after_op env name ns op s)"
  using assms by (auto simp: after_op_def after_change_def all_servable_def update_key_def)

section \<open>What a client sees\<close>

text \<open>The requests of the provider API, each with the providers of its answer.\<close>

datatype provider_http =
    PostProvider provider_create
  | GetProviders "string option" "string option" int int
  | GetProvider string string
  | PutProvider string string provider_update_body
  | EnableProvider string string
  | DisableProvider string string
  | GetProviderHealth string string

fun provider_answer ::
  "svc_env \<Rightarrow> (provider_row list \<Rightarrow> provider_row list) \<Rightarrow> provider_http \<Rightarrow> (server_db, provider_response list) handler" where
  "provider_answer env scan (PostProvider q) = bindP (register_provider env q) (\<lambda>p. ret [p])"
| "provider_answer env scan (GetProviders ns t l k) = bindP (list_providers env scan ns t l k) (\<lambda>(ps, n). ret ps)"
| "provider_answer env scan (GetProvider name ns) = bindP (describe_provider env name ns) (\<lambda>p. ret [p])"
| "provider_answer env scan (PutProvider name ns b) = bindP (update_provider env name ns b) (\<lambda>p. ret [p])"
| "provider_answer env scan (EnableProvider name ns) = bindP (enable_provider env name ns) (\<lambda>p. ret [p])"
| "provider_answer env scan (DisableProvider name ns) = bindP (disable_provider env name ns) (\<lambda>p. ret [p])"
| "provider_answer env scan (GetProviderHealth name ns) = bindP (provider_health env name ns) (\<lambda>p. ret [p])"

fun sets_null :: "provider_http \<Rightarrow> bool" where
  "sets_null (PutProvider name ns b) = nulls_required b"
| "sets_null _ = False"

text \<open>An answer without a server error, or one because an integer does not fit 64 bits.\<close>

definition proper :: "http_exc + 'a \<Rightarrow> bool" where
  "proper r \<longleftrightarrow> (case r of Inl ResponseInvalid \<Rightarrow> False | Inl (Uncaught e) \<Rightarrow> e = overflow_error | _ \<Rightarrow> True)"

lemma proper_simps [simp]:
  "proper (Inr x)" "proper (Inl (HttpError n d))" "proper (Inl Unprocessable)" "proper (Inl (Uncaught overflow_error))"
  "\<not> proper (Inl ResponseInvalid)" "proper (Inl (not_found what name))" "proper (Inl (any_error n e))"
  by (simp_all add: proper_def not_found_def any_error_def)

lemma existing_provider_run:
  "existing_provider env name ns s =
     (case provider_get env name ns s of None \<Rightarrow> Inl (not_found ''Provider'' name) | Some p \<Rightarrow> Inr p, s)"
  by (simp add: existing_provider_def existing_run)

text \<open>The three handlers that change an existing provider have one shape.\<close>

definition change_provider ::
  "svc_env \<Rightarrow> (py_exc \<Rightarrow> http_exc) \<Rightarrow> string \<Rightarrow> string \<Rightarrow> provider_op \<Rightarrow> (server_db, provider_response) handler" where
  "change_provider env f name ns op =
     bindP (existing_provider env name ns) (\<lambda>_.
     bindP (catching f (provider_do env name ns op)) (response_model fit_provider))"

lemma change_provider_eqs:
  "update_provider env name ns b = change_provider env (value_error 400) name ns (OpUpdate (update_of_body b))"
  "enable_provider env name ns = change_provider env Uncaught name ns OpEnable"
  "disable_provider env name ns = change_provider env Uncaught name ns OpDisable"
  by (simp_all add: update_provider_def enable_provider_def disable_provider_def change_provider_def)

lemma change_provider_proper:
  assumes s: "all_servable s" and f: "f overflow_error = Uncaught overflow_error"
    and op: "\<And>r now. servable r \<Longrightarrow> servable (op_row op now r)"
    and run: "change_provider env f name ns op s = (r, s')"
  shows "all_servable s' \<and> proper r"
proof (rule provider_do_cases [of env s name ns op])
  assume "provider_map env s (name, ns) = None"
  with run s show ?thesis by (auto simp: change_provider_def bindP_run existing_provider_run provider_map_get)
next
  fix p assume p: "provider_map env s (name, ns) = Some p" "provider_do env name ns op s = (Inr p, s)"
  with run s show ?thesis
    using all_servable_get [OF s, of env name ns p]
    by (auto simp: change_provider_def bindP_run existing_provider_run provider_map_get catching_Inr response_model_run)
next
  fix p assume "provider_map env s (name, ns) = Some p"
    "provider_do env name ns op s = (Inl overflow_error, s\<lparr>sd_reads := Suc (sd_reads s)\<rparr>)"
  with run s f show ?thesis
    by (auto simp: change_provider_def bindP_run existing_provider_run provider_map_get catching_Inl)
next
  fix r0 assume sel: "select_key provider_key (name, ns) (sd_providers s) = Some r0"
    and p: "provider_map env s (name, ns) = Some (provider_row_to_dict env r0)"
    and ran: "provider_do env name ns op s =
      (Inr (provider_row_to_dict env (op_row op (se_clock env (sd_reads s)) r0)), after_op env name ns op s)"
  have "r0 \<in> set (sd_providers s)" using sel by (auto simp: select_key_def find_Some_iff)
  with s op have "servable (op_row op (se_clock env (sd_reads s)) r0)" by (simp add: all_servable_def)
  from servable_fits [OF this, of env] run p ran all_servable_op [OF s op, of env name ns] show ?thesis
    by (auto simp: change_provider_def bindP_run existing_provider_run provider_map_get catching_Inr response_model_run)
qed

lemma read_provider_proper:
  assumes "all_servable s"
  shows "snd (describe_provider env name ns s) = s \<and> proper (fst (describe_provider env name ns s))"
  using all_servable_get [OF assms, of env name ns]
  by (auto simp: describe_provider_def bindP_run existing_provider_run response_model_run split: option.splits)

lemma register_provider_proper:
  assumes "all_servable s" and "register_provider env q s = (r, s')"
  shows "all_servable s' \<and> proper r"
proof (cases "pc_provider_type q \<in> {''MCP'', ''REMOTE''}")
  case True
  note run = assms(2) [unfolded register_provider_def guardP_def if_P [OF True] bindP_ret]
  show ?thesis
  proof (rule provider_register_cases [of q env s])
    assume ok: "provider_register env q s =
      (Inr (provider_row_to_dict env (new_provider q (sd_providers_seq s + 1) (se_clock env (sd_reads s)))), after_register env q s)"
    have "all_servable (after_register env q s)"
      using assms(1) by (simp add: after_register_def all_servable_def)
    with run ok servable_fits [OF servable_new, of env q "sd_providers_seq s + 1" "se_clock env (sd_reads s)"] show ?thesis
      by (auto simp: bindP_run catching_Inr response_model_run)
  qed (use run assms(1) in \<open>auto simp: bindP_run catching_Inl\<close>)
qed (use assms in \<open>auto simp: register_provider_def\<close>)

lemma list_providers_proper:
  assumes "all_servable s" and "scan_ok scan" and "list_providers env scan ns t l k s = (r, s')"
  shows "s' = s \<and> proper r"
proof (cases "1 \<le> l \<and> 0 \<le> k \<and> int64_ok l \<and> int64_ok k")
  case True
  let ?rows = "filter (\<lambda>r. opt_filter ns pr_namespace r \<and> opt_filter t pr_provider_type r) (sd_providers s)"
  let ?page = "page_by_name scan pr_name l k ?rows"
  have "set ?page \<subseteq> set (sd_providers s)"
    using page_by_name_set [OF assms(2), of pr_name l k ?rows] by (rule subset_trans) auto
  then have "fit_provider d \<noteq> None" if "d \<in> set (map (provider_row_to_dict env) ?page)" for d
  proof -
    from that obtain r where "r \<in> set ?page" "d = provider_row_to_dict env r" by auto
    with \<open>set ?page \<subseteq> set (sd_providers s)\<close> assms(1) servable_fits show ?thesis
      unfolding all_servable_def by blast
  qed
  then have "\<not> (\<exists>d \<in> set (map (provider_row_to_dict env) ?page). fit_provider d = None)" by blast
  then have "fit_all fit_provider (map (provider_row_to_dict env) ?page) \<noteq> None" by (simp only: fit_all_None not_False_eq_True)
  then obtain rs where fit: "fit_all fit_provider (map (provider_row_to_dict env) ?page) = Some rs" by (rule not_None_eq [THEN iffD1, THEN exE])
  have "provider_list env scan ns t l k s = (Inr (map (provider_row_to_dict env) ?page, int (length ?rows)), s)"
    using True by (simp add: provider_list_def bindP_run bind_int_def)
  then have "list_providers env scan ns t l k s = (Inr (rs, int (length ?rows)), s)"
    using True fit by (simp add: list_providers_def bindP_run catching_Inr response_model_run)
  with assms(3) show ?thesis by auto
next
  case False
  have "list_providers env scan ns t l k s = (Inl Unprocessable, s) \<or> list_providers env scan ns t l k s = (Inl (Uncaught overflow_error), s)"
  proof (cases "1 \<le> l \<and> 0 \<le> k")
    case True
    with False have "provider_list env scan ns t l k s = (Inl overflow_error, s)"
      by (auto simp: provider_list_def bindP_run bind_int_def guardP_run)
    with True show ?thesis by (simp add: list_providers_def bindP_run catching_Inl)
  qed (auto simp: list_providers_def bindP_run)
  with assms(3) show ?thesis by auto
qed

lemma servable_simple_ops:
  "servable r \<Longrightarrow> servable (op_row OpEnable now r)" "servable r \<Longrightarrow> servable (op_row OpDisable now r)"
  by (simp_all add: servable_def)

lemma proper_bind_ret:
  assumes "all_servable (snd (m s)) \<and> proper (fst (m s))"
  shows "all_servable (snd (bindP m (\<lambda>p. ret (f p)) s)) \<and> proper (fst (bindP m (\<lambda>p. ret (f p)) s))"
  using assms by (cases "m s"; cases "fst (m s)") (auto simp: bindP_run proper_def)

lemma change_provider_answer:
  assumes "all_servable s" and "f overflow_error = Uncaught overflow_error"
    and "\<And>r now. servable r \<Longrightarrow> servable (op_row op now r)"
  shows "all_servable (snd (change_provider env f name ns op s)) \<and> proper (fst (change_provider env f name ns op s))"
  by (rule change_provider_proper [where f = f and op = op and s = s and env = env and name = name and ns = ns, OF assms]) simp_all

lemma overflow_uncaught: "value_error n overflow_error = Uncaught overflow_error"
  by (simp add: overflow_error_def)

lemma provider_answer_proper:
  assumes "all_servable s" and "scan_ok scan" and "\<not> sets_null q"
  shows "all_servable (snd (provider_answer env scan q s)) \<and> proper (fst (provider_answer env scan q s))"
proof (cases q)
  case (PostProvider x)
  have "all_servable (snd (register_provider env x s)) \<and> proper (fst (register_provider env x s))"
    using register_provider_proper [OF assms(1), of env x] by (metis prod.collapse)
  then show ?thesis unfolding PostProvider provider_answer.simps by (rule proper_bind_ret)
next
  case (GetProviders ns t l k)
  have "all_servable (snd (list_providers env scan ns t l k s)) \<and> proper (fst (list_providers env scan ns t l k s))"
    using list_providers_proper [OF assms(1,2), of env ns t l k] assms(1) by (metis prod.collapse)
  then show ?thesis unfolding GetProviders provider_answer.simps case_prod_beta by (rule proper_bind_ret)
next
  case (GetProvider name ns)
  then show ?thesis
    using read_provider_proper [OF assms(1), of env name ns] assms(1) by (simp add: proper_bind_ret)
next
  case (PutProvider name ns b)
  have "servable (op_row (OpUpdate (update_of_body b)) now r)" if "servable r" for now r
    using that assms(3) PutProvider by (simp add: servable_update)
  then show ?thesis unfolding PutProvider provider_answer.simps change_provider_eqs
    by (intro proper_bind_ret change_provider_answer assms(1) overflow_uncaught)
next
  case (EnableProvider name ns)
  show ?thesis unfolding EnableProvider provider_answer.simps change_provider_eqs
    by (intro proper_bind_ret change_provider_answer assms(1) servable_simple_ops refl)
next
  case (DisableProvider name ns)
  show ?thesis unfolding DisableProvider provider_answer.simps change_provider_eqs
    by (intro proper_bind_ret change_provider_answer assms(1) servable_simple_ops refl)
next
  case (GetProviderHealth name ns)
  then show ?thesis
    using read_provider_proper [OF assms(1), of env name ns] assms(1)
    by (simp add: proper_bind_ret provider_health_def flip: describe_provider_def)
qed

text \<open>
  C30: the provider API never answers a server error of its own making: while every stored
  provider is servable, no request ends in a response that does not fit its model or in an
  exception other than an integer beyond 64 bits, and every request leaves the providers servable,
  unless it is an update that sets \<open>timeout_ms\<close> or \<open>trust_tier\<close> to null.
\<close>

theorem provider_api_stays_typed:
  assumes "all_servable s" and "scan_ok scan" and "\<forall>q \<in> set qs. \<not> sets_null q"
  shows "all_servable (run_all (provider_answer env scan) qs s) \<and>
    (\<not> sets_null q \<longrightarrow> proper (fst (provider_answer env scan q (run_all (provider_answer env scan) qs s))))"
proof -
  have "all_servable (run_all (provider_answer env scan) qs s)" using assms(1,3)
    by (induction qs arbitrary: s) (simp_all add: provider_answer_proper [OF _ assms(2)])
  then show ?thesis using provider_answer_proper [OF _ assms(2)] by blast
qed

lemma register_provider_status:
  "status 201 (fst (register_provider env q s)) =
     (if pc_provider_type q \<notin> {''MCP'', ''REMOTE''} then 422
      else if int64_ok (pc_timeout_ms q) \<and> provider_get env (pc_name q) (pc_namespace q) s = None then 201 else 400) \<and>
   map provider_key (sd_providers (snd (register_provider env q s))) =
     map provider_key (sd_providers s) @ (if status 201 (fst (register_provider env q s)) = 201 then [create_key q] else [])"
proof (cases "pc_provider_type q \<in> {''MCP'', ''REMOTE''}")
  case True
  then have run: "register_provider env q = bindP (catching (any_error 400) (provider_register env q)) (response_model fit_provider)"
    by (simp add: register_provider_def)
  show ?thesis
  proof (cases "int64_ok (pc_timeout_ms q)")
    case fits: True
    show ?thesis
    proof (cases "provider_map env s (create_key q)")
      case None
      from servable_fits [OF servable_new, of env q "sd_providers_seq s + 1" "se_clock env (sd_reads s)"]
      show ?thesis unfolding run using True fits None
        by (auto simp: bindP_run provider_register_fresh [OF fits None] catching_Inr response_model_run provider_map_get
            after_register_def)
    next
      case (Some p)
      then have "provider_map env s (create_key q) \<noteq> None" by simp
      from provider_register_taken [OF fits this] show ?thesis unfolding run using True fits Some
        by (auto simp: bindP_run catching_Inl provider_map_get)
    qed
  next
    case False
    with True show ?thesis unfolding run by (auto simp: bindP_run provider_register_overflow catching_Inl)
  qed
qed (simp add: register_provider_def)

lemma provider_do_no_value_error:
  "provider_map env s (name, ns) = Some p \<Longrightarrow> fst (provider_do env name ns op s) \<noteq> Inl (ValueError m)"
  by (rule provider_do_cases [of env s name ns op]) (simp_all add: overflow_error_def)

lemma change_provider_status:
  assumes "\<And>e. (\<forall>m. e \<noteq> ValueError m) \<Longrightarrow> f e = Uncaught e"
  shows "(status 200 (fst (change_provider env f name ns op s)) = 404) = (provider_get env name ns s = None)"
    and "provider_get env name ns s = None \<Longrightarrow> change_provider env f name ns op s = (Inl (not_found ''Provider'' name), s)"
proof -
  show missing: "change_provider env f name ns op s = (Inl (not_found ''Provider'' name), s)" if "provider_get env name ns s = None"
    using that by (simp add: change_provider_def bindP_run existing_provider_run)
  have "status 200 (fst (change_provider env f name ns op s)) \<noteq> 404" if p: "provider_get env name ns s = Some p" for p
  proof (cases "provider_do env name ns op s")
    case (Pair r s')
    with p assms provider_do_no_value_error [of env s name ns p op] show ?thesis
      by (cases r) (auto simp: change_provider_def bindP_run existing_provider_run catching_Inl catching_Inr
          response_model_run provider_map_get split: option.splits)
  qed
  with missing show "(status 200 (fst (change_provider env f name ns op s)) = 404) = (provider_get env name ns s = None)"
    by (cases "provider_get env name ns s") simp_all
qed

lemma describe_provider_status:
  "(status 200 (fst (describe_provider env name ns s)) = 404) = (provider_get env name ns s = None)"
  "provider_get env name ns s = None \<Longrightarrow> describe_provider env name ns s = (Inl (not_found ''Provider'' name), s)"
  by (auto simp: describe_provider_def bindP_run existing_provider_run response_model_run split: option.splits)

lemma value_error_uncaught: "(\<forall>m. e \<noteq> ValueError m) \<Longrightarrow> value_error n e = Uncaught e"
  by (cases e) simp_all

text \<open>
  C31: the status codes of the provider API. A registration answers 422 for an unknown provider
  type, 201 when name and namespace are free and the timeout fits, and 400 otherwise, without
  a new row; a request about one provider answers 404 if and only if it is not registered, and then
  nothing changes.
\<close>

theorem provider_api_status:
  "status 201 (fst (register_provider env q s)) =
     (if pc_provider_type q \<notin> {''MCP'', ''REMOTE''} then 422
      else if int64_ok (pc_timeout_ms q) \<and> provider_get env (pc_name q) (pc_namespace q) s = None then 201 else 400) \<and>
   map provider_key (sd_providers (snd (register_provider env q s))) =
     map provider_key (sd_providers s) @ (if status 201 (fst (register_provider env q s)) = 201 then [create_key q] else []) \<and>
   (\<forall>op \<in> {describe_provider env name ns, provider_health env name ns, update_provider env name ns b,
            enable_provider env name ns, disable_provider env name ns}.
      (status 200 (fst (op s)) = 404) = (provider_get env name ns s = None) \<and>
      (provider_get env name ns s = None \<longrightarrow> op s = (Inl (not_found ''Provider'' name), s)))"
proof -
  have "provider_health env name ns = describe_provider env name ns"
    by (simp add: provider_health_def describe_provider_def)
  then show ?thesis
    using register_provider_status [of env q s] describe_provider_status [of env name ns s]
      change_provider_status [where f = "value_error 400" and env = env and name = name and ns = ns and s = s, OF value_error_uncaught]
      change_provider_status [where f = Uncaught and env = env and name = name and ns = ns and s = s]
    by (simp add: change_provider_eqs)
qed

text \<open>An update that sets a required field to null is stored, and the provider cannot be read any more.\<close>

lemma null_timeout_breaks_reads:
  assumes "provider_get env name ns s = Some p" and "pb_timeout_ms b = Some None"
  shows "\<exists>s'. update_provider env name ns b s = (Inl ResponseInvalid, s') \<and>
    describe_provider env name ns s' = (Inl ResponseInvalid, s')"
proof -
  obtain r where sel: "select_key provider_key (name, ns) (sd_providers s) = Some r" and p: "p = provider_row_to_dict env r"
    using assms(1) by (rule provider_get_row)
  let ?op = "OpUpdate (update_of_body b)"
  let ?s' = "after_op env name ns ?op s"
  have op: "op_changes ?op" "op_fits ?op" using assms(2) by (simp_all add: update_of_body_def update_empty_def)
  have bad: "fit_provider (provider_row_to_dict env (op_row ?op now r)) = None" for now
    using assms(2) by (simp add: fit_provider_def provider_row_to_dict_def apply_update_def update_of_body_def given_def)
  have "update_provider env name ns b s = (Inl ResponseInvalid, ?s')"
    using provider_do_run [OF sel op, of env] bad assms(1)
    by (simp add: change_provider_eqs change_provider_def bindP_run existing_provider_run catching_Inr response_model_run del: op_row.simps)
  moreover have "describe_provider env name ns ?s' = (Inl ResponseInvalid, ?s')"
    using provider_map_op [OF sel, of env ?op] bad
    by (simp add: describe_provider_def bindP_run existing_provider_run provider_map_get response_model_run del: op_row.simps)
  ultimately show ?thesis by blast
qed

text \<open>A name that is taken is the caller's error for a provider, and a server error for an identity map.\<close>

lemma duplicate_identity_map_crashes:
  assumes "identity_get (ic_name q) (ic_namespace q) s \<noteq> None"
  shows "status 201 (fst (register_identity_map env q s)) = 500"
  using identity_register_taken [of s q env] assms
  by (simp add: register_identity_map_def bindP_run catching_Inl identity_get_def identity_map_of_def)

lemma identity_get_map: "identity_get n ns s = identity_map_of s (n, ns)"
  by (simp add: identity_get_def identity_map_of_def)

lemma fit_identity_new: "fit_identity (new_identity q i t) = None \<longleftrightarrow> ic_confidence q = NotANumber"
  by (cases "ic_confidence q") (simp_all add: fit_identity_def new_identity_def)

text \<open>
  The status of a registration: 201 for a free name with a confidence that is a number. A confidence of NaN is
  stored as \<open>NULL\<close> and answered with a server error, and the map cannot be read afterwards.
\<close>

lemma identity_api_status:
  "status 201 (fst (register_identity_map env q s)) =
     (if identity_get (ic_name q) (ic_namespace q) s = None \<and> ic_confidence q \<noteq> NotANumber then 201 else 500) \<and>
   (identity_get (ic_name q) (ic_namespace q) (snd (register_identity_map env q s)) \<noteq> None)"
proof (cases "identity_map_of s (identity_create_key q)")
  case None
  then show ?thesis
    using fit_identity_new [of q] identity_register_fresh [OF None, of env]
    by (cases "fit_identity (new_identity q (sd_identity_seq s + 1) (se_clock env (sd_reads s)))")
       (auto simp: register_identity_map_def bindP_run catching_Inr response_model_run identity_get_map identity_map_after [OF None])
next
  case (Some r)
  then have "identity_get (ic_name q) (ic_namespace q) s \<noteq> None" by (simp add: identity_get_map)
  from duplicate_identity_map_crashes [OF this, of env] Some identity_register_taken [of s q env] show ?thesis
    by (auto simp: register_identity_map_def bindP_run catching_Inl identity_get_map identity_map_of_def)
qed

lemma nan_confidence_breaks_reads:
  assumes "identity_get (ic_name q) (ic_namespace q) s = None" and "ic_confidence q = NotANumber"
  shows "\<exists>s'. register_identity_map env q s = (Inl ResponseInvalid, s') \<and>
    describe_identity_map (ic_name q) (ic_namespace q) s' = (Inl ResponseInvalid, s')"
proof -
  have free: "identity_map_of s (identity_create_key q) = None" using assms(1) by (simp add: identity_get_map)
  have bad: "fit_identity (new_identity q (sd_identity_seq s + 1) (se_clock env (sd_reads s))) = None"
    using assms(2) by (simp add: fit_identity_new)
  have "register_identity_map env q s = (Inl ResponseInvalid, after_identity env q s)"
    using identity_register_fresh [OF free, of env] bad by (simp add: register_identity_map_def bindP_run catching_Inr response_model_run)
  moreover have "identity_get (ic_name q) (ic_namespace q) (after_identity env q s) =
      Some (new_identity q (sd_identity_seq s + 1) (se_clock env (sd_reads s)))"
    using identity_map_after [OF free, of env] by (simp add: identity_get_map)
  ultimately show ?thesis
    using bad by (auto simp: describe_identity_map_def existing_def bindP_run response_model_run)
qed

section \<open>Examples\<close>

lemma provider_api_stays_typed_witness:
  "all_servable (run_all (provider_answer demo_svc_env (\<lambda>rows. rows)) [PostProvider jira, DisableProvider ''jira'' ''default''] empty_db) \<and>
   proper (fst (provider_answer demo_svc_env (\<lambda>rows. rows) (GetProvider ''jira'' ''default'')
     (run_all (provider_answer demo_svc_env (\<lambda>rows. rows)) [PostProvider jira, DisableProvider ''jira'' ''default''] empty_db)))"
proof -
  have "all_servable empty_db" by (simp add: all_servable_def empty_db_def)
  from provider_api_stays_typed [OF this scan_ok_id, of "[PostProvider jira, DisableProvider ''jira'' ''default'']" demo_svc_env
      "GetProvider ''jira'' ''default''"]
  show ?thesis by simp
qed

lemma provider_api_status_witness:
  "status 201 (fst (register_provider demo_svc_env jira empty_db)) = 201 \<and>
   status 201 (fst (register_provider demo_svc_env jira jira_db)) = 400 \<and>
   enable_provider demo_svc_env ''jira'' ''default'' empty_db = (Inl (not_found ''Provider'' ''jira''), empty_db)"
proof -
  have empty: "provider_get demo_svc_env ''jira'' ''default'' empty_db = None"
    by (simp add: provider_get_def empty_db_def select_key_def)
  have "pc_provider_type jira = ''REMOTE''" "int64_ok (pc_timeout_ms jira)" "pc_name jira = ''jira''" "pc_namespace jira = ''default''"
    by (simp_all add: jira_def int64_ok_def)
  with empty jira_there
    provider_api_status [where env = demo_svc_env and q = jira and s = empty_db and name = "''jira''" and ns = "''default''"]
    provider_api_status [where env = demo_svc_env and q = jira and s = jira_db]
  show ?thesis by simp
qed

end
