(* ===== verification/Migrations.thy ===== *)
theory Migrations
  imports Py_Text
begin

text \<open>
  The catalog database at start-up (\<open>app/db/connection.py\<close>): the migration scripts of
  \<open>app/db/migrations\<close> as data, the statements they use, and the loop that applies the pending ones
  in file order. A schema is the columns of each table, the indexes and the versions
  recorded in \<open>schema_version\<close>. \<open>executescript\<close> runs statement by statement without a transaction, so
  a failure (\<open>fault\<close>: the k-th statement of a file raises) leaves what was done before it.
\<close>

section \<open>Statements\<close>

datatype ddl =
    CreateTable string "string list"  \<comment> \<open>\<open>CREATE TABLE IF NOT EXISTS\<close>\<close>
  | AddColumn string string           \<comment> \<open>\<open>ALTER TABLE t ADD COLUMN c\<close>\<close>
  | CreateIndex string string         \<comment> \<open>\<open>CREATE [UNIQUE] INDEX IF NOT EXISTS i ON t\<close>\<close>
  | RecordVersion int                 \<comment> \<open>\<open>INSERT OR IGNORE INTO schema_version (version) VALUES (v)\<close>\<close>

record schema =
  sc_tables :: "(string, string list) dict"
  sc_indexes :: "string list"
  sc_versions :: "int list"

definition operational_error :: "string \<Rightarrow> py_exc" where
  "operational_error m = OtherError ''OperationalError'' m"

fun run_ddl :: "ddl \<Rightarrow> schema \<Rightarrow> py_exc + schema" where
  "run_ddl (CreateTable t cols) s =
     Inr (if dict_get (sc_tables s) t = None then s\<lparr>sc_tables := sc_tables s @ [(t, cols)]\<rparr> else s)"
| "run_ddl (AddColumn t c) s =
     (case dict_get (sc_tables s) t of
        None \<Rightarrow> Inl (operational_error (''no such table: '' @ t))
      | Some cols \<Rightarrow>
          if c \<in> set cols then Inl (operational_error (''duplicate column name: '' @ c))
          else Inr (s\<lparr>sc_tables := dict_set t (cols @ [c]) (sc_tables s)\<rparr>))"
| "run_ddl (CreateIndex i t) s =
     (if i \<in> set (sc_indexes s) then Inr s
      else if dict_get (sc_tables s) t = None then Inl (operational_error (''no such table: '' @ t))
      else Inr (s\<lparr>sc_indexes := sc_indexes s @ [i]\<rparr>))"
| "run_ddl (RecordVersion v) s =
     (if dict_get (sc_tables s) ''schema_version'' = None then Inl (operational_error ''no such table: schema_version'')
      else Inr (if v \<in> set (sc_versions s) then s else s\<lparr>sc_versions := sc_versions s @ [v]\<rparr>))"

text \<open>The schema is the state; a statement that raises leaves it as it was.\<close>

type_synonym 'a ddl_prog = "(py_exc, schema, 'a) prog"

definition exec_ddl :: "ddl \<Rightarrow> unit ddl_prog" where
  "exec_ddl d = (\<lambda>s. case run_ddl d s of Inl e \<Rightarrow> (Inl e, s) | Inr s' \<Rightarrow> (Inr (), s'))"

fun executescript :: "(nat \<Rightarrow> py_exc option) \<Rightarrow> nat \<Rightarrow> ddl list \<Rightarrow> unit ddl_prog" where
  "executescript fault k [] = ret ()"
| "executescript fault k (d # ds) =
     bindP (case fault k of Some e \<Rightarrow> raise e | None \<Rightarrow> exec_ddl d) (\<lambda>_. executescript fault (Suc k) ds)"

section \<open>The loop over the files\<close>

record migration_file =
  mf_stem :: string
  mf_script :: "ddl list"

definition before_underscore :: "string \<Rightarrow> string" where
  \<comment> \<open>\<open>stem.split("_")[0]\<close>\<close>
  "before_underscore s = takeWhile (\<lambda>c. c \<noteq> CHR ''_'') s"

definition file_version :: "migration_file \<Rightarrow> py_exc + int" where
  "file_version mf =
     (case py_int (before_underscore (mf_stem mf)) of
        None \<Rightarrow> Inl (ValueError (invalid_int_text (before_underscore (mf_stem mf))))
      | Some v \<Rightarrow> Inr v)"

definition applied_version :: "schema \<Rightarrow> int" where
  \<comment> \<open>\<open>MAX(version)\<close>, or 0 for an empty table\<close>
  "applied_version s = (if sc_versions s = [] then 0 else Max (set (sc_versions s)))"

fun apply_pending :: "(string \<Rightarrow> nat \<Rightarrow> py_exc option) \<Rightarrow> int \<Rightarrow> migration_file list \<Rightarrow> unit ddl_prog" where
  "apply_pending fault current [] = ret ()"
| "apply_pending fault current (mf # mfs) =
     bindP (liftE (file_version mf)) (\<lambda>v.
     bindP (if v > current then executescript (fault (mf_stem mf)) 0 (mf_script mf) else ret ()) (\<lambda>_.
     apply_pending fault current mfs))"

definition run_migrations :: "(string \<Rightarrow> nat \<Rightarrow> py_exc option) \<Rightarrow> migration_file list \<Rightarrow> unit ddl_prog" where
  "run_migrations fault files =
     bindP (exec_ddl (CreateTable ''schema_version'' [''version'', ''applied_at''])) (\<lambda>_.
     bindP (readP applied_version) (\<lambda>current.
     apply_pending fault current (sort_key mf_stem files)))"

section \<open>The scripts of the repository\<close>

definition initial_script :: "ddl list" where
  "initial_script =
     [CreateTable ''schema_version'' [''version'', ''applied_at''],
      CreateTable ''contexts''
        [''id'', ''name'', ''namespace'', ''version'', ''definition_text'', ''entity_key'', ''has_score'',
         ''score_column'', ''description'', ''tags'', ''classification'', ''lifecycle_state'', ''dependency_refs'',
         ''provider_refs'', ''created_at'', ''updated_at'', ''last_validated_at'', ''last_executed_at'', ''freshness_metadata''],
      CreateTable ''providers''
        [''id'', ''name'', ''namespace'', ''provider_type'', ''endpoint'', ''credentials_ref'', ''timeout_ms'',
         ''health_state'', ''entity_key_type'', ''resource_shape'', ''trust_tier'', ''enabled'', ''registered_at'',
         ''updated_at'', ''last_success_at'', ''last_failure_at''],
      CreateTable ''identity_maps''
        [''id'', ''name'', ''namespace'', ''source_system'', ''source_entity_path'', ''target_system'',
         ''target_entity_path'', ''matching_mode'', ''confidence'', ''description'', ''version'', ''created_at'', ''updated_at''],
      CreateTable ''audit_log''
        [''id'', ''timestamp'', ''event_type'', ''actor'', ''namespace'', ''resource_type'', ''resource_name'', ''detail'', ''trace_id''],
      RecordVersion 1]"

definition snapshots_script :: "ddl list" where
  "snapshots_script =
     [CreateTable ''context_snapshots''
        [''id'', ''context_id'', ''version'', ''storage_kind'', ''bitmap_location'', ''score_location'', ''member_count'',
         ''serialized_bytes'', ''computed_at'', ''data_as_of'', ''valid_from'', ''valid_to'', ''definition_hash'',
         ''source_watermark'', ''state'', ''error_detail''],
      CreateIndex ''idx_context_snapshots_current'' ''context_snapshots'',
      CreateTable ''context_membership_history''
        [''id'', ''context_id'', ''transaction_id'', ''change_type'', ''recorded_at'', ''effective_at'', ''context_version'',
         ''source'', ''evidence_ref'', ''previous_score'', ''new_score''],
      CreateIndex ''idx_membership_history_context'' ''context_membership_history'',
      CreateIndex ''idx_membership_history_effective'' ''context_membership_history'',
      RecordVersion 2]"

definition runtime_state_script :: "ddl list" where
  "runtime_state_script =
     map (AddColumn ''contexts'')
        [''context_id'', ''definition_hash'', ''raw_ddl'', ''materialization_json'', ''current_snapshot_version'',
         ''last_refreshed_at'', ''data_as_of'', ''last_refresh_error'', ''history_available_from'', ''dropped_at'',
         ''definition_sql'', ''entity_key_type'', ''score_expression'', ''composition_json'', ''temporal_column'',
         ''temporal_granularity'', ''source_kind''] @
     [CreateIndex ''idx_contexts_runtime_version'' ''contexts'', CreateIndex ''idx_contexts_runtime_name'' ''contexts''] @
     map (AddColumn ''context_snapshots'') [''definition_version'', ''membership_sha256'', ''score_sha256''] @
     [CreateIndex ''idx_context_snapshots_one_current'' ''context_snapshots'',
      CreateTable ''context_snapshot_payloads'' [''context_id'', ''version'', ''membership_blob'', ''score_blob'', ''created_at'']] @
     map (AddColumn ''context_membership_history'') [''definition_version'', ''definition_hash'', ''event_id''] @
     [CreateIndex ''idx_membership_history_event'' ''context_membership_history'',
      CreateTable ''context_sync_state'' [''context_id'', ''committed_watermark'', ''ordering_boundary'', ''updated_at''],
      CreateTable ''context_sync_events'' [''context_id'', ''event_id'', ''watermark'', ''applied_at''],
      RecordVersion 3]"

definition migration_files :: "migration_file list" where
  "migration_files =
     [\<lparr>mf_stem = ''001_initial'', mf_script = initial_script\<rparr>,
      \<lparr>mf_stem = ''002_context_snapshots'', mf_script = snapshots_script\<rparr>,
      \<lparr>mf_stem = ''003_context_runtime_state'', mf_script = runtime_state_script\<rparr>]"

definition empty_schema :: schema where
  "empty_schema = \<lparr>sc_tables = [], sc_indexes = [], sc_versions = []\<rparr>"

section \<open>What a run keeps\<close>

definition grows :: "schema \<Rightarrow> schema \<Rightarrow> bool" where
  "grows s s' \<longleftrightarrow> set (sc_versions s) \<subseteq> set (sc_versions s') \<and>
     (\<forall>t cols. dict_get (sc_tables s) t = Some cols \<longrightarrow> (\<exists>cols'. dict_get (sc_tables s') t = Some cols' \<and> set cols \<subseteq> set cols'))"

lemma grows_refl [simp]: "grows s s"
  by (simp add: grows_def)

lemma grows_trans: "grows s s1 \<Longrightarrow> grows s1 s2 \<Longrightarrow> grows s s2"
  unfolding grows_def by (meson subset_trans)

lemma run_ddl_grows: "run_ddl d s = Inr s' \<Longrightarrow> grows s s'"
  by (cases d) (auto simp: grows_def map_add_def update_conv' split: if_splits option.splits)

lemma exec_ddl_grows: "grows s (snd (exec_ddl d s))"
  by (auto simp: exec_ddl_def dest: run_ddl_grows split: sum.split)

lemma executescript_grows: "grows s (snd (executescript fault k ds s))"
proof (induction ds arbitrary: k s)
  case (Cons d ds)
  show ?case
  proof (cases "fault k")
    case None
    obtain r s1 where d: "exec_ddl d s = (r, s1)" by fastforce
    then have "grows s s1" using exec_ddl_grows [of s d] by simp
    with Cons.IH [of s1 "Suc k"] None d show ?thesis
      by (cases r) (auto simp: bindP_run intro: grows_trans)
  qed simp
qed simp

lemma executescript_records:
  "executescript fault k ds s = (Inr (), s') \<Longrightarrow> RecordVersion v \<in> set ds \<Longrightarrow> v \<in> set (sc_versions s')"
proof (induction ds arbitrary: k s)
  case (Cons d ds)
  from Cons.prems(1) obtain s1 where d: "exec_ddl d s = (Inr (), s1)" and rest: "executescript fault (Suc k) ds s1 = (Inr (), s')"
    by (auto elim!: bindP_InrD split: option.splits)
  show ?case
  proof (cases "d = RecordVersion v")
    case True
    with d have "v \<in> set (sc_versions s1)"
      by (auto simp: exec_ddl_def split: if_splits sum.splits)
    moreover have "grows s1 s'" using executescript_grows [of s1 fault "Suc k" ds] rest by simp
    ultimately show ?thesis by (auto simp: grows_def)
  next
    case False
    with Cons.IH [OF rest] Cons.prems(2) show ?thesis by simp
  qed
qed simp

lemma apply_pending_grows: "grows s (snd (apply_pending fault current mfs s))"
proof (induction mfs arbitrary: s)
  case (Cons mf mfs)
  show ?case
  proof (cases "file_version mf")
    case (Inr v)
    obtain r s1 where step: "(if v > current then executescript (fault (mf_stem mf)) 0 (mf_script mf) else ret ()) s = (r, s1)" by fastforce
    then have "grows s s1"
      using executescript_grows [of s "fault (mf_stem mf)" 0 "mf_script mf"] by (auto split: if_splits)
    with Cons.IH [of s1] Inr step show ?thesis
      by (cases r) (auto simp: bindP_run intro: grows_trans)
  qed simp
qed simp

definition records_itself :: "migration_file \<Rightarrow> bool" where
  "records_itself mf \<longleftrightarrow> (case file_version mf of Inl e \<Rightarrow> False | Inr v \<Rightarrow> RecordVersion v \<in> set (mf_script mf))"

lemma apply_pending_done:
  assumes "apply_pending fault current mfs s = (Inr (), s')" and "mf \<in> set mfs" and "records_itself mf"
  shows "\<exists>v. file_version mf = Inr v \<and> (v \<le> current \<or> v \<in> set (sc_versions s'))"
  using assms(1,2)
proof (induction mfs arbitrary: s)
  case (Cons m mfs)
  from Cons.prems(1) obtain v s1 where v: "file_version m = Inr v"
    and step: "(if v > current then executescript (fault (mf_stem m)) 0 (mf_script m) else ret ()) s = (Inr (), s1)"
    and rest: "apply_pending fault current mfs s1 = (Inr (), s')"
    by (auto elim!: bindP_InrD)
  show ?case
  proof (cases "mf \<in> set mfs")
    case True
    with Cons.IH [OF rest] show ?thesis by blast
  next
    case False
    with Cons.prems(2) have m: "mf = m" by simp
    have "v \<in> set (sc_versions s1)" if "v > current"
      using step that executescript_records [of "fault (mf_stem m)" 0 "mf_script m" s s1 v] assms(3) v
      by (auto simp: m records_itself_def)
    moreover have "grows s1 s'" using apply_pending_grows [of s1 fault current mfs] rest by simp
    ultimately show ?thesis using v by (force simp: m grows_def)
  qed
qed simp

lemma apply_pending_idle:
  assumes "\<And>mf. mf \<in> set mfs \<Longrightarrow> \<exists>v. file_version mf = Inr v \<and> v \<le> current"
  shows "apply_pending fault current mfs s = (Inr (), s)"
  using assms
proof (induction mfs)
  case (Cons mf mfs)
  then obtain v where "file_version mf = Inr v" "v \<le> current" by auto
  with Cons show ?case by simp
qed simp

lemma apply_pending_advances:
  assumes "apply_pending fault current mfs s = (Inr (), s')" and "\<forall>mf \<in> set mfs. records_itself mf"
  shows "s' = s \<or> (\<exists>v \<in> set (sc_versions s'). current < v)"
  using assms
proof (induction mfs arbitrary: s)
  case (Cons m mfs)
  from Cons.prems(1) obtain v s1 where v: "file_version m = Inr v"
    and step: "(if v > current then executescript (fault (mf_stem m)) 0 (mf_script m) else ret ()) s = (Inr (), s1)"
    and rest: "apply_pending fault current mfs s1 = (Inr (), s')"
    by (auto elim!: bindP_InrD)
  show ?case
  proof (cases "v > current")
    case True
    with step have "executescript (fault (mf_stem m)) 0 (mf_script m) s = (Inr (), s1)" by simp
    moreover have "RecordVersion v \<in> set (mf_script m)" using Cons.prems(2) v by (auto simp: records_itself_def)
    ultimately have "v \<in> set (sc_versions s1)" by (rule executescript_records)
    moreover have "grows s1 s'" using apply_pending_grows [of s1 fault current mfs] rest by simp
    ultimately show ?thesis using True by (auto simp: grows_def)
  next
    case False
    with step Cons.IH [OF rest] Cons.prems(2) show ?thesis by simp
  qed
qed simp

lemma applied_version_ge: "v \<in> set (sc_versions s) \<Longrightarrow> v \<le> applied_version s"
  by (auto simp: applied_version_def)

lemma idempotent_run:
  assumes "run_migrations fault files s = (Inr (), s')" and "\<forall>mf \<in> set files. records_itself mf"
  shows "run_migrations fault' files s' = (Inr (), s')"
proof -
  let ?start = "CreateTable ''schema_version'' [''version'', ''applied_at'']"
  obtain s1 where s1: "exec_ddl ?start s = (Inr (), s1)"
    and run: "apply_pending fault (applied_version s1) (sort_key mf_stem files) s1 = (Inr (), s')"
    using assms(1) by (auto simp: run_migrations_def elim!: bindP_InrD)
  have there: "dict_get (sc_tables s1) ''schema_version'' \<noteq> None"
    using s1 by (auto simp: exec_ddl_def map_add_def split: if_splits option.splits)
  have up: "grows s1 s'" using apply_pending_grows [of s1 fault "applied_version s1" "sort_key mf_stem files"] run by simp
  from there up have "dict_get (sc_tables s') ''schema_version'' \<noteq> None" by (force simp: grows_def)
  then have again: "exec_ddl ?start s' = (Inr (), s')" by (simp add: exec_ddl_def)
  have "\<exists>v. file_version mf = Inr v \<and> v \<le> applied_version s'" if mf: "mf \<in> set files" for mf
  proof -
    from apply_pending_done [OF run] mf assms(2) obtain v where v: "file_version mf = Inr v"
      "v \<le> applied_version s1 \<or> v \<in> set (sc_versions s')" by fastforce
    moreover have "applied_version s1 \<le> applied_version s'"
      using apply_pending_advances [OF run] assms(2) applied_version_ge [of _ s'] by fastforce
    ultimately show ?thesis using applied_version_ge by fastforce
  qed
  then have "apply_pending fault' (applied_version s') (sort_key mf_stem files) s' = (Inr (), s')"
    by (intro apply_pending_idle) simp
  with again show ?thesis by (simp add: run_migrations_def bindP_Inr)
qed

text \<open>
  C34: migrating is idempotent. Once a start-up has returned, every migration file is at or below
  the version of the database, and another start-up with the same files executes no statement and
  changes nothing, whatever would have failed; provided each script records its own version.
\<close>

theorem migrations_idempotent:
  assumes "run_migrations fault files s = (Inr (), s')" and "\<forall>mf \<in> set files. records_itself mf"
  shows "run_migrations fault' files s' = (Inr (), s')"
  using assms by (rule idempotent_run)

section \<open>The scripts, run\<close>

abbreviation no_fault :: "string \<Rightarrow> nat \<Rightarrow> py_exc option" where
  "no_fault \<equiv> \<lambda>_ _. None"

lemma version_prefixes:
  "file_version \<lparr>mf_stem = ''001_initial'', mf_script = ds\<rparr> = Inr 1"
  "file_version \<lparr>mf_stem = ''002_context_snapshots'', mf_script = ds\<rparr> = Inr 2"
  "file_version \<lparr>mf_stem = ''003_context_runtime_state'', mf_script = ds\<rparr> = Inr 3"
  by code_simp+

lemma files_record_themselves: "\<forall>mf \<in> set migration_files. records_itself mf"
  by (simp add: migration_files_def records_itself_def version_prefixes initial_script_def snapshots_script_def runtime_state_script_def)

lemma executescript_quiet: "executescript (\<lambda>_. None) k (d # ds) = bindP (exec_ddl d) (\<lambda>_. executescript (\<lambda>_. None) (Suc k) ds)"
  by simp

lemma files_sorted: "sort_key mf_stem (take k migration_files) = take k migration_files"
proof -
  have "sorted (map mf_stem migration_files)" by (simp add: migration_files_def) 
  then have "sorted (map mf_stem (take k migration_files))" unfolding take_map [symmetric] by (rule sorted_wrt_take)
  then show ?thesis by (rule sort_key_id_if_sorted)
qed

text \<open>The schema after each script, starting from \<open>schema_version\<close> alone.\<close>

definition schema_0 :: schema where
  "schema_0 = empty_schema\<lparr>sc_tables := [(''schema_version'', [''version'', ''applied_at''])]\<rparr>"

definition schema_1 :: schema where
  "schema_1 = snd (executescript (\<lambda>_. None) 0 initial_script schema_0)"

definition schema_2 :: schema where
  "schema_2 = snd (executescript (\<lambda>_. None) 0 snapshots_script schema_1)"

lemma script_1: "executescript (\<lambda>_. None) 0 initial_script schema_0 = (Inr (), schema_1)"
proof -
  have "fst (executescript (\<lambda>_. None) 0 initial_script schema_0) = Inr ()" by code_simp
  then show ?thesis unfolding schema_1_def by (metis prod.collapse)
qed

lemma script_2: "executescript (\<lambda>_. None) 0 snapshots_script schema_1 = (Inr (), schema_2)"
proof -
  have "fst (executescript (\<lambda>_. None) 0 snapshots_script schema_1) = Inr ()" by code_simp
  then show ?thesis unfolding schema_2_def by (metis prod.collapse)
qed

definition after_release :: "nat \<Rightarrow> schema" where
  \<comment> \<open>the schema that a release with the first \<open>k\<close> scripts left behind\<close>
  "after_release k = snd (run_migrations no_fault (take k migration_files) empty_schema)"

definition full_schema :: schema where
  "full_schema = snd (executescript (\<lambda>_. None) 0 runtime_state_script schema_2)"

lemma script_3: "executescript (\<lambda>_. None) 0 runtime_state_script schema_2 = (Inr (), full_schema)"
proof -
  have "fst (executescript (\<lambda>_. None) 0 runtime_state_script schema_2) = Inr ()" by code_simp
  then show ?thesis unfolding full_schema_def by (metis prod.collapse)
qed

definition migrated_to :: "int list \<Rightarrow> schema \<Rightarrow> bool" where
  "migrated_to vs s \<longleftrightarrow> sc_versions s = vs \<and> dict_get (sc_tables s) ''schema_version'' \<noteq> None"

lemma schema_versions:
  "migrated_to [] schema_0" "migrated_to [1] schema_1" "migrated_to [1, 2] schema_2" "migrated_to [1, 2, 3] full_schema"
  by code_simp+

lemma applied_versions:
  "applied_version schema_0 = 0" "applied_version schema_1 = 1" "applied_version schema_2 = 2" "applied_version full_schema = 3"
  using schema_versions by (simp_all add: migrated_to_def applied_version_def)

lemma start_idle:
  "dict_get (sc_tables s) ''schema_version'' \<noteq> None \<Longrightarrow> exec_ddl (CreateTable ''schema_version'' [''version'', ''applied_at'']) s = (Inr (), s)"
  by (simp add: exec_ddl_def)

lemma start_empty: "exec_ddl (CreateTable ''schema_version'' [''version'', ''applied_at'']) empty_schema = (Inr (), schema_0)"
  by (simp add: exec_ddl_def empty_schema_def schema_0_def)

lemma run_migrations_from:
  assumes "dict_get (sc_tables s) ''schema_version'' \<noteq> None"
  shows "run_migrations fault (take k migration_files) s = apply_pending fault (applied_version s) (take k migration_files) s"
  unfolding run_migrations_def files_sorted by (simp add: bindP_run start_idle [OF assms])

lemma pending_scripts:
  "apply_pending no_fault 2 migration_files schema_2 = (Inr (), full_schema)"
  "apply_pending no_fault 1 migration_files schema_1 = (Inr (), full_schema)"
  "apply_pending no_fault 0 migration_files schema_0 = (Inr (), full_schema)"
  "apply_pending no_fault 0 (take 1 migration_files) schema_0 = (Inr (), schema_1)"
  "apply_pending no_fault 0 (take 2 migration_files) schema_0 = (Inr (), schema_2)"
  by (simp_all add: migration_files_def version_prefixes bindP_run script_1 script_2 script_3)

lemma run_empty: "run_migrations fault (take k migration_files) empty_schema = apply_pending fault 0 (take k migration_files) schema_0"
  unfolding run_migrations_def files_sorted by (simp add: bindP_run start_empty applied_versions)

lemma after_releases:
  "after_release 0 = schema_0" "after_release (Suc 0) = schema_1" "after_release 2 = schema_2" "after_release 3 = full_schema"
  unfolding after_release_def run_empty
  using pending_scripts by (simp_all add: migration_files_def)

lemma all_files: "take 3 migration_files = migration_files"
  by (simp add: migration_files_def)

lemma runs_to_full:
  "run_migrations no_fault migration_files schema_0 = (Inr (), full_schema)"
  "run_migrations no_fault migration_files schema_1 = (Inr (), full_schema)"
  "run_migrations no_fault migration_files schema_2 = (Inr (), full_schema)"
  using run_migrations_from [of schema_0 no_fault 3] run_migrations_from [of schema_1 no_fault 3] run_migrations_from [of schema_2 no_fault 3]
    schema_versions pending_scripts
  by (simp_all add: all_files applied_versions migrated_to_def)

definition well_shaped :: "schema \<Rightarrow> bool" where
  \<comment> \<open>the ten tables of the three scripts, no column twice, and the widths of the two that are altered\<close>
  "well_shaped s \<longleftrightarrow>
     map fst (sc_tables s) =
       [''schema_version'', ''contexts'', ''providers'', ''identity_maps'', ''audit_log'', ''context_snapshots'',
        ''context_membership_history'', ''context_snapshot_payloads'', ''context_sync_state'', ''context_sync_events''] \<and>
     list_all (\<lambda>(t, cols). distinct cols) (sc_tables s) \<and>
     map_option length (dict_get (sc_tables s) ''contexts'') = Some 36 \<and>
     map_option length (dict_get (sc_tables s) ''context_snapshots'') = Some 19"

lemma full_schema_shape: "well_shaped full_schema"
  by code_simp


text \<open>A crash inside the third script is not recoverable: its first column exists at the next start.\<close>

definition disk_full :: "string \<Rightarrow> nat \<Rightarrow> py_exc option" where
  "disk_full stem k = (if stem = ''003_context_runtime_state'' \<and> k = 1 then Some (operational_error ''disk full'') else None)"

definition without_context_id :: "schema \<Rightarrow> bool" where
  "without_context_id s \<longleftrightarrow> (case dict_get (sc_tables s) ''contexts'' of None \<Rightarrow> False | Some cols \<Rightarrow> ''context_id'' \<notin> set cols)"

lemma schema_2_contexts: "without_context_id schema_2"
  by code_simp

lemma third_script_not_repeatable:
  "\<exists>s. run_migrations disk_full migration_files schema_2 = (Inl (operational_error ''disk full''), s) \<and>
     run_migrations no_fault migration_files s = (Inl (operational_error ''duplicate column name: context_id''), s)"
proof -
  obtain cols where cols: "dict_get (sc_tables schema_2) ''contexts'' = Some cols" "''context_id'' \<notin> set cols"
    using schema_2_contexts by (auto simp: without_context_id_def split: option.splits)
  define s where "s = schema_2\<lparr>sc_tables := dict_set ''contexts'' (cols @ [''context_id'']) (sc_tables schema_2)\<rparr>"
  obtain rest where script: "runtime_state_script = AddColumn ''contexts'' ''context_id'' # AddColumn ''contexts'' ''definition_hash'' # rest"
    by (simp add: runtime_state_script_def)
  have there: "dict_get (sc_tables s) ''contexts'' = Some (cols @ [''context_id''])" by (simp add: s_def update_conv')
  have old: "migrated_to [1, 2] schema_2" by (rule schema_versions)
  then have new: "applied_version s = 2" "dict_get (sc_tables s) ''schema_version'' \<noteq> None"
    by (simp_all add: s_def migrated_to_def applied_version_def update_conv')
  have add: "exec_ddl (AddColumn ''contexts'' ''context_id'') schema_2 = (Inr (), s)"
    using cols by (simp add: exec_ddl_def s_def)
  have "run_migrations disk_full migration_files schema_2 = (Inl (operational_error ''disk full''), s)"
    using run_migrations_from [of schema_2 disk_full 3] old
    by (simp add: all_files applied_versions migrated_to_def migration_files_def version_prefixes script bindP_run disk_full_def add)
  moreover have "run_migrations no_fault migration_files s = (Inl (operational_error ''duplicate column name: context_id''), s)"
    using run_migrations_from [OF new(2), of no_fault 3] there
    by (simp add: all_files new(1) migration_files_def version_prefixes script bindP_run exec_ddl_def)
  ultimately show ?thesis by blast
qed

lemma migrations_idempotent_witness:
  "run_migrations (\<lambda>stem k. Some (operational_error ''read only'')) migration_files full_schema = (Inr (), full_schema)"
proof -
  have "run_migrations no_fault migration_files empty_schema = (Inr (), full_schema)"
    using run_empty [of no_fault 3] pending_scripts by (simp add: all_files)
  from migrations_idempotent [OF this files_record_themselves] show ?thesis .
qed

end
