(* ===== verification/Catalog_Service.thy ===== *)
theory Catalog_Service
  imports Context_Catalog Audit_Service
begin

text \<open>
  The context catalog service (\<open>app/services/catalog_service.py\<close>). It reads the \<open>contexts\<close> tables and
  writes only through ContextQL statements that it builds and hands to the engine. The
  engine is a parameter: what executing a statement raises or returns, and does to its own state and,
  through its repository, to the tables. Reading rows, the statements with their quoting, the
  guards and the audit events are the code of this service.
\<close>

section \<open>State and parameters\<close>

record 'g catalog_state =
  ca_contexts :: context_db
  ca_server :: server_db
  ca_engine :: 'g

type_synonym ('g, 'a) cat = "(py_exc, 'g catalog_state, 'a) prog"

record 'g catalog_env =
  ct_engine :: "(string \<Rightarrow> (py_exc, context_db \<times> 'g, frame_row list) prog) option"
  ct_svc :: svc_env
  ct_records_execution :: bool  \<comment> \<open>the repository has \<open>record_execution\<close>\<close>
  ct_now :: datetime

definition on_server :: "'a svc \<Rightarrow> ('g, 'a) cat" where
  "on_server m = (\<lambda>st. case m (ca_server st) of (r, s) \<Rightarrow> (r, st\<lparr>ca_server := s\<rparr>))"

definition on_tables :: "'a cdb \<Rightarrow> ('g, 'a) cat" where
  "on_tables m = (\<lambda>st. case m (ca_contexts st) of (r, s) \<Rightarrow> (r, st\<lparr>ca_contexts := s\<rparr>))"

definition engine_execute ::
  "(string \<Rightarrow> (py_exc, context_db \<times> 'g, frame_row list) prog) \<Rightarrow> string \<Rightarrow> ('g, frame_row list) cat" where
  "engine_execute ex statement_text =
     (\<lambda>st. case ex statement_text (ca_contexts st, ca_engine st) of
        (r, (d, g)) \<Rightarrow> (r, st\<lparr>ca_contexts := d, ca_engine := g\<rparr>))"

definition require_engine ::
  "'g catalog_env \<Rightarrow> string \<Rightarrow> ('g, string \<Rightarrow> (py_exc, context_db \<times> 'g, frame_row list) prog) cat" where
  "require_engine env msg =
     (case ct_engine env of None \<Rightarrow> raise (RuntimeError msg) | Some ex \<Rightarrow> ret ex)"

section \<open>Names and literals\<close>

abbreviation "quo \<equiv> CHR 0x27"
abbreviation "newline \<equiv> CHR 0x0A"

definition ident_start :: "char \<Rightarrow> bool" where
  "ident_start c = (let n = (of_char c :: nat) in (65 \<le> n \<and> n \<le> 90) \<or> (97 \<le> n \<and> n \<le> 122) \<or> n = 95)"

definition ident_char :: "char \<Rightarrow> bool" where
  "ident_char c = (ident_start c \<or> is_digit c)"

definition ident_match :: "string \<Rightarrow> bool" where
  \<comment> \<open>\<open>^[A-Za-z_][A-Za-z0-9_]*$\<close>; the dollar also matches before a final newline\<close>
  "ident_match s =
     (case s of
        [] \<Rightarrow> False
      | c # cs \<Rightarrow> ident_start c \<and> (let rest = dropWhile ident_char cs in rest = [] \<or> rest = [newline]))"

definition qualified_name :: "string \<Rightarrow> string \<Rightarrow> py_exc + string" where
  "qualified_name name ns =
     (if \<not> ident_match name \<or> \<not> ident_match ns
      then Inl (ValueError ''Context name and namespace must be identifiers'')
      else Inr (if ns = ''default'' then name else ns @ ''.'' @ name))"

definition sql_literal :: "string \<Rightarrow> string" where
  "sql_literal v = [quo] @ replace_char quo [quo, quo] v @ [quo]"

section \<open>Reading\<close>

record context_dict =
  xd_row :: context_row  \<comment> \<open>the columns as they are; the converted ones are beside it\<close>
  xd_has_score :: bool
  xd_tags :: json
  xd_dependency_refs :: json
  xd_provider_refs :: json
  xd_freshness_metadata :: json

definition context_row_to_dict :: "svc_env \<Rightarrow> context_row \<Rightarrow> context_dict" where
  "context_row_to_dict env r =
     \<lparr>xd_row = r, xd_has_score = (cx_has_score r \<noteq> 0), xd_tags = parsed_text env (cx_tags r),
      xd_dependency_refs = parsed_text env (cx_dependency_refs r),
      xd_provider_refs = parsed_text env (cx_provider_refs r),
      xd_freshness_metadata = parsed_text env (cx_freshness_metadata r)\<rparr>"

definition latest_row :: "string \<Rightarrow> string \<Rightarrow> context_row list \<Rightarrow> context_row option" where
  \<comment> \<open>\<open>WHERE name = ? AND namespace = ? AND dropped_at IS NULL ORDER BY version DESC LIMIT 1\<close>\<close>
  "latest_row name ns rows =
     (case rev (sort_key cx_version (filter (\<lambda>r. row_name r = (name, ns) \<and> cx_dropped_at r = None) rows)) of
        [] \<Rightarrow> None
      | r # _ \<Rightarrow> Some r)"

definition catalog_get :: "'g catalog_env \<Rightarrow> string \<Rightarrow> string \<Rightarrow> 'g catalog_state \<Rightarrow> context_dict option" where
  "catalog_get env name ns st =
     map_option (context_row_to_dict (ct_svc env)) (latest_row name ns (cd_contexts (ca_contexts st)))"

definition list_matches :: "string option \<Rightarrow> string option \<Rightarrow> context_row \<Rightarrow> bool" where
  "list_matches ns state r \<longleftrightarrow>
     cx_dropped_at r = None \<and> opt_filter ns cx_namespace r \<and> opt_filter state cx_lifecycle_state r"

definition list_base :: "string option \<Rightarrow> string option \<Rightarrow> context_row list \<Rightarrow> context_row list" where
  \<comment> \<open>the join with the greatest matching version of each name and namespace\<close>
  "list_base ns state rows =
     filter (\<lambda>c. list_ex (\<lambda>r. list_matches ns state r \<and> name_key r = name_key c) rows \<and>
                 list_all (\<lambda>r. list_matches ns state r \<and> row_name r = row_name c \<longrightarrow> cx_version r \<le> cx_version c) rows) rows"

definition catalog_list ::
  "'g catalog_env \<Rightarrow> (context_row list \<Rightarrow> context_row list) \<Rightarrow> string option \<Rightarrow> string option \<Rightarrow> int \<Rightarrow> int \<Rightarrow>
   ('g, context_dict list \<times> int) cat" where
  "catalog_list env scan ns state lmt off =
     bindP (readP (\<lambda>st. list_base ns state (cd_contexts (ca_contexts st)))) (\<lambda>base.
     bindP (bind_int lmt) (\<lambda>_.
     bindP (bind_int off) (\<lambda>_.
     ret (map (context_row_to_dict (ct_svc env)) (page_by_name scan cx_name lmt off base), int (length base)))))"

definition catalog_versions :: "'g catalog_env \<Rightarrow> string \<Rightarrow> string \<Rightarrow> 'g catalog_state \<Rightarrow> context_dict list" where
  "catalog_versions env name ns st =
     map (context_row_to_dict (ct_svc env))
       (sort_key cx_version (filter (\<lambda>r. row_name r = (name, ns)) (cd_contexts (ca_contexts st))))"

definition context_not_found :: "string \<Rightarrow> string \<Rightarrow> py_exc" where
  "context_not_found name ns =
     ValueError (''Context '' @ [quo] @ name @ [quo] @ '' not found in namespace '' @ [quo] @ ns @ [quo])"

definition require_context :: "'g catalog_env \<Rightarrow> string \<Rightarrow> string \<Rightarrow> py_exc \<Rightarrow> ('g, context_dict) cat" where
  "require_context env name ns missing =
     bindP (readP (catalog_get env name ns)) (\<lambda>d. case d of None \<Rightarrow> raise missing | Some c \<Rightarrow> ret c)"

definition snapshots_page :: "'g catalog_env \<Rightarrow> string \<Rightarrow> string \<Rightarrow> int \<Rightarrow> int \<Rightarrow> ('g, snapshot_row list) cat" where
  "snapshots_page env name ns lmt off =
     bindP (require_context env name ns (ValueError (''Context '' @ [quo] @ name @ [quo] @ '' not found''))) (\<lambda>current.
     bindP (bind_int lmt) (\<lambda>_. bindP (bind_int off) (\<lambda>_.
     readP (\<lambda>st. sql_page lmt off (rev (sort_key sn_version
       (filter (\<lambda>r. Some (sn_context_id r) = cx_context_id (xd_row current)) (cd_snapshots (ca_contexts st)))))))))"

definition history_page ::
  "'g catalog_env \<Rightarrow> string \<Rightarrow> string \<Rightarrow> string option \<Rightarrow> string option \<Rightarrow> int \<Rightarrow> int \<Rightarrow> ('g, history_row list) cat" where
  "history_page env name ns start until lmt off =
     bindP (require_context env name ns (ValueError (''Context '' @ [quo] @ name @ [quo] @ '' not found''))) (\<lambda>current.
     bindP (bind_int lmt) (\<lambda>_. bindP (bind_int off) (\<lambda>_.
     readP (\<lambda>st. sql_page lmt off (sort_key hi_effective_at
       (filter (\<lambda>h. Some (hi_context_id h) = cx_context_id (xd_row current) \<and>
                    (case start of None \<Rightarrow> True | Some t \<Rightarrow> t \<le> hi_effective_at h) \<and>
                    (case until of None \<Rightarrow> True | Some t \<Rightarrow> hi_effective_at h \<le> t))
          (cd_history (ca_contexts st))))))))"

section \<open>Statements\<close>

definition catalog_audit :: "'g catalog_env \<Rightarrow> string \<Rightarrow> string \<Rightarrow> string \<Rightarrow> json option \<Rightarrow> ('g, unit) cat" where
  "catalog_audit env event name ns detail = on_server (audit_event (ct_svc env) ''context'' event name ns detail)"

record context_create =
  cc_name :: string
  cc_definition_text :: string
  cc_entity_key :: string
  cc_namespace :: string
  cc_has_score :: bool
  cc_score_column :: "string option"
  cc_description :: "string option"
  cc_tags :: "string list option"
  cc_classification :: string

definition truthy :: "'a list option \<Rightarrow> bool" where
  "truthy v = (case v of None \<Rightarrow> False | Some t \<Rightarrow> t \<noteq> [])"

definition tags_text :: "string list \<Rightarrow> string" where
  "tags_text tags = join_text '', '' (map sql_literal tags)"

definition state_statement :: "string \<Rightarrow> string \<Rightarrow> string" where
  "state_statement q state = ''ALTER CONTEXT '' @ q @ '' SET STATE '' @ [quo] @ state @ [quo] @ '';''"

definition create_statement :: "string \<Rightarrow> context_create \<Rightarrow> string" where
  "create_statement q b =
     (let score_clause = (if cc_has_score b then newline # ''SCORE '' @ or_text (cc_score_column b) [] else []);
          description_clause = (if truthy (cc_description b) then newline # ''DESCRIPTION '' @ sql_literal (or_text (cc_description b) []) else []);
          tags_clause = (if truthy (cc_tags b) then newline # ''TAGS ('' @ tags_text (the (cc_tags b)) @ '')'' else [])
      in ''CREATE CONTEXT '' @ q @ '' ON '' @ cc_entity_key b @ score_clause @ description_clause @ tags_clause
         @ newline # ''AS '' @ rstrip_char (CHR '';'') (cc_definition_text b) @ '';'')"

definition catalog_create :: "'g catalog_env \<Rightarrow> context_create \<Rightarrow> ('g, context_dict option) cat" where
  "catalog_create env b =
     bindP (require_engine env ''Engine is required for context creation'') (\<lambda>ex.
     bindP (liftE (qualified_name (cc_name b) (cc_namespace b))) (\<lambda>q.
     bindP (guardP (cc_has_score b \<longrightarrow> truthy (cc_score_column b)) (ValueError ''score_column is required when has_score is true'')) (\<lambda>_.
     bindP (engine_execute ex (create_statement q b)) (\<lambda>_.
     bindP (engine_execute ex (state_statement q ''draft'')) (\<lambda>_.
     bindP (catalog_audit env ''context.created'' (cc_name b) (cc_namespace b) (Some (JObj [(''version'', JInt 1)]))) (\<lambda>_.
     readP (catalog_get env (cc_name b) (cc_namespace b))))))))"

record context_update =
  up_definition_text :: "string option option"
  up_description :: "string option option"
  up_tags :: "string list option option"
  up_score_column :: "string option option"
  up_entity_key :: "string option option"
  up_has_score :: "bool option option"
  up_classification :: "string option option"

definition update_statements :: "string \<Rightarrow> context_update \<Rightarrow> (py_exc + string) list" where
  \<comment> \<open>the statements in order; building the first raises when \<open>definition_text\<close> is \<open>None\<close>\<close>
  "update_statements q u =
     (case up_definition_text u of
        None \<Rightarrow> []
      | Some None \<Rightarrow> [Inl (OtherError ''AttributeError'' ([quo] @ ''NoneType'' @ [quo] @ '' object has no attribute '' @ [quo] @ ''rstrip'' @ [quo]))]
      | Some (Some t) \<Rightarrow> [Inr (''ALTER CONTEXT '' @ q @ '' SET DEFINITION AS '' @ rstrip_char (CHR '';'') t @ '';'')]) @
     (case up_description u of
        None \<Rightarrow> []
      | Some d \<Rightarrow> [Inr (''ALTER CONTEXT '' @ q @ '' SET DESCRIPTION '' @ sql_literal (or_text d []) @ '';'')]) @
     (case up_tags u of
        None \<Rightarrow> []
      | Some ts \<Rightarrow> [Inr (''ALTER CONTEXT '' @ q @ '' SET TAGS ('' @ tags_text (case ts of None \<Rightarrow> [] | Some xs \<Rightarrow> xs) @ '');'')]) @
     (case up_score_column u of
        None \<Rightarrow> []
      | Some c \<Rightarrow> [Inr (if truthy c then ''ALTER CONTEXT '' @ q @ '' SET SCORE '' @ or_text c [] @ '';''
                      else ''ALTER CONTEXT '' @ q @ '' DROP SCORE;'')])"

fun execute_all ::
  "(string \<Rightarrow> (py_exc, context_db \<times> 'g, frame_row list) prog) \<Rightarrow> (py_exc + string) list \<Rightarrow> ('g, unit) cat" where
  "execute_all ex [] = ret ()"
| "execute_all ex (s # ss) =
     bindP (liftE s) (\<lambda>t. bindP (engine_execute ex t) (\<lambda>_. execute_all ex ss))"

definition version_detail :: "context_dict option \<Rightarrow> json" where
  "version_detail d = JObj [(''version'', case d of None \<Rightarrow> JNull | Some c \<Rightarrow> JInt (cx_version (xd_row c)))]"

definition catalog_update :: "'g catalog_env \<Rightarrow> string \<Rightarrow> string \<Rightarrow> context_update \<Rightarrow> ('g, context_dict option) cat" where
  "catalog_update env name ns u =
     bindP (require_context env name ns (context_not_found name ns)) (\<lambda>_.
     bindP (require_engine env ''Engine is required for context updates'') (\<lambda>ex.
     bindP (liftE (qualified_name name ns)) (\<lambda>q.
     bindP (execute_all ex (update_statements q u)) (\<lambda>_.
     bindP (engine_execute ex (state_statement q ''draft'')) (\<lambda>_.
     bindP (readP (catalog_get env name ns)) (\<lambda>updated.
     bindP (catalog_audit env ''context.updated'' name ns (Some (version_detail updated))) (\<lambda>_.
     readP (catalog_get env name ns))))))))"

definition catalog_delete :: "'g catalog_env \<Rightarrow> string \<Rightarrow> string \<Rightarrow> ('g, bool) cat" where
  "catalog_delete env name ns =
     bindP (readP (catalog_get env name ns)) (\<lambda>d.
     case d of
       None \<Rightarrow> ret False
     | Some current \<Rightarrow>
         (let state = cx_lifecycle_state (xd_row current) in
          bindP (guardP (state = ''draft'')
            (ValueError (''Cannot delete context in '' @ [quo] @ state @ [quo] @ '' state; only '' @ [quo] @ ''draft'' @ [quo] @ '' contexts may be deleted''))) (\<lambda>_.
          bindP (require_engine env ''Engine is required for context deletion'') (\<lambda>ex.
          bindP (liftE (qualified_name name ns)) (\<lambda>q.
          bindP (engine_execute ex (''DROP CONTEXT '' @ q @ '';'')) (\<lambda>_.
          bindP (catalog_audit env ''context.deleted'' name ns None) (\<lambda>_. ret True)))))))"

definition to_state :: "'g catalog_env \<Rightarrow> string \<Rightarrow> string \<Rightarrow> bool \<Rightarrow> string \<Rightarrow> string \<Rightarrow> ('g, context_dict option) cat" where
  \<comment> \<open>\<open>validate\<close> (with its statement), \<open>activate\<close> and \<open>retire\<close>\<close>
  "to_state env name ns validating state event =
     bindP (require_context env name ns (context_not_found name ns)) (\<lambda>current.
     bindP (case ct_engine env of
              None \<Rightarrow> ret ()
            | Some ex \<Rightarrow>
                bindP (liftE (qualified_name name ns)) (\<lambda>q.
                bindP (if validating then engine_execute ex (''VALIDATE CONTEXT '' @ q @ '';'') else ret []) (\<lambda>_.
                bindP (engine_execute ex (state_statement q state)) (\<lambda>_. ret ())))) (\<lambda>_.
     bindP (catalog_audit env event name ns (Some (version_detail (Some current)))) (\<lambda>_.
     readP (catalog_get env name ns))))"

definition catalog_validate :: "'g catalog_env \<Rightarrow> string \<Rightarrow> string \<Rightarrow> ('g, context_dict option) cat" where
  "catalog_validate env name ns = to_state env name ns True ''validated'' ''context.validated''"

definition catalog_activate :: "'g catalog_env \<Rightarrow> string \<Rightarrow> string \<Rightarrow> ('g, context_dict option) cat" where
  "catalog_activate env name ns = to_state env name ns False ''active'' ''context.activated''"

definition catalog_retire :: "'g catalog_env \<Rightarrow> string \<Rightarrow> string \<Rightarrow> ('g, context_dict option) cat" where
  "catalog_retire env name ns = to_state env name ns False ''retired'' ''context.retired''"

definition catalog_refresh :: "'g catalog_env \<Rightarrow> string \<Rightarrow> string \<Rightarrow> ('g, context_dict option) cat" where
  "catalog_refresh env name ns =
     bindP (require_engine env ''Engine is required for refresh'') (\<lambda>ex.
     bindP (liftE (qualified_name name ns)) (\<lambda>q.
     bindP (engine_execute ex (''REFRESH CONTEXT '' @ q @ '';'')) (\<lambda>_.
     readP (catalog_get env name ns))))"

definition catalog_preview :: "'g catalog_env \<Rightarrow> string \<Rightarrow> string \<Rightarrow> int \<Rightarrow> ('g, frame_row list) cat" where
  "catalog_preview env name ns lmt =
     bindP (require_context env name ns (context_not_found name ns)) (\<lambda>current.
     bindP (require_engine env ''Engine is not available for preview'') (\<lambda>ex.
     bindP (guardP (or_text (cx_definition_sql (xd_row current)) [] \<noteq> []) (ValueError ''Context has no executable SQL definition'')) (\<lambda>_.
     bindP (engine_execute ex (or_text (cx_definition_sql (xd_row current)) [])) (\<lambda>rows.
     bindP (case cx_context_id (xd_row current) of
              Some c \<Rightarrow>
                if ct_records_execution env
                then bindP (on_server (read_clock (ct_svc env))) (\<lambda>db_now.
                  on_tables (record_execution (\<lambda>_. None) db_now c (cx_version (xd_row current)) (ct_now env)))
                else ret ()
            | None \<Rightarrow> ret ()) (\<lambda>_.
     ret (py_slice_to rows lmt))))))"

end
