(* ===== verification/Catalog_Props.thy ===== *)
theory Catalog_Props
  imports Catalog_Service
begin

text \<open>
  Properties of the context catalog service: the names and literals it splices into
  statements, listing against reading, the guard of deletion, and the audit trail.
\<close>

section \<open>Literals\<close>

fun read_literal_body :: "string \<Rightarrow> (string \<times> string) option" where
  \<comment> \<open>the SQL reading of a literal after its opening quote: a doubled quote is a quote\<close>
  "read_literal_body [] = None"
| "read_literal_body (c # cs) =
     (if c = quo
      then (case cs of
              d # ds \<Rightarrow> if d = quo then map_option (apfst ((#) quo)) (read_literal_body ds) else Some ([], cs)
            | [] \<Rightarrow> Some ([], []))
      else map_option (apfst ((#) c)) (read_literal_body cs))"

definition read_literal :: "string \<Rightarrow> (string \<times> string) option" where
  "read_literal s = (case s of c # cs \<Rightarrow> if c = quo then read_literal_body cs else None | [] \<Rightarrow> None)"

lemma replace_char_Cons: "replace_char c r (x # xs) = (if x = c then r else [x]) @ replace_char c r xs"
  by (simp add: replace_char_def)

lemma read_literal_body_quoted:
  "(case rest of [] \<Rightarrow> True | c # _ \<Rightarrow> c \<noteq> quo) \<Longrightarrow>
   read_literal_body (replace_char quo [quo, quo] v @ quo # rest) = Some (v, rest)"
proof (induction v)
  case Nil
  then show ?case by (cases rest) (simp_all add: replace_char_def)
next
  case (Cons x xs)
  then show ?case by (simp add: replace_char_Cons)
qed

text \<open>
  C24: a text spliced as a literal stays one literal: read by SQL's rule, the literal that
  the service writes ends where the service ended it and has the given text, whatever quotes the
  text has and whatever follows (that is not a quote).
\<close>

theorem sql_literal_reads_back:
  assumes "rest = [] \<or> hd rest \<noteq> quo"
  shows "read_literal (sql_literal v @ rest) = Some (v, rest)"
proof -
  have "case rest of [] \<Rightarrow> True | c # _ \<Rightarrow> c \<noteq> quo" using assms by (cases rest) auto
  from read_literal_body_quoted [OF this, of v] show ?thesis by (simp add: read_literal_def sql_literal_def)
qed

lemma sql_literal_reads_back_witness: "read_literal (sql_literal [quo, CHR '';'', quo] @ '';'') = Some ([quo, CHR '';'', quo], '';'')"
  by (rule sql_literal_reads_back) simp

section \<open>Names\<close>

definition is_identifier :: "string \<Rightarrow> bool" where
  "is_identifier s \<longleftrightarrow> (case s of [] \<Rightarrow> False | c # cs \<Rightarrow> ident_start c \<and> list_all ident_char cs)"

lemma ident_match_cases: "ident_match s \<longleftrightarrow> is_identifier s \<or> (\<exists>t. is_identifier t \<and> s = t @ [newline])"
proof
  assume m: "ident_match s"
  then obtain c cs where s: "s = c # cs" "ident_start c" and rest: "dropWhile ident_char cs = [] \<or> dropWhile ident_char cs = [newline]"
    by (cases s) (auto simp: ident_match_def Let_def)
  have split: "cs = takeWhile ident_char cs @ dropWhile ident_char cs" by simp
  have all: "list_all ident_char (takeWhile ident_char cs)" by (simp add: list_all_iff) (metis set_takeWhileD)
  from rest show "is_identifier s \<or> (\<exists>t. is_identifier t \<and> s = t @ [newline])"
  proof
    assume "dropWhile ident_char cs = []"
    with split all s show ?thesis by (simp add: is_identifier_def)
  next
    assume "dropWhile ident_char cs = [newline]"
    with split have "s = (c # takeWhile ident_char cs) @ [newline]" using s by simp
    moreover have "is_identifier (c # takeWhile ident_char cs)" using s all by (simp add: is_identifier_def)
    ultimately show ?thesis by blast
  qed
next
  have nl: "\<not> ident_char newline" by (simp add: ident_char_def ident_start_def is_digit_def)
  have drop: "dropWhile ident_char (cs @ r) = dropWhile ident_char r" if "list_all ident_char cs" for cs r
    using that by (induction cs) auto
  assume "is_identifier s \<or> (\<exists>t. is_identifier t \<and> s = t @ [newline])"
  then show "ident_match s"
  proof (elim disjE exE conjE)
    assume "is_identifier s"
    then show ?thesis using drop [of "tl s" "[]"] by (cases s) (auto simp: is_identifier_def ident_match_def)
  next
    fix t assume "is_identifier t" "s = t @ [newline]"
    then show ?thesis using drop [of "tl t" "[newline]"] nl by (cases t) (auto simp: is_identifier_def ident_match_def)
  qed
qed

lemma identifier_no_dot: "is_identifier s \<Longrightarrow> CHR ''.'' \<notin> set s"
  by (cases s) (auto simp: is_identifier_def list_all_iff ident_char_def ident_start_def is_digit_def)

lemma ident_match_no_dot: "ident_match s \<Longrightarrow> CHR ''.'' \<notin> set s"
  by (auto simp: ident_match_cases dest: identifier_no_dot)

lemma split_at_char:
  "c \<notin> set a \<Longrightarrow> c \<notin> set b \<Longrightarrow> a @ c # x = b @ c # y \<Longrightarrow> a = b \<and> x = y"
proof (induction a arbitrary: b)
  case Nil
  then show ?case by (cases b) auto
next
  case (Cons d a)
  then obtain b' where "b = d # b'" by (cases b) auto
  with Cons show ?case by auto
qed

lemma qualified_name_unique:
  assumes "qualified_name n1 ns1 = Inr q" and "qualified_name n2 ns2 = Inr q"
  shows "n1 = n2 \<and> ns1 = ns2"
proof -
  from assms have m: "ident_match n1" "ident_match ns1" "ident_match n2" "ident_match ns2"
    and q1: "q = (if ns1 = ''default'' then n1 else ns1 @ ''.'' @ n1)"
    and q2: "q = (if ns2 = ''default'' then n2 else ns2 @ ''.'' @ n2)"
    by (auto simp: qualified_name_def split: if_splits)
  note nodot = m [THEN ident_match_no_dot]
  show ?thesis
  proof (cases "ns1 = ''default''")
    case True
    then have "CHR ''.'' \<notin> set q" using q1 nodot(1) by simp
    then show ?thesis using True q1 q2 by (auto split: if_splits)
  next
    case False
    then have "CHR ''.'' \<in> set q" using q1 by simp
    then have ns2: "ns2 \<noteq> ''default''" using q2 nodot(3) by auto
    from split_at_char [OF nodot(2) nodot(4), of n1 n2] show ?thesis using q1 q2 False ns2 by simp
  qed
qed

lemma qualified_name_chars:
  assumes "qualified_name name ns = Inr q" and "c \<in> set q"
  shows "ident_char c \<or> c = CHR ''.'' \<or> c = newline"
proof -
  have id: "ident_char d" if "is_identifier t" "d \<in> set t" for t d
    using that by (cases t) (auto simp: is_identifier_def list_all_iff ident_char_def)
  have "ident_char c \<or> c = newline" if "ident_match s" "c \<in> set s" for s
    using that id by (auto simp: ident_match_cases)
  note char = this
  from assms have "ident_match name" "ident_match ns" "c \<in> set name \<or> c \<in> set ns \<or> c = CHR ''.''"
    by (auto simp: qualified_name_def split: if_splits)
  with char show ?thesis by blast
qed

text \<open>
  Two contexts never share a qualified name: whatever pass the identifier check, equal
  qualified names mean equal name and namespace; and a qualified name has no character that could
  end the statement early, except that the check lets a final newline through.
\<close>

theorem qualified_name_injective:
  assumes "qualified_name n1 ns1 = Inr q" and "qualified_name n2 ns2 = Inr q"
  shows "n1 = n2 \<and> ns1 = ns2 \<and> (\<forall>c \<in> set q. ident_char c \<or> c = CHR ''.'' \<or> c = newline)"
  using qualified_name_unique [OF assms] qualified_name_chars [OF assms(1)] by blast

lemma qualified_name_injective_witness: "qualified_name ''late'' ''ops'' = Inr ''ops.late'' \<and> ident_char (hd ''ops.late'')"
proof -
  have "qualified_name ''late'' ''ops'' = Inr ''ops.late''"
    by (simp add: qualified_name_def ident_match_def ident_char_def ident_start_def is_digit_def)
  from qualified_name_injective [OF this this] this show ?thesis
    by (simp add: ident_char_def ident_start_def)
qed

text \<open>The check accepts a name that ends in a newline.\<close>

lemma newline_name_accepted: "qualified_name (''a'' @ [newline]) ''default'' = Inr (''a'' @ [newline])"
  by (simp add: qualified_name_def ident_match_def ident_char_def ident_start_def is_digit_def)

section \<open>Listing and reading\<close>

lemma latest_row_Some:
  assumes "contexts_ok rows"
  shows "latest_row name ns rows = Some r \<longleftrightarrow>
    r \<in> set rows \<and> row_name r = (name, ns) \<and> cx_dropped_at r = None \<and>
    (\<forall>r' \<in> set rows. row_name r' = (name, ns) \<and> cx_dropped_at r' = None \<longrightarrow> cx_version r' \<le> cx_version r)"
    (is "_ \<longleftrightarrow> ?best r")
proof -
  let ?xs = "sort_key cx_version (filter (\<lambda>r. row_name r = (name, ns) \<and> cx_dropped_at r = None) rows)"
  have set: "set ?xs = {r \<in> set rows. row_name r = (name, ns) \<and> cx_dropped_at r = None}" by simp
  have last: "latest_row name ns rows = (if ?xs = [] then None else Some (last ?xs))"
    by (cases ?xs rule: rev_cases) (simp_all add: latest_row_def)
  have best_last: "?best (last ?xs)" if "?xs \<noteq> []"
  proof -
    have "sorted (map cx_version ?xs)" by simp
    then have "cx_version r' \<le> cx_version (last ?xs)" if "r' \<in> set ?xs" for r'
      using that by (rule sorted_last_max)
    with last_in_set [OF that] set show ?thesis by auto
  qed
  have uniq: "r = r'" if "?best r" "?best r'" for r r'
  proof -
    from that have "name_key r = name_key r'" by (auto simp: name_key_def row_name_def intro: order_antisym)
    with assms that show ?thesis by (auto simp: contexts_ok_def distinct_map dest: inj_onD)
  qed
  show ?thesis
  proof (cases "?xs = []")
    case True
    then have "\<not> ?best r" using set by auto
    with True last show ?thesis by simp
  next
    case False
    with best_last [OF False] uniq [of r "last ?xs"] last show ?thesis by auto
  qed
qed

lemma list_base_unfiltered:
  assumes "contexts_ok rows"
  shows "list_base None None rows = filter (\<lambda>c. latest_row (cx_name c) (cx_namespace c) rows = Some c) rows"
proof -
  have "(list_ex (\<lambda>r. list_matches None None r \<and> name_key r = name_key c) rows \<and>
      list_all (\<lambda>r. list_matches None None r \<and> row_name r = row_name c \<longrightarrow> cx_version r \<le> cx_version c) rows) \<longleftrightarrow>
      latest_row (cx_name c) (cx_namespace c) rows = Some c" if c: "c \<in> set rows" for c
  proof -
    have "r = c" if "r \<in> set rows" "name_key r = name_key c" for r
      using assms that c by (auto simp: contexts_ok_def distinct_map dest: inj_onD)
    then have "list_ex (\<lambda>r. list_matches None None r \<and> name_key r = name_key c) rows \<longleftrightarrow> cx_dropped_at c = None"
      using c by (auto simp: list_ex_iff list_matches_def opt_filter_def)
    then show ?thesis
      unfolding latest_row_Some [OF assms]
      using c by (auto simp: list_all_iff list_matches_def opt_filter_def row_name_def)
  qed
  then show ?thesis unfolding list_base_def by (intro filter_cong) auto
qed

lemma list_base_names_inj:
  assumes "contexts_ok rows"
  shows "inj_on row_name (set (list_base None None rows))"
proof (rule inj_onI)
  fix r r' assume "r \<in> set (list_base None None rows)" "r' \<in> set (list_base None None rows)" and names: "row_name r = row_name r'"
  then have l: "latest_row (cx_name r) (cx_namespace r) rows = Some r" "latest_row (cx_name r') (cx_namespace r') rows = Some r'"
    unfolding list_base_unfiltered [OF assms] set_filter by blast+
  from names have n: "cx_name r = cx_name r'" "cx_namespace r = cx_namespace r'" unfolding row_name_def by blast+
  from l(1) [unfolded n] l(2) show "r = r'" by simp
qed

text \<open>
  C25: without filters the listing and \<open>get\<close> agree: under the unique indexes a context is
  listed exactly when \<open>get\<close> returns it for its name and namespace, the count is the number of
  names that \<open>get\<close> finds, and a page large enough lists them all in name order.
\<close>

theorem catalog_list_agrees_with_get:
  fixes st :: "'g catalog_state"
  assumes "contexts_ok (cd_contexts (ca_contexts st))" and "scan_ok scan"
    and "int (length (cd_contexts (ca_contexts st))) \<le> lmt" and "int64_ok lmt"
  shows "\<exists>ds. catalog_list env scan None None lmt 0 st = (Inr (ds, int (length ds)), st) \<and>
    sorted (map (cx_name \<circ> xd_row) ds) \<and> distinct (map (row_name \<circ> xd_row) ds) \<and>
    (\<forall>d. d \<in> set ds \<longleftrightarrow> catalog_get env (cx_name (xd_row d)) (cx_namespace (xd_row d)) st = Some d)"
proof -
  let ?rows = "cd_contexts (ca_contexts st)" and ?dict = "context_row_to_dict (ct_svc env)"
  let ?base = "list_base None None ?rows"
  let ?page = "page_by_name scan cx_name lmt 0 ?base"
  have base: "?base = filter (\<lambda>c. latest_row (cx_name c) (cx_namespace c) ?rows = Some c) ?rows"
    by (rule list_base_unfiltered [OF assms(1)])
  have "int (length ?base) \<le> lmt" using assms(3) length_filter_le [of _ ?rows] unfolding base by (meson of_nat_mono order_trans)
  note all = page_by_name_all [OF assms(2) this, of cx_name]
  have pset: "set ?page = set ?base" by (metis all(1) set_mset_mset)
  have len: "length ?page = length ?base" by (metis all(1) size_mset)
  have row: "xd_row (?dict r) = r" for r by (simp add: context_row_to_dict_def)
  have run: "catalog_list env scan None None lmt 0 st = (Inr (map ?dict ?page, int (length (map ?dict ?page))), st)"
    using assms(4) by (simp add: catalog_list_def bindP_run bind_int_def int64_ok_def len)
  moreover have "sorted (map (cx_name \<circ> xd_row) (map ?dict ?page))" using all(2) by (simp add: comp_def row)
  moreover have "distinct (map (row_name \<circ> xd_row) (map ?dict ?page))"
  proof -
    have "distinct ?base" using contexts_ok_distinct [OF assms(1)] by (simp add: base)
    then have "distinct ?page" using mset_eq_imp_distinct_iff [OF all(1)] by blast
    moreover have "inj_on row_name (set ?page)" using list_base_names_inj [OF assms(1)] by (simp only: pset)
    ultimately show ?thesis by (simp add: comp_def row distinct_map)
  qed
  moreover have "d \<in> set (map ?dict ?page) \<longleftrightarrow> catalog_get env (cx_name (xd_row d)) (cx_namespace (xd_row d)) st = Some d" for d
  proof
    assume "d \<in> set (map ?dict ?page)"
    then obtain r where "r \<in> set ?base" "d = ?dict r" using pset by auto
    then show "catalog_get env (cx_name (xd_row d)) (cx_namespace (xd_row d)) st = Some d"
      by (simp add: base catalog_get_def row)
  next
    assume "catalog_get env (cx_name (xd_row d)) (cx_namespace (xd_row d)) st = Some d"
    then obtain r where r: "latest_row (cx_name (xd_row d)) (cx_namespace (xd_row d)) ?rows = Some r" "d = ?dict r"
      by (auto simp: catalog_get_def)
    then have "r \<in> set ?base" using latest_row_Some [OF assms(1)] by (simp add: base row)
    with r(2) pset show "d \<in> set (map ?dict ?page)" by auto
  qed
  ultimately show ?thesis by blast
qed

text \<open>
  With a lifecycle filter the listing takes the greatest version among the rows that match the
  filter: an older version is listed although the context has moved on.
\<close>

definition two_versions :: "context_row list" where
  "two_versions =
     [(blank_row 1 ''now'' ''c1'' 1 None)\<lparr>cx_name := ''late'', cx_lifecycle_state := ''active''\<rparr>,
      (blank_row 2 ''now'' ''c1'' 2 None)\<lparr>cx_name := ''late'', cx_lifecycle_state := ''draft''\<rparr>]"

lemma state_filter_lists_old_version:
  "map cx_version (list_base None (Some ''active'') two_versions) = [1] \<and>
   map_option cx_version (latest_row ''late'' ''default'' two_versions) = Some 2"
  by (simp add: list_base_def list_matches_def opt_filter_def two_versions_def blank_row_def name_key_def row_name_def latest_row_def)

section \<open>Deletion\<close>

text \<open>
  Only drafts are deleted: for an unknown context nothing happens and the result is
  False; for a context in any other state the call raises and nothing is executed, written or
  audited; and when it returns True, the one statement executed was the DROP of that context.
\<close>

theorem only_drafts_deleted:
  shows "(catalog_get env name ns st = None \<longrightarrow> catalog_delete env name ns st = (Inr False, st)) \<and>
    (\<forall>c. catalog_get env name ns st = Some c \<longrightarrow> cx_lifecycle_state (xd_row c) \<noteq> ''draft'' \<longrightarrow>
       (\<exists>e. catalog_delete env name ns st = (Inl e, st))) \<and>
    (\<forall>st'. catalog_delete env name ns st = (Inr True, st') \<longrightarrow>
       (\<exists>ex q rows. ct_engine env = Some ex \<and> qualified_name name ns = Inr q \<and>
          ex (''DROP CONTEXT '' @ q @ '';'') (ca_contexts st, ca_engine st) = (Inr rows, (ca_contexts st', ca_engine st'))))"
proof (intro conjI allI impI)
  show "catalog_get env name ns st = None \<Longrightarrow> catalog_delete env name ns st = (Inr False, st)"
    by (simp add: catalog_delete_def)
  show "\<exists>e. catalog_delete env name ns st = (Inl e, st)"
    if "catalog_get env name ns st = Some c" "cx_lifecycle_state (xd_row c) \<noteq> ''draft''" for c
    using that by (simp add: catalog_delete_def Let_def)
  show "\<exists>ex q rows. ct_engine env = Some ex \<and> qualified_name name ns = Inr q \<and>
      ex (''DROP CONTEXT '' @ q @ '';'') (ca_contexts st, ca_engine st) = (Inr rows, (ca_contexts st', ca_engine st'))"
    if run: "catalog_delete env name ns st = (Inr True, st')" for st'
  proof -
    obtain c where c: "catalog_get env name ns st = Some c"
      using run by (cases "catalog_get env name ns st") (simp_all add: catalog_delete_def)
    obtain ex where ex: "ct_engine env = Some ex"
      using run c by (cases "ct_engine env") (auto simp: catalog_delete_def Let_def require_engine_def bindP_run guardP_run split: if_splits)
    show ?thesis
      using run c ex
      by (auto simp: catalog_delete_def Let_def require_engine_def bindP_run guardP_run engine_execute_def
          catalog_audit_def on_server_def split: if_splits sum.splits prod.splits)
  qed
qed

section \<open>The audit trail\<close>

lemma engine_execute_server: "engine_execute ex t st = (r, st') \<Longrightarrow> ca_server st' = ca_server st"
  by (auto simp: engine_execute_def split: prod.splits)

lemma execute_all_server: "execute_all ex ss st = (r, st') \<Longrightarrow> ca_server st' = ca_server st"
proof (induction ss arbitrary: st)
  case (Cons s ss)
  then show ?case
    by (cases s) (auto simp: bindP_run dest!: engine_execute_server split: prod.splits sum.splits)
qed simp

lemma catalog_audit_run:
  "catalog_audit env event name ns detail st =
     (Inr (), st\<lparr>ca_server := audited (ct_svc env) (event_args ''context'' event name ns detail) (ca_server st)\<rparr>)"
  by (simp add: catalog_audit_def on_server_def)

definition ends_in :: "('s \<Rightarrow> bool) \<Rightarrow> ('s \<Rightarrow> bool) \<Rightarrow> ('e, 's, 'a) prog \<Rightarrow> bool" where
  \<comment> \<open>from a state with \<open>P\<close>: \<open>P\<close> still holds if it raises, \<open>Q\<close> holds if it returns\<close>
  "ends_in P Q m \<longleftrightarrow> (\<forall>st. P st \<longrightarrow> (case fst (m st) of Inl _ \<Rightarrow> P (snd (m st)) | Inr _ \<Rightarrow> Q (snd (m st))))"

lemma ends_in_bind: "keeps P m \<Longrightarrow> (\<And>x. ends_in P Q (f x)) \<Longrightarrow> ends_in P Q (bindP m f)"
  by (auto simp: ends_in_def keeps_def bindP_run split: prod.splits sum.splits) (metis fst_conv snd_conv sum.case)+

lemma ends_in_raise: "ends_in P Q (raise e)"
  by (simp add: ends_in_def)

abbreviation "server_is s0 \<equiv> (\<lambda>st. ca_server st = s0)"

abbreviation "server_audited env name ns s0 \<equiv>
  (\<lambda>st. \<exists>event detail. ca_server st = audited (ct_svc env) (event_args ''context'' event name ns detail) s0)"

lemma ends_in_audit: "ends_in (server_is s0) (server_audited env name ns s0) (bindP (catalog_audit env event name ns detail) (\<lambda>_. readP f))"
  by (auto simp: ends_in_def bindP_run catalog_audit_run)

lemma keeps_server [keeps_rules]:
  "keeps (server_is s0) (engine_execute ex t)" "keeps (server_is s0) (execute_all ex ss)"
  "keeps (server_is s0) (require_engine env msg)" "keeps (server_is s0) (require_context env name ns e)"
proof -
  show "keeps (server_is s0) (engine_execute ex t)"
    unfolding keeps_def by (metis engine_execute_server prod.collapse)
  show "keeps (server_is s0) (execute_all ex ss)"
    unfolding keeps_def by (metis execute_all_server prod.collapse)
  show "keeps (server_is s0) (require_engine env msg)"
    by (simp add: require_engine_def split: option.split)
  show "keeps (server_is s0) (require_context env name ns e)"
    by (auto simp: require_context_def keeps_def split: option.split)
qed

lemma ends_in_create: "ends_in (server_is s0) (server_audited env (cc_name b) (cc_namespace b) s0) (catalog_create env b)"
  unfolding catalog_create_def by (intro ends_in_bind ends_in_audit keeps_rules)

lemma ends_in_update: "ends_in (server_is s0) (server_audited env name ns s0) (catalog_update env name ns u)"
  unfolding catalog_update_def by (intro ends_in_bind ends_in_audit keeps_rules)

lemma ends_in_state: "ends_in (server_is s0) (server_audited env name ns s0) (to_state env name ns v state event)"
  unfolding to_state_def by (intro ends_in_bind ends_in_audit keeps_rules)

lemma ends_in_cases:
  assumes "ends_in (server_is (ca_server st)) (server_audited env name ns (ca_server st)) m" and "se_audit_on (ct_svc env)"
    and "m st = (r, st')"
  shows "case r of
      Inl _ \<Rightarrow> ca_server st' = ca_server st
    | Inr _ \<Rightarrow> \<exists>row. sd_audit (ca_server st') = sd_audit (ca_server st) @ [row] \<and>
        au_resource_type row = Some ''context'' \<and> au_resource_name row = Some name \<and> au_namespace row = ns"
  using assms(1) [unfolded ends_in_def, rule_format, of st] assms(2,3)
  by (auto simp: sd_audit_audited audit_row_of_def event_args_def split: sum.splits)


section \<open>The lifecycle\<close>

text \<open>What the engine documents for \<open>SET STATE\<close>: the latest live version gets the state.\<close>

definition engine_sets_state :: "'g catalog_env \<Rightarrow> bool" where
  "engine_sets_state env \<longleftrightarrow>
     (\<forall>ex name ns q state d g rows d' g'. ct_engine env = Some ex \<longrightarrow> qualified_name name ns = Inr q \<longrightarrow>
        ex (state_statement q state) (d, g) = (Inr rows, (d', g')) \<longrightarrow>
        (\<exists>r. latest_row name ns (cd_contexts d') = Some r \<and> cx_lifecycle_state r = state))"

text \<open>
  A lifecycle call that returns has had its effect: with an engine that sets the state it
  is told to, the context that \<open>validate\<close>, \<open>activate\<close> or \<open>retire\<close> returns is in that state and is
  what \<open>get\<close> then gives; an unknown context raises without executing or auditing anything.
\<close>

theorem lifecycle_call_takes_effect:
  assumes "engine_sets_state env" and "ct_engine env = Some ex"
    and "(act, state) = (catalog_validate env name ns, ''validated'') \<or> (act, state) = (catalog_activate env name ns, ''active'') \<or>
      (act, state) = (catalog_retire env name ns, ''retired'')"
  shows "(catalog_get env name ns st = None \<longrightarrow> act st = (Inl (context_not_found name ns), st)) \<and>
    (\<forall>d st'. act st = (Inr d, st') \<longrightarrow> d = catalog_get env name ns st' \<and>
       (\<exists>c. d = Some c \<and> cx_lifecycle_state (xd_row c) = state))"
proof -
  obtain v event where act: "act = to_state env name ns v state event"
    using assms(3) by (auto simp: catalog_validate_def catalog_activate_def catalog_retire_def)
  have "act st = (Inl (context_not_found name ns), st)" if "catalog_get env name ns st = None"
    using that by (simp add: act to_state_def require_context_def bindP_run)
  moreover have "d = catalog_get env name ns st' \<and> (\<exists>c. d = Some c \<and> cx_lifecycle_state (xd_row c) = state)"
    if run: "act st = (Inr d, st')" for d st'
  proof -
    from run obtain q st1 rows st2 where q: "qualified_name name ns = Inr q"
      and ex: "engine_execute ex (state_statement q state) st1 = (Inr rows, st2)"
      and fin: "st' = st2\<lparr>ca_server := ca_server st'\<rparr>" "d = catalog_get env name ns st'"
      by (auto simp: act to_state_def assms(2) catalog_audit_run elim!: bindP_InrD)
    from ex obtain g' where "ex (state_statement q state) (ca_contexts st1, ca_engine st1) = (Inr rows, (ca_contexts st2, g'))"
      by (auto simp: engine_execute_def split: prod.splits)
    then obtain r where "latest_row name ns (cd_contexts (ca_contexts st2)) = Some r" "cx_lifecycle_state r = state"
      using assms(1,2) q unfolding engine_sets_state_def by blast
    moreover have "ca_contexts st' = ca_contexts st2" using fin(1) by (metis catalog_state.select_convs(1) catalog_state.surjective catalog_state.update_convs(2))
    ultimately show ?thesis using fin(2) by (simp add: catalog_get_def context_row_to_dict_def)
  qed
  ultimately show ?thesis by blast
qed

end
