(* ===== verification/Catalog_Examples.thy ===== *)
theory Catalog_Examples
  imports Catalog_Props
begin

text \<open>Concrete runs of the context catalog service, which the properties are applied to.\<close>

definition late_row :: "string \<Rightarrow> context_row" where
  "late_row state = (blank_row 1 ''now'' ''c1'' 1 None)\<lparr>cx_name := ''late'', cx_lifecycle_state := state\<rparr>"

definition late_tables :: "string \<Rightarrow> context_db" where
  "late_tables state = \<lparr>cd_contexts = [late_row state], cd_contexts_seq = 1, cd_snapshots = [], cd_payloads = [], cd_history = []\<rparr>"

definition late_state :: "string \<Rightarrow> unit catalog_state" where
  "late_state state = \<lparr>ca_contexts = late_tables state, ca_server = empty_db, ca_engine = ()\<rparr>"

definition late_engine :: "string \<Rightarrow> (py_exc, context_db \<times> unit, frame_row list) prog" where
  \<comment> \<open>an engine that activates or drops the one context it has\<close>
  "late_engine t =
     (if t = state_statement ''late'' ''active'' then (\<lambda>s. (Inr [], (late_tables ''active'', ())))
      else if t = ''DROP CONTEXT late;'' then (\<lambda>(d, g). (Inr [], (d\<lparr>cd_contexts := []\<rparr>, g)))
      else raise (ValueError ''not understood''))"

definition late_env :: "unit catalog_env" where
  "late_env = \<lparr>ct_engine = Some late_engine, ct_svc = demo_svc_env, ct_records_execution = False,
     ct_now = \<lparr>dt_year = 2026, dt_month = 1, dt_day = 1, dt_hour = 0, dt_minute = 0, dt_second = 0, dt_micro = 0, dt_tz = Some 0\<rparr>\<rparr>"

lemma late_env_sel [simp]:
  "ct_engine late_env = Some late_engine" "ct_svc late_env = demo_svc_env" "\<not> ct_records_execution late_env"
  by (simp_all add: late_env_def)

lemma late_latest: "latest_row ''late'' ''default'' [late_row state] = Some (late_row state)"
  by (simp add: latest_row_def late_row_def blank_row_def row_name_def)

lemma late_get: "catalog_get late_env ''late'' ''default'' (late_state state) = Some (context_row_to_dict demo_svc_env (late_row state))"
  by (simp add: catalog_get_def late_state_def late_tables_def late_latest late_env_def)

lemma late_qualified: "qualified_name ''late'' ''default'' = Inr ''late''"
  by (simp add: qualified_name_def ident_match_def ident_char_def ident_start_def is_digit_def)

lemma state_statement_inj:
  assumes "state_statement q s = state_statement ''late'' ''active''" and "qualified_name name ns = Inr q"
  shows "q = ''late'' \<and> s = ''active''"
proof -
  have "CHR '' '' \<notin> set q"
    using qualified_name_chars [OF assms(2), of "CHR '' ''"] by (auto simp: ident_char_def ident_start_def is_digit_def)
  moreover have "q @ CHR '' '' # ''SET STATE '' @ [quo] @ s @ [quo] @ '';'' = ''late'' @ CHR '' '' # ''SET STATE '' @ [quo] @ ''active'' @ [quo] @ '';''"
    using assms(1) by (simp add: state_statement_def)
  ultimately have "q = ''late'' \<and> ''SET STATE '' @ [quo] @ s @ [quo] @ '';'' = ''SET STATE '' @ [quo] @ ''active'' @ [quo] @ '';''"
    by (intro split_at_char [of "CHR '' ''"]) auto
  then have "q = ''late'' \<and> s @ [quo, CHR '';''] = ''active'' @ [quo, CHR '';'']" by simp
  then show ?thesis by (metis append_same_eq)
qed

lemma late_engine_sets_state: "engine_sets_state late_env"
proof -
  have "latest_row name ns (cd_contexts d') = Some (late_row ''active'') \<and> cx_lifecycle_state (late_row ''active'') = state"
    if q: "qualified_name name ns = Inr q" and run: "late_engine (state_statement q state) (d, g) = (Inr rows, (d', g'))"
    for name ns q state d and g :: unit and rows d' g'
  proof -
    have "state_statement q state \<noteq> ''DROP CONTEXT late;''" by (simp add: state_statement_def)
    with run have t: "state_statement q state = state_statement ''late'' ''active''" and d': "d' = late_tables ''active''"
      by (auto simp: late_engine_def split: if_splits)
    from state_statement_inj [OF t q] q late_qualified have "name = ''late'' \<and> ns = ''default'' \<and> state = ''active''"
      using qualified_name_unique by blast
    then show ?thesis by (simp add: d' late_tables_def late_latest) (simp add: late_row_def)
  qed
  then show ?thesis unfolding engine_sets_state_def late_env_def by fastforce
qed

lemma late_activates:
  "\<exists>d st'. catalog_activate late_env ''late'' ''default'' (late_state ''draft'') = (Inr d, st')"
  by (simp add: catalog_activate_def to_state_def require_context_def late_get bindP_run late_qualified engine_execute_def
      late_engine_def [of "state_statement ''late'' ''active''"] catalog_audit_run)

lemma lifecycle_call_takes_effect_witness:
  "\<exists>c st'. catalog_activate late_env ''late'' ''default'' (late_state ''draft'') = (Inr (Some c), st') \<and>
     cx_lifecycle_state (xd_row c) = ''active''"
proof -
  obtain d st' where run: "catalog_activate late_env ''late'' ''default'' (late_state ''draft'') = (Inr d, st')"
    using late_activates by blast
  from lifecycle_call_takes_effect [OF late_engine_sets_state late_env_sel(1),
      of "catalog_activate late_env ''late'' ''default''" "''active''" "''late''" "''default''" "late_state ''draft''"]
  have "\<exists>c. d = Some c \<and> cx_lifecycle_state (xd_row c) = ''active''" using run by blast
  then show ?thesis using run by blast
qed


lemma only_drafts_deleted_witness:
  "\<exists>e. catalog_delete late_env ''late'' ''default'' (late_state ''active'') = (Inl e, late_state ''active'')"
  using only_drafts_deleted [of late_env "''late''" "''default''" "late_state ''active''"]
  by (simp add: late_get context_row_to_dict_def late_row_def)

lemma catalog_list_agrees_with_get_witness:
  "\<exists>ds. catalog_list late_env (\<lambda>rows. rows) None None 10 0 (late_state ''draft'') = (Inr (ds, int (length ds)), late_state ''draft'') \<and>
     context_row_to_dict demo_svc_env (late_row ''draft'') \<in> set ds"
proof -
  have ok: "contexts_ok (cd_contexts (ca_contexts (late_state ''draft'')))"
    by (simp add: contexts_ok_def late_state_def late_tables_def)
  have "int (length (cd_contexts (ca_contexts (late_state ''draft'')))) \<le> 10" by (simp add: late_state_def late_tables_def)
  moreover have "int64_ok 10" by (simp add: int64_ok_def)
  ultimately obtain ds where "catalog_list late_env (\<lambda>rows. rows) None None 10 0 (late_state ''draft'') = (Inr (ds, int (length ds)), late_state ''draft'')"
    and mem: "\<And>d. d \<in> set ds \<longleftrightarrow> catalog_get late_env (cx_name (xd_row d)) (cx_namespace (xd_row d)) (late_state ''draft'') = Some d"
    using catalog_list_agrees_with_get [OF ok scan_ok_id, of 10 late_env] by blast
  moreover have "cx_name (late_row ''draft'') = ''late''" "cx_namespace (late_row ''draft'') = ''default''"
    by (simp_all add: late_row_def blank_row_def)
  then have "context_row_to_dict demo_svc_env (late_row ''draft'') \<in> set ds"
    unfolding mem by (simp add: context_row_to_dict_def late_get)
  ultimately show ?thesis by blast
qed

end
