(* ===== verification/Catalog_Api.thy ===== *)
theory Catalog_Api
  imports Http_Base Catalog_Examples Provider_Service Identity_Service
begin

text \<open>
  The HTTP handlers over the context catalog, \<open>app/api/catalog.py\<close>, with the response model of
  \<open>app/models/catalog.py\<close>, and the health report, \<open>app/api/health.py\<close>.
\<close>

section \<open>The response model\<close>

record context_response =
  cs_id :: int
  cs_name :: string
  cs_namespace :: string
  cs_version :: int
  cs_definition_text :: string
  cs_entity_key :: string
  cs_has_score :: bool
  cs_score_column :: "string option"
  cs_description :: "string option"
  cs_tags :: "string list option"
  cs_classification :: "string option"
  cs_lifecycle_state :: string
  cs_dependency_refs :: "string list option"
  cs_provider_refs :: "string list option"
  cs_created_at :: string
  cs_updated_at :: string
  cs_last_validated_at :: "string option"
  cs_last_executed_at :: "string option"
  cs_freshness_metadata :: "(string, json) dict option"
  cs_context_id :: "string option"
  cs_definition_hash :: "string option"
  cs_materialization_json :: "string option"
  cs_current_snapshot_version :: "int option"
  cs_data_as_of :: "string option"
  cs_last_refresh_error :: "string option"

fun str_of_json :: "json \<Rightarrow> string option" where
  "str_of_json (JStr t) = Some t"
| "str_of_json _ = None"

fun texts_or_none :: "json \<Rightarrow> string list option option" where
  \<comment> \<open>a value for a field \<open>list[str] | None\<close>\<close>
  "texts_or_none JNull = Some None"
| "texts_or_none (JArr xs) = map_option Some (fit_all str_of_json xs)"
| "texts_or_none _ = None"

fun object_or_none :: "json \<Rightarrow> (string, json) dict option option" where
  \<comment> \<open>a value for a field \<open>dict | None\<close>\<close>
  "object_or_none JNull = Some None"
| "object_or_none (JObj kvs) = Some (Some kvs)"
| "object_or_none _ = None"

definition fit_context :: "context_dict \<Rightarrow> context_response option" where
  "fit_context d =
     (let r = xd_row d in
      case (texts_or_none (xd_tags d), texts_or_none (xd_dependency_refs d), texts_or_none (xd_provider_refs d),
            object_or_none (xd_freshness_metadata d)) of
        (Some tags, Some deps, Some provs, Some fresh) \<Rightarrow>
          Some \<lparr>cs_id = cx_id r, cs_name = cx_name r, cs_namespace = cx_namespace r, cs_version = cx_version r,
                cs_definition_text = cx_definition_text r, cs_entity_key = cx_entity_key r,
                cs_has_score = xd_has_score d, cs_score_column = cx_score_column r,
                cs_description = cx_description r, cs_tags = tags, cs_classification = cx_classification r,
                cs_lifecycle_state = cx_lifecycle_state r, cs_dependency_refs = deps, cs_provider_refs = provs,
                cs_created_at = cx_created_at r, cs_updated_at = cx_updated_at r,
                cs_last_validated_at = cx_last_validated_at r, cs_last_executed_at = cx_last_executed_at r,
                cs_freshness_metadata = fresh, cs_context_id = cx_context_id r,
                cs_definition_hash = cx_definition_hash r, cs_materialization_json = cx_materialization_json r,
                cs_current_snapshot_version = cx_current_snapshot_version r, cs_data_as_of = cx_data_as_of r,
                cs_last_refresh_error = cx_last_refresh_error r\<rparr>
      | _ \<Rightarrow> None)"

definition fit_found :: "context_dict option \<Rightarrow> context_response option" where
  \<comment> \<open>a handler that returns \<open>None\<close> does not fit either\<close>
  "fit_found d = (case d of None \<Rightarrow> None | Some c \<Rightarrow> fit_context c)"

section \<open>Handlers\<close>

type_synonym ('g, 'b) cat_handler = "('g catalog_state, 'b) handler"

definition create_context :: "'g catalog_env \<Rightarrow> context_create \<Rightarrow> ('g, context_response) cat_handler" where
  "create_context env body =
     bindP (catching (any_error 400) (catalog_create env body)) (response_model fit_found)"

definition list_contexts ::
  "'g catalog_env \<Rightarrow> (context_row list \<Rightarrow> context_row list) \<Rightarrow> string option \<Rightarrow> string option \<Rightarrow> int \<Rightarrow> int \<Rightarrow>
   ('g, context_response list \<times> int) cat_handler" where
  "list_contexts env scan ns state lmt off =
     bindP (page_params None lmt off) (\<lambda>_.
     bindP (catching Uncaught (catalog_list env scan ns state lmt off)) (\<lambda>(ds, total).
     bindP (response_model (fit_all fit_context) ds) (\<lambda>rs. ret (rs, total))))"

definition existing_context :: "'g catalog_env \<Rightarrow> string \<Rightarrow> string \<Rightarrow> ('g, context_dict) cat_handler" where
  "existing_context env name ns = existing (not_found ''Context'' name) (catalog_get env name ns)"

definition get_context :: "'g catalog_env \<Rightarrow> string \<Rightarrow> string \<Rightarrow> ('g, context_response) cat_handler" where
  "get_context env name ns = bindP (existing_context env name ns) (response_model fit_context)"

definition update_context :: "'g catalog_env \<Rightarrow> string \<Rightarrow> string \<Rightarrow> context_update \<Rightarrow> ('g, context_response) cat_handler" where
  "update_context env name ns body =
     bindP (existing_context env name ns) (\<lambda>_.
     bindP (catching (value_error 400) (catalog_update env name ns body)) (response_model fit_found))"

definition validate_context :: "'g catalog_env \<Rightarrow> string \<Rightarrow> string \<Rightarrow> ('g, context_response) cat_handler" where
  "validate_context env name ns =
     bindP (existing_context env name ns) (\<lambda>_.
     bindP (catching (value_error 400) (catalog_validate env name ns)) (response_model fit_found))"

definition activate_context :: "'g catalog_env \<Rightarrow> string \<Rightarrow> string \<Rightarrow> ('g, context_response) cat_handler" where
  "activate_context env name ns =
     bindP (existing_context env name ns) (\<lambda>_.
     bindP (catching (value_error 400) (catalog_activate env name ns)) (response_model fit_found))"

definition retire_context :: "'g catalog_env \<Rightarrow> string \<Rightarrow> string \<Rightarrow> ('g, context_response) cat_handler" where
  "retire_context env name ns =
     bindP (existing_context env name ns) (\<lambda>_.
     bindP (catching (value_error 400) (catalog_retire env name ns)) (response_model fit_found))"

definition delete_refused :: "string \<Rightarrow> http_exc" where
  "delete_refused state =
     HttpError 400 (''Cannot delete context in '' @ [quo] @ state @ [quo] @ '' state; only draft contexts can be deleted'')"

definition delete_context :: "'g catalog_env \<Rightarrow> string \<Rightarrow> string \<Rightarrow> ('g, unit) cat_handler" where
  "delete_context env name ns =
     bindP (existing_context env name ns) (\<lambda>d.
     bindP (guardP (cx_lifecycle_state (xd_row d) = ''draft'') (delete_refused (cx_lifecycle_state (xd_row d)))) (\<lambda>_.
     bindP (catching Uncaught (catalog_delete env name ns)) (\<lambda>_. ret ())))"

definition list_versions :: "'g catalog_env \<Rightarrow> string \<Rightarrow> string \<Rightarrow> ('g, context_response list) cat_handler" where
  "list_versions env name ns = bindP (readP (catalog_versions env name ns)) (response_model (fit_all fit_context))"

definition preview_context :: "'g catalog_env \<Rightarrow> string \<Rightarrow> string \<Rightarrow> int \<Rightarrow> ('g, frame_row list) cat_handler" where
  "preview_context env name ns lmt =
     bindP (guardP (1 \<le> lmt) Unprocessable) (\<lambda>_.
     bindP (existing_context env name ns) (\<lambda>_.
     catching (value_error 400) (catalog_preview env name ns lmt)))"

definition refresh_context :: "'g catalog_env \<Rightarrow> string \<Rightarrow> string \<Rightarrow> ('g, context_response) cat_handler" where
  "refresh_context env name ns =
     bindP (catching (value_error 400) (catalog_refresh env name ns)) (response_model fit_found)"

definition list_snapshots :: "'g catalog_env \<Rightarrow> string \<Rightarrow> string \<Rightarrow> int \<Rightarrow> int \<Rightarrow> ('g, snapshot_row list) cat_handler" where
  "list_snapshots env name ns lmt off =
     bindP (page_params (Some 1000) lmt off) (\<lambda>_. catching (value_error 404) (snapshots_page env name ns lmt off))"

definition list_history ::
  "'g catalog_env \<Rightarrow> string \<Rightarrow> string \<Rightarrow> string option \<Rightarrow> string option \<Rightarrow> int \<Rightarrow> int \<Rightarrow> ('g, history_row list) cat_handler" where
  "list_history env name ns start until lmt off =
     bindP (page_params (Some 1000) lmt off) (\<lambda>_. catching (value_error 404) (history_page env name ns start until lmt off))"

section \<open>Health\<close>

record health_response =
  hr_status :: string
  hr_version :: string
  hr_engine_version :: string
  hr_tables :: "string list"
  hr_contexts :: "string list"
  hr_catalog_contexts :: int
  hr_registered_providers :: int
  hr_identity_maps :: int

text \<open>\<open>engine.catalog\<close> and the version of the engine are parameters.\<close>

definition health ::
  "'g catalog_env \<Rightarrow> string \<Rightarrow> ('g \<Rightarrow> string list \<times> string list) \<Rightarrow> ('g, health_response) cat_handler" where
  "health env engine_version engine_catalog =
     bindP (catching Uncaught (catalog_list env (\<lambda>rows. rows) None None 0 0)) (\<lambda>(_, catalog_count).
     bindP (catching Uncaught (on_server (provider_list (ct_svc env) (\<lambda>rows. rows) None None 0 0))) (\<lambda>(_, provider_count).
     bindP (catching Uncaught (on_server (identity_list (\<lambda>rows. rows) None 0 0))) (\<lambda>(_, identity_count).
     bindP (readP (\<lambda>st. engine_catalog (ca_engine st))) (\<lambda>(tables, contexts).
     ret \<lparr>hr_status = ''ok'', hr_version = ''0.3.0'', hr_engine_version = engine_version, hr_tables = tables,
          hr_contexts = contexts, hr_catalog_contexts = catalog_count, hr_registered_providers = provider_count,
          hr_identity_maps = identity_count\<rparr>))))"

section \<open>What a client sees\<close>

lemma existing_context_run:
  "existing_context env name ns st =
     (case catalog_get env name ns st of None \<Rightarrow> Inl (not_found ''Context'' name) | Some d \<Rightarrow> Inr d, st)"
  by (simp add: existing_context_def existing_run)

lemma status_response_model [simp]: "status 200 (fst (response_model fit v s)) \<noteq> 404"
  by (simp add: response_model_run split: option.split)

lemma after_existing_status:
  assumes "\<And>d. status 200 (fst (f d st)) \<noteq> 404"
  shows "(status 200 (fst (bindP (existing_context env name ns) f st)) = 404) = (catalog_get env name ns st = None)"
    and "catalog_get env name ns st = None \<Longrightarrow> bindP (existing_context env name ns) f st = (Inl (not_found ''Context'' name), st)"
  using assms by (auto simp: bindP_run existing_context_run split: option.splits)

lemma catching_then_model_status:
  assumes "n \<noteq> 404"
  shows "status 200 (fst (bindP (catching (value_error n) m) (response_model fit) st)) \<noteq> 404"
proof (cases "m st")
  case (Pair r st')
  then show ?thesis using assms
    by (cases r) (auto simp: bindP_run catching_Inl catching_Inr split: py_exc.splits)
qed

lemma catching_status: "n \<noteq> 404 \<Longrightarrow> status 200 (fst (catching (value_error n) m st)) \<noteq> 404"
  by (auto simp: catching_run split: prod.splits sum.splits py_exc.splits)

lemma missing_page:
  assumes "catalog_get env name ns st = None"
  shows "\<exists>m. snapshots_page env name ns lmt off st = (Inl (ValueError m), st)"
    and "\<exists>m. history_page env name ns start until lmt off st = (Inl (ValueError m), st)"
  using assms by (simp_all add: snapshots_page_def history_page_def require_context_def bindP_run)

lemma found_page:
  assumes "catalog_get env name ns st = Some d"
  shows "fst (snapshots_page env name ns lmt off st) \<noteq> Inl (ValueError m)"
    and "fst (history_page env name ns start until lmt off st) \<noteq> Inl (ValueError m)"
  using assms
  by (auto simp: snapshots_page_def history_page_def require_context_def bindP_run bind_int_def guardP_run overflow_error_def)

definition missing_is_404 :: "'g catalog_env \<Rightarrow> string \<Rightarrow> string \<Rightarrow> 'g catalog_state \<Rightarrow> ('g, 'b) cat_handler \<Rightarrow> bool" where
  \<comment> \<open>404 if and only if \<open>get\<close> finds nothing, and then nothing happens\<close>
  "missing_is_404 env name ns st op \<longleftrightarrow>
     (status 200 (fst (op st)) = 404) = (catalog_get env name ns st = None) \<and>
     (catalog_get env name ns st = None \<longrightarrow> (\<exists>d. op st = (Inl (HttpError 404 d), st)))"

lemma missing_is_404_existing:
  assumes "\<And>d. status 200 (fst (f d st)) \<noteq> 404"
  shows "missing_is_404 env name ns st (bindP (existing_context env name ns) f)"
  using after_existing_status [of f st env name ns, OF assms] by (simp add: missing_is_404_def not_found_def)

lemma missing_is_404_catching:
  assumes "catalog_get env name ns st = None \<Longrightarrow> \<exists>m. op st = (Inl (ValueError m), st)"
    and "\<And>d m. catalog_get env name ns st = Some d \<Longrightarrow> fst (op st) \<noteq> Inl (ValueError m)"
  shows "missing_is_404 env name ns st (catching (value_error 404) op)"
proof (cases "catalog_get env name ns st")
  case None
  with assms(1) show ?thesis by (auto simp: missing_is_404_def catching_Inl)
next
  case (Some d)
  with assms(2) [OF Some] show ?thesis
    by (cases "op st"; cases "fst (op st)") (auto simp: missing_is_404_def catching_run split: py_exc.splits)
qed

lemma delete_status: "status 200 (fst (bindP (guardP b (delete_refused state)) (\<lambda>_. bindP (catching Uncaught m) (\<lambda>_. ret ())) st)) \<noteq> 404"
  by (auto simp: bindP_run guardP_run delete_refused_def catching_run split: prod.splits sum.splits)

text \<open>
  A context that is not there is a 404 and nothing else is. Every request about one
  context (with admissible page parameters) answers 404 if and only if \<open>get\<close> finds no live version
  of it, and then neither the tables nor the audit log nor the engine has changed. (Creating and
  refreshing do not look the context up, and listing the versions never answers 404.)
\<close>

theorem context_api_missing:
  assumes "1 \<le> lmt" and "lmt \<le> 1000" and "0 \<le> off"
  shows "(\<forall>op \<in> {get_context env name ns, update_context env name ns u, validate_context env name ns,
            activate_context env name ns, retire_context env name ns}. missing_is_404 env name ns st op) \<and>
    missing_is_404 env name ns st (delete_context env name ns) \<and>
    missing_is_404 env name ns st (preview_context env name ns lmt) \<and>
    missing_is_404 env name ns st (list_snapshots env name ns lmt off) \<and>
    missing_is_404 env name ns st (list_history env name ns start until lmt off)"
proof -
  have model: "status 200 (fst (bindP (catching (value_error 400) m) (response_model fit_found) st)) \<noteq> 404" for m
    by (rule catching_then_model_status) simp
  have "missing_is_404 env name ns st (get_context env name ns)"
    unfolding get_context_def by (intro missing_is_404_existing status_response_model)
  moreover have "missing_is_404 env name ns st (update_context env name ns u)"
    "missing_is_404 env name ns st (validate_context env name ns)"
    "missing_is_404 env name ns st (activate_context env name ns)"
    "missing_is_404 env name ns st (retire_context env name ns)"
    unfolding update_context_def validate_context_def activate_context_def retire_context_def
    by (intro missing_is_404_existing model)+
  moreover have "missing_is_404 env name ns st (delete_context env name ns)"
    unfolding delete_context_def by (intro missing_is_404_existing delete_status)
  moreover have "missing_is_404 env name ns st (preview_context env name ns lmt)"
    unfolding preview_context_def using assms(1) by (auto intro!: missing_is_404_existing catching_status)
  moreover have pages: "bindP (page_params (Some 1000) lmt off) (\<lambda>_. op) = op" for op :: "('a, 'c) cat_handler"
    using assms by (simp add: page_params_def)
  have "missing_is_404 env name ns st (list_snapshots env name ns lmt off)"
    unfolding list_snapshots_def pages by (intro missing_is_404_catching missing_page found_page)
  moreover have pages: "bindP (page_params (Some 1000) lmt off) (\<lambda>_. op) = op" for op :: "('a, 'c) cat_handler"
    using assms by (simp add: page_params_def)
  have "missing_is_404 env name ns st (list_history env name ns start until lmt off)"
    unfolding list_history_def pages by (intro missing_is_404_catching missing_page found_page)
  ultimately show ?thesis by blast
qed

text \<open>
  What a creation answers. 201 comes with the context that \<open>get\<close> now finds and exactly one audit
  event for it; every exception on the way, of whatever class, is answered as 400 with its text and
  leaves the audit log as it was; only a stored row that does not fit the response is a 500.
\<close>

theorem create_context_answer:
  assumes "se_audit_on (ct_svc env)"
  shows "case create_context env b st of
      (Inr r, st') \<Rightarrow> (\<exists>d. catalog_get env (cc_name b) (cc_namespace b) st' = Some d \<and> fit_context d = Some r) \<and>
        (\<exists>row. sd_audit (ca_server st') = sd_audit (ca_server st) @ [row] \<and> au_resource_name row = Some (cc_name b))
    | (Inl e, st') \<Rightarrow> (case e of HttpError n m \<Rightarrow> n = 400 \<and> ca_server st' = ca_server st | _ \<Rightarrow> e = ResponseInvalid)"
proof -
  obtain r st' where run: "catalog_create env b st = (r, st')" by fastforce
  note audit = ends_in_cases [OF ends_in_create assms run]
  show ?thesis
  proof (cases r)
    case (Inl e)
    with run audit show ?thesis by (simp add: create_context_def bindP_run catching_Inl any_error_def)
  next
    case (Inr d)
    have "d = catalog_get env (cc_name b) (cc_namespace b) st'"
      using run Inr by (auto simp: catalog_create_def elim!: bindP_InrD)
    with run Inr audit show ?thesis
      by (auto simp: create_context_def bindP_run catching_Inr response_model_run fit_found_def split: option.splits)
  qed
qed

section \<open>The counts of the health report\<close>

lemma latest_names:
  assumes "contexts_ok rows"
  shows "int (length (list_base None None rows)) = int (card {k. latest_row (fst k) (snd k) rows \<noteq> None})"
proof -
  let ?base = "list_base None None rows"
  note base = list_base_unfiltered [OF assms]
  have "distinct ?base" using contexts_ok_distinct [OF assms] by (simp add: base)
  moreover note list_base_names_inj [OF assms]
  moreover have "row_name ` set ?base = {k. latest_row (fst k) (snd k) rows \<noteq> None}"
  proof (intro set_eqI iffI)
    fix k assume "k \<in> {k. latest_row (fst k) (snd k) rows \<noteq> None}"
    then obtain r where r: "latest_row (fst k) (snd k) rows = Some r" by auto
    then have "r \<in> set rows" "row_name r = k" using latest_row_Some [OF assms] by auto
    then show "k \<in> row_name ` set ?base" using r by (force simp: base row_name_def)
  qed (auto simp: base row_name_def)
  ultimately show ?thesis by (metis card_image distinct_card)
qed

lemma select_key_count:
  assumes "distinct (map key rows)"
  shows "length rows = card {k. select_key key k rows \<noteq> None}"
proof -
  have "{k. select_key key k rows \<noteq> None} = set (map key rows)"
    by (auto simp: select_key_None)
  then show ?thesis using distinct_card [OF assms] by simp
qed

text \<open>
  The health report counts what the services give: the names with a live context, the
  registered providers and the registered identity maps, each as many as \<open>get\<close> finds, whatever the
  page limits; and it changes nothing.
\<close>

theorem health_counts:
  assumes "contexts_ok (cd_contexts (ca_contexts st))" and "provider_wf (ca_server st)" and "identity_wf (ca_server st)"
  shows "\<exists>h. health env v ec st = (Inr h, st) \<and> hr_status h = ''ok'' \<and>
    hr_catalog_contexts h = int (card {k. catalog_get env (fst k) (snd k) st \<noteq> None}) \<and>
    hr_registered_providers h = int (card {k. provider_get (ct_svc env) (fst k) (snd k) (ca_server st) \<noteq> None}) \<and>
    hr_identity_maps h = int (card {k. identity_get (fst k) (snd k) (ca_server st) \<noteq> None})"
proof -
  have "int64_ok 0" by (simp add: int64_ok_def)
  moreover have "card {k. provider_get (ct_svc env) (fst k) (snd k) (ca_server st) \<noteq> None} = length (sd_providers (ca_server st))"
    using select_key_count [of provider_key "sd_providers (ca_server st)"] assms(2) by (simp add: provider_wf_def provider_get_def)
  moreover have "card {k. identity_get (fst k) (snd k) (ca_server st) \<noteq> None} = length (sd_identity (ca_server st))"
    using select_key_count [of identity_key "sd_identity (ca_server st)"] assms(3) by (simp add: identity_wf_def identity_get_def)
  moreover have "{k. catalog_get env (fst k) (snd k) st \<noteq> None} =
      {k. latest_row (fst k) (snd k) (cd_contexts (ca_contexts st)) \<noteq> None}" by (simp add: catalog_get_def)
  ultimately show ?thesis
    using latest_names [OF assms(1)]
    by (simp add: health_def bindP_run catalog_list_def bind_int_def catching_Inr on_server_def provider_list_def
        identity_list_def opt_filter_def split: prod.split)
qed

section \<open>Examples\<close>

definition late_create :: context_create where
  "late_create = \<lparr>cc_name = ''late'', cc_definition_text = ''SELECT 1'', cc_entity_key = ''id'', cc_namespace = ''default'',
     cc_has_score = False, cc_score_column = None, cc_description = None, cc_tags = None, cc_classification = ''internal''\<rparr>"

definition making_engine :: "bool \<Rightarrow> string \<Rightarrow> (py_exc, context_db \<times> unit, frame_row list) prog" where
  \<comment> \<open>an engine that makes the context; altering it may fail\<close>
  "making_engine alters t =
     (if t = create_statement ''late'' late_create then (\<lambda>s. (Inr [], (late_tables ''draft'', ())))
      else if alters then ret [] else raise (RuntimeError ''connection lost''))"

definition making_env :: "bool \<Rightarrow> unit catalog_env" where
  "making_env alters = late_env\<lparr>ct_engine := Some (making_engine alters)\<rparr>"

definition empty_state :: "unit catalog_state" where
  "empty_state = \<lparr>ca_contexts = (late_tables ''draft'')\<lparr>cd_contexts := []\<rparr>, ca_server = empty_db, ca_engine = ()\<rparr>"

lemma making_env_sel [simp]:
  "ct_engine (making_env alters) = Some (making_engine alters)" "ct_svc (making_env alters) = demo_svc_env"
  by (simp_all add: making_env_def)

lemma create_not_alter: "create_statement q b \<noteq> state_statement q' s"
  by (simp add: create_statement_def state_statement_def Let_def)

lemma making_runs:
  "catalog_create (making_env alters) late_create empty_state =
     (let st1 = late_state ''draft''
      in if alters
         then (Inr (Some (context_row_to_dict demo_svc_env (late_row ''draft''))),
               st1\<lparr>ca_server := audited demo_svc_env (event_args ''context'' ''context.created'' ''late'' ''default'' (Some (JObj [(''version'', JInt 1)]))) empty_db\<rparr>)
         else (Inl (RuntimeError ''connection lost''), st1))"
proof -
  have sel: "cc_name late_create = ''late''" "cc_namespace late_create = ''default''" "\<not> cc_has_score late_create"
    by (simp_all add: late_create_def)
  have made: "engine_execute (making_engine alters) (create_statement ''late'' late_create) empty_state = (Inr [], late_state ''draft'')"
    by (simp add: engine_execute_def making_engine_def empty_state_def late_state_def)
  have altered: "engine_execute (making_engine alters) (state_statement ''late'' ''draft'') (late_state ''draft'') =
      (if alters then Inr [] else Inl (RuntimeError ''connection lost''), late_state ''draft'')"
    using create_not_alter [of "''late''" late_create "''late''" "''draft''"]
    by (auto simp: engine_execute_def making_engine_def late_state_def)
  have got: "catalog_get (making_env b) ''late'' ''default'' (st\<lparr>ca_server := s\<rparr>) = catalog_get late_env ''late'' ''default'' st"
    for st :: "unit catalog_state" and s b
    by (simp add: catalog_get_def)
  have server: "ca_server (late_state ''draft'') = empty_db" by (simp add: late_state_def)
  show ?thesis
    by (simp add: catalog_create_def require_engine_def sel late_qualified bindP_run made altered catalog_audit_run got late_get server
        Let_def)
qed

text \<open>A creation that answers 400 may have created the context: its statements are not one transaction.\<close>

lemma refused_creation_stays:
  "\<exists>st'. create_context (making_env False) late_create empty_state = (Inl (HttpError 400 ''connection lost''), st') \<and>
     catalog_get (making_env False) ''late'' ''default'' st' \<noteq> None \<and>
     catalog_get (making_env False) ''late'' ''default'' empty_state = None"
proof -
  have "catalog_get (making_env False) ''late'' ''default'' (late_state ''draft'') \<noteq> None"
    using late_get [of "''draft''"] by (auto simp: catalog_get_def)
  moreover have "catalog_get (making_env False) ''late'' ''default'' empty_state = None"
    by (simp add: catalog_get_def empty_state_def latest_row_def)
  ultimately show ?thesis
    using making_runs [of False] by (simp add: create_context_def bindP_run catching_Inl any_error_def Let_def)
qed

lemma create_context_answer_witness:
  "\<exists>r st'. create_context (making_env True) late_create empty_state = (Inr r, st') \<and> cs_name r = ''late'' \<and>
     length (sd_audit (ca_server st')) = 1"
proof -
  obtain st' where run: "catalog_create (making_env True) late_create empty_state =
      (Inr (Some (context_row_to_dict demo_svc_env (late_row ''draft''))), st')"
    using making_runs [of True] by (simp add: Let_def)
  have "fit_context (context_row_to_dict demo_svc_env (late_row ''draft'')) \<noteq> None"
    by (simp add: fit_context_def context_row_to_dict_def late_row_def blank_row_def parsed_text_def)
  then obtain r where r: "fit_context (context_row_to_dict demo_svc_env (late_row ''draft'')) = Some r" by blast
  then have "create_context (making_env True) late_create empty_state = (Inr r, st')"
    using run by (simp add: create_context_def bindP_run catching_Inr response_model_run fit_found_def)
  moreover have "cs_name r = ''late''"
    using r by (auto simp: fit_context_def context_row_to_dict_def late_row_def blank_row_def parsed_text_def)
  moreover have "se_audit_on (ct_svc (making_env True))" by (simp add: demo_svc_env_def)
  from create_context_answer [OF this, where b = late_create and st = empty_state]
  have "length (sd_audit (ca_server st')) = 1"
    unfolding calculation(1) by (auto simp: empty_state_def empty_db_def)
  ultimately show ?thesis by blast
qed

lemma context_api_missing_witness:
  "\<exists>d. delete_context late_env ''nobody'' ''default'' (late_state ''draft'') = (Inl (HttpError 404 d), late_state ''draft'')"
proof -
  have "catalog_get late_env ''nobody'' ''default'' (late_state ''draft'') = None"
    by (simp add: catalog_get_def late_state_def late_tables_def latest_row_def late_row_def blank_row_def row_name_def)
  with context_api_missing [where lmt = 10 and off = 0 and env = late_env and name = "''nobody''" and ns = "''default''"
      and st = "late_state ''draft''"]
  show ?thesis by (simp add: missing_is_404_def)
qed

lemma health_counts_witness:
  "\<exists>h. health late_env ''1'' (\<lambda>_. ([], [])) (late_state ''draft'') = (Inr h, late_state ''draft'') \<and> hr_registered_providers h = 0"
proof -
  have "contexts_ok (cd_contexts (ca_contexts (late_state ''draft'')))"
    by (simp add: contexts_ok_def late_state_def late_tables_def)
  moreover have "provider_wf (ca_server (late_state ''draft''))" "identity_wf (ca_server (late_state ''draft''))"
    by (simp_all add: late_state_def provider_wf_def identity_wf_def empty_db_def)
  ultimately show ?thesis
    using health_counts [of "late_state ''draft''" late_env "''1''" "\<lambda>_. ([], [])"]
    by (auto simp: provider_get_def late_state_def empty_db_def select_key_def)
qed

end
