(* ===== verification/Query_Service.thy ===== *)
theory Query_Service
  imports Json
begin

text \<open>
  The query service (\<open>app/services/query_service.py\<close>): the configured limits, the check that a
  SELECT carries a small enough LIMIT, and the execution of a query with its rows made JSON
  compliant and their encoded size bounded. The engine is a parameter: what \<open>analyze_sql\<close> says of
  the text and what executing it raises or returns. So is the rounded elapsed time.
\<close>

section \<open>Results of the engine\<close>

record 't engine_result =
  er_rows :: "frame_row list"          \<comment> \<open>\<open>to_pandas().to_dict(orient="records")\<close>\<close>
  er_row_count :: int
  er_columns :: "string list"
  er_sql :: string
  er_diagnostics :: "string list"      \<comment> \<open>each with \<open>str\<close> applied\<close>
  er_trace :: "'t option"

datatype analysis =
    AnalysisFailed                     \<comment> \<open>not \<open>ok\<close>, or no statements\<close>
  | QueryStatement "int option"        \<comment> \<open>the first statement is a \<open>QueryModel\<close>, with its limit\<close>
  | OtherStatement

record ('g, 't) query_engine =
  qe_analyze :: "string \<Rightarrow> 'g \<Rightarrow> py_exc + analysis"
  qe_execute :: "string \<Rightarrow> (py_exc, 'g, 't engine_result) prog"

section \<open>The service\<close>

record query_limits =
  ql_max_result_rows :: int
  ql_max_response_bytes :: int

definition query_service_init :: "int \<Rightarrow> int \<Rightarrow> py_exc + query_limits" where
  "query_service_init max_rows max_bytes =
     (if max_rows \<le> 0 \<or> max_bytes \<le> 0 then Inl (ValueError ''Query result limits must be positive.'')
      else Inr \<lparr>ql_max_result_rows = max_rows, ql_max_response_bytes = max_bytes\<rparr>)"

definition limit_missing :: py_exc where
  "limit_missing = ValueError ''[E305] server SELECT queries require an explicit LIMIT.''"

definition limit_too_large :: "query_limits \<Rightarrow> py_exc" where
  "limit_too_large ql =
     ValueError (''[E305] query LIMIT exceeds the configured maximum of '' @ show_int (ql_max_result_rows ql) @ '' rows.'')"

definition response_too_large :: "query_limits \<Rightarrow> py_exc" where
  "response_too_large ql =
     ValueError (''[E306] encoded query response exceeds the configured maximum of ''
       @ show_int (ql_max_response_bytes ql) @ '' bytes.'')"

definition check_limit :: "query_limits \<Rightarrow> analysis \<Rightarrow> py_exc + unit" where
  "check_limit ql a =
     (case a of
        AnalysisFailed \<Rightarrow> Inr ()
      | OtherStatement \<Rightarrow> Inr ()
      | QueryStatement None \<Rightarrow> Inl limit_missing
      | QueryStatement (Some n) \<Rightarrow> if ql_max_result_rows ql < n then Inl (limit_too_large ql) else Inr ())"

definition validate_select_limit :: "query_limits \<Rightarrow> ('g, 't) query_engine \<Rightarrow> string \<Rightarrow> (py_exc, 'g, unit) prog" where
  "validate_select_limit ql en query_text =
     bindP (readP (qe_analyze en query_text)) (\<lambda>r. bindP (liftE r) (\<lambda>a. liftE (check_limit ql a)))"

definition finite_cell :: "py_cell \<Rightarrow> py_cell" where
  \<comment> \<open>a float that is NaN or infinite becomes \<open>None\<close>; a float is its text\<close>
  "finite_cell c =
     (case c of
        JsonCell (JFloat t) \<Rightarrow> if t \<in> {''NaN'', ''Infinity'', ''-Infinity''} then JsonCell JNull else c
      | _ \<Rightarrow> c)"

definition finite_row :: "frame_row \<Rightarrow> frame_row" where
  "finite_row row = map (\<lambda>(k, v). (k, finite_cell v)) row"

fun cell_json :: "py_cell \<Rightarrow> json" where
  \<comment> \<open>\<open>default=str\<close>\<close>
  "cell_json (JsonCell j) = j"
| "cell_json (OtherCell t) = JStr t"

definition row_json :: "frame_row \<Rightarrow> json" where
  "row_json row = JObj (map (\<lambda>(k, v). (k, cell_json v)) row)"

fun bounded_size :: "query_limits \<Rightarrow> int \<Rightarrow> frame_row list \<Rightarrow> py_exc + int" where
  \<comment> \<open>the loop over the rows, from the size so far; the text is ASCII, so its UTF-8 length is its length\<close>
  "bounded_size ql size0 [] = Inr size0"
| "bounded_size ql size0 (row # rows) =
     (let size1 = size0 + int (length (json_compact (row_json row))) + 1
      in if size1 > ql_max_response_bytes ql then Inl (response_too_large ql)
         else bounded_size ql size1 rows)"

record query_meta =
  qm_execution_time_ms :: string
  qm_row_count :: int
  qm_columns :: "string list"
  qm_generated_sql :: string
  qm_diagnostics :: "string list"

record 't query_result =
  qr_rows :: "frame_row list"
  qr_meta :: query_meta
  qr_trace :: "'t option"

definition query_execute ::
  "query_limits \<Rightarrow> ('g, 't) query_engine \<Rightarrow> string \<Rightarrow> string \<Rightarrow> (py_exc, 'g, 't query_result) prog" where
  "query_execute ql en elapsed query_text =
     bindP (validate_select_limit ql en query_text) (\<lambda>_.
     bindP (qe_execute en query_text) (\<lambda>res.
     let rows = map finite_row (er_rows res) in
     bindP (liftE (bounded_size ql 2 rows)) (\<lambda>_.
     ret \<lparr>qr_rows = rows,
          qr_meta = \<lparr>qm_execution_time_ms = elapsed, qm_row_count = er_row_count res, qm_columns = er_columns res,
                     qm_generated_sql = er_sql res, qm_diagnostics = er_diagnostics res\<rparr>,
          qr_trace = er_trace res\<rparr>)))"

definition execute_response ::
  "query_limits \<Rightarrow> ('g, 't) query_engine \<Rightarrow> string \<Rightarrow> string \<Rightarrow> (py_exc, 'g, frame_row list \<times> query_meta) prog" where
  "execute_response ql en elapsed query_text =
     bindP (query_execute ql en elapsed query_text) (\<lambda>r. ret (qr_rows r, qr_meta r))"

section \<open>The limit check\<close>

text \<open>Whether a text passes the check: the engine has not run yet.\<close>

definition admitted :: "query_limits \<Rightarrow> ('g, 't) query_engine \<Rightarrow> string \<Rightarrow> 'g \<Rightarrow> bool" where
  "admitted ql en q g \<longleftrightarrow>
     (\<exists>a. qe_analyze en q g = Inr a \<and>
        (case a of QueryStatement None \<Rightarrow> False | QueryStatement (Some n) \<Rightarrow> n \<le> ql_max_result_rows ql | _ \<Rightarrow> True))"

lemma validate_run:
  "validate_select_limit ql en q g = (bindE (qe_analyze en q g) (check_limit ql), g)"
  by (cases "qe_analyze en q g") (simp_all add: validate_select_limit_def bindP_run)

lemma check_limit_Inr:
  "check_limit ql a = Inr u \<longleftrightarrow>
     (case a of QueryStatement None \<Rightarrow> False | QueryStatement (Some n) \<Rightarrow> n \<le> ql_max_result_rows ql | _ \<Rightarrow> True)"
  by (auto simp: check_limit_def not_less split: analysis.splits option.splits)

lemma admitted_iff: "admitted ql en q g \<longleftrightarrow> fst (validate_select_limit ql en q g) = Inr ()"
  by (simp add: validate_run bindE_Inr check_limit_Inr admitted_def)

lemma not_admitted: "\<not> admitted ql en q g \<Longrightarrow> \<exists>e. query_execute ql en t q g = (Inl e, g)"
  using validate_run [of ql en q g]
  by (cases "fst (validate_select_limit ql en q g)") (auto simp: admitted_iff query_execute_def bindP_run)

lemma admitted_run:
  assumes "admitted ql en q g"
  shows "query_execute ql en t q g = bindP (qe_execute en q) (\<lambda>res.
     let rows = map finite_row (er_rows res) in
     bindP (liftE (bounded_size ql 2 rows)) (\<lambda>_.
     ret \<lparr>qr_rows = rows,
          qr_meta = \<lparr>qm_execution_time_ms = t, qm_row_count = er_row_count res, qm_columns = er_columns res,
                     qm_generated_sql = er_sql res, qm_diagnostics = er_diagnostics res\<rparr>,
          qr_trace = er_trace res\<rparr>)) g"
proof -
  have "validate_select_limit ql en q g = (Inr (), g)"
    using assms by (simp add: admitted_iff validate_run)
  then show ?thesis unfolding query_execute_def by (rule bindP_Inr)
qed

text \<open>
  C28: the engine runs only what passes the limit check. A SELECT without LIMIT, or with one above
  the configured maximum, raises [E305] and leaves the engine's state as it was, and so does a text
  whose analysis raises; whatever changed the engine, or came back with rows, had passed it.
\<close>

theorem unlimited_select_refused:
  shows "(qe_analyze en q g = Inr (QueryStatement None) \<longrightarrow> query_execute ql en t q g = (Inl limit_missing, g)) \<and>
    (\<forall>n. qe_analyze en q g = Inr (QueryStatement (Some n)) \<longrightarrow> ql_max_result_rows ql < n \<longrightarrow>
       query_execute ql en t q g = (Inl (limit_too_large ql), g)) \<and>
    (\<not> admitted ql en q g \<longrightarrow> snd (query_execute ql en t q g) = g \<and> (\<exists>e. fst (query_execute ql en t q g) = Inl e))"
proof -
  have "query_execute ql en t q g = (Inl e, g)" if "bindE (qe_analyze en q g) (check_limit ql) = Inl e" for e
    using that validate_run [of ql en q g] by (simp add: query_execute_def bindP_Inl)
  moreover have "snd (query_execute ql en t q g) = g \<and> (\<exists>e. fst (query_execute ql en t q g) = Inl e)" if "\<not> admitted ql en q g"
    using not_admitted [OF that, of t] by auto
  ultimately show ?thesis by (auto simp: check_limit_def)
qed

section \<open>The size of a response\<close>

definition encoded_rows :: "frame_row list \<Rightarrow> string" where
  \<comment> \<open>the rows as one compact JSON array\<close>
  "encoded_rows rows = json_compact (JArr (map row_json rows))"

lemma join_text_length:
  "length (join_text [sep] xs) = (\<Sum>x\<leftarrow>xs. length x) + (length xs - 1)"
proof (induction xs)
  case (Cons x xs)
  then show ?case by (cases xs) simp_all
qed simp

lemma encoded_length:
  assumes "rows \<noteq> []"
  shows "int (length (encoded_rows rows)) + 1 = 2 + (\<Sum>r\<leftarrow>rows. int (length (json_compact (row_json r))) + 1)"
proof -
  have "(\<Sum>r\<leftarrow>rows. int (length (json_compact (row_json r))) + 1) = int (\<Sum>r\<leftarrow>rows. length (json_compact (row_json r))) + int (length rows)"
    by (induction rows) auto
  moreover have "int (length rows - 1) = int (length rows) - 1" using assms by (cases rows) auto
  ultimately show ?thesis by (simp add: encoded_rows_def join_text_length comp_def)
qed

lemma bounded_size_iff:
  assumes "rows \<noteq> []"
  shows "bounded_size ql size0 rows =
    (let s = size0 + (\<Sum>r\<leftarrow>rows. int (length (json_compact (row_json r))) + 1)
     in if s \<le> ql_max_response_bytes ql then Inr s else Inl (response_too_large ql))"
  using assms
proof (induction rows arbitrary: size0)
  case (Cons row rows)
  have "0 \<le> (\<Sum>r\<leftarrow>rows. int (length (json_compact (row_json r))) + 1)"
    by (rule sum_list_nonneg) auto
  with Cons.IH [of "size0 + int (length (json_compact (row_json row))) + 1"] show ?case
    by (cases "rows = []") (auto simp: Let_def)
qed simp

lemma query_response_bounded_run:
  assumes "query_service_init max_rows max_bytes = Inr ql" and "admitted ql en q g" and "qe_execute en q g = (Inr res, g')"
  shows "query_execute ql en t q g =
    (if er_rows res = [] \<or> int (length (encoded_rows (map finite_row (er_rows res)))) < max_bytes
     then Inr \<lparr>qr_rows = map finite_row (er_rows res),
            qr_meta = \<lparr>qm_execution_time_ms = t, qm_row_count = er_row_count res, qm_columns = er_columns res,
                       qm_generated_sql = er_sql res, qm_diagnostics = er_diagnostics res\<rparr>,
            qr_trace = er_trace res\<rparr>
     else Inl (response_too_large ql), g')"
proof -
  have max: "ql_max_response_bytes ql = max_bytes"
    using assms(1) by (auto simp: query_service_init_def split: if_splits)
  let ?rows = "map finite_row (er_rows res)"
  have "(\<exists>s. bounded_size ql 2 ?rows = Inr s) \<longleftrightarrow> er_rows res = [] \<or> int (length (encoded_rows ?rows)) < max_bytes"
    and "\<And>e. bounded_size ql 2 ?rows = Inl e \<Longrightarrow> e = response_too_large ql"
    using encoded_length [of ?rows] bounded_size_iff [of ?rows ql 2]
    by (cases "er_rows res = []"; auto simp: Let_def max split: if_splits)+
  with admitted_run [OF assms(2), of t] assms(3) show ?thesis
    by (cases "bounded_size ql 2 ?rows") (auto simp: bindP_run Let_def)
qed

text \<open>
  C27: the size bound is exact. A query that the engine answers is answered by the service if
  and only if the answer is empty or its rows, written as one compact JSON array, have fewer than
  \<open>max_response_bytes\<close> bytes; otherwise it raises [E306]. What comes back are the
  engine's rows in order, each cell as it was except that no float is NaN or infinite.
\<close>

theorem query_response_bounded:
  assumes "query_service_init max_rows max_bytes = Inr ql" and "admitted ql en q g" and "qe_execute en q g = (Inr res, g')"
  shows "query_execute ql en t q g =
    (if er_rows res = [] \<or> int (length (encoded_rows (map finite_row (er_rows res)))) < max_bytes
     then Inr \<lparr>qr_rows = map finite_row (er_rows res),
            qr_meta = \<lparr>qm_execution_time_ms = t, qm_row_count = er_row_count res, qm_columns = er_columns res,
                       qm_generated_sql = er_sql res, qm_diagnostics = er_diagnostics res\<rparr>,
            qr_trace = er_trace res\<rparr>
     else Inl (response_too_large ql), g')"
  using assms by (rule query_response_bounded_run)

lemma query_execute_Inr:
  assumes "query_service_init max_rows max_bytes = Inr ql" and "query_execute ql en t q g = (Inr r, g')"
  shows "admitted ql en q g \<and> (qr_rows r = [] \<or> int (length (encoded_rows (qr_rows r))) < max_bytes)"
proof -
  have ok: "admitted ql en q g" using assms(2) not_admitted [of ql en q g t] by auto
  obtain er g1 where run: "qe_execute en q g = (er, g1)" by fastforce
  with assms(2) admitted_run [OF ok, of t] obtain res where "er = Inr res"
    by (cases er) (auto simp: bindP_run)
  with query_response_bounded_run [OF assms(1) ok, of res g1 t] run assms(2) ok show ?thesis
    by (auto split: if_splits)
qed

end
