(* ===== verification/Query_Api.thy ===== *)
theory Query_Api
  imports Query_Service Http_Base
begin

text \<open>
  The HTTP handlers that run queries: \<open>app/api/query.py\<close> and \<open>app/api/explain.py\<close>, with the models
  of \<open>app/models/response.py\<close> and \<open>app/models/explain.py\<close>. Both catch every exception
  and answer with an \<open>ErrorDetail\<close>; they differ in what they blame on the caller.
\<close>

section \<open>Answers\<close>

record error_detail =
  ed_error :: string
  ed_message :: string
  ed_detail :: "string option"

datatype 'b reply = Reply 'b | ErrorReply nat error_detail

definition bad_request :: "py_exc \<Rightarrow> 'b reply" where
  "bad_request e = ErrorReply 400 \<lparr>ed_error = ''bad_request'', ed_message = exc_text e, ed_detail = None\<rparr>"

definition internal_error :: "py_exc \<Rightarrow> 'b reply" where
  "internal_error e =
     ErrorReply 500 \<lparr>ed_error = ''internal_error'', ed_message = ''An unexpected error occurred'', ed_detail = Some (exc_text e)\<rparr>"

fun is_value_error :: "py_exc \<Rightarrow> bool" where
  "is_value_error (ValueError m) = True"
| "is_value_error _ = False"

definition replying :: "(py_exc \<Rightarrow> 'b reply) \<Rightarrow> (py_exc, 's, 'b) prog \<Rightarrow> ('s, 'b reply) handler" where
  \<comment> \<open>\<open>try: return ... except ...: return JSONResponse(...)\<close>\<close>
  "replying f m = (\<lambda>s. case m s of (Inl e, s') \<Rightarrow> (Inr (f e), s') | (Inr x, s') \<Rightarrow> (Inr (Reply x), s'))"

fun reply_status :: "http_exc + 'b reply \<Rightarrow> nat" where
  "reply_status (Inr (ErrorReply n d)) = n"
| "reply_status (Inr (Reply b)) = 200"
| "reply_status (Inl e) = status 200 (Inl e :: http_exc + 'b reply)"

definition query_error :: "py_exc \<Rightarrow> 'b reply" where
  "query_error e = (if is_value_error e then bad_request e else internal_error e)"

definition query_request_ok :: "string \<Rightarrow> bool" where
  \<comment> \<open>\<open>QueryRequest\<close>: \<open>min_length=1\<close>\<close>
  "query_request_ok query_text \<longleftrightarrow> 1 \<le> length query_text"

definition explain_request_ok :: "string \<Rightarrow> bool" where
  \<comment> \<open>\<open>ExplainRequest\<close>: \<open>min_length=1\<close>\<close>
  "explain_request_ok query_text \<longleftrightarrow> 1 \<le> length query_text"

lemma request_ok [simp]: "query_request_ok q \<longleftrightarrow> q \<noteq> []" "explain_request_ok q \<longleftrightarrow> q \<noteq> []"
  by (cases q; simp add: query_request_ok_def explain_request_ok_def)+

definition query_handler ::
  "query_limits \<Rightarrow> ('g, 't) query_engine \<Rightarrow> string \<Rightarrow> string \<Rightarrow> ('g, (frame_row list \<times> query_meta) reply) handler" where
  "query_handler ql en elapsed query_text =
     bindP (guardP (query_request_ok query_text) Unprocessable) (\<lambda>_.
     replying query_error (execute_response ql en elapsed query_text))"

section \<open>Explaining\<close>

record provider_call =
  pd_provider_name :: string
  pd_provider_type :: string
  pd_entity_count :: int
  pd_elapsed_ms :: string
  pd_data_as_of :: "string option"

text \<open>The trace of the engine: an attribute it does not have is \<open>None\<close> here.\<close>

record engine_trace =
  et_provider_calls :: "provider_call list option"
  et_contexts_resolved :: "string list option"
  et_identity_maps_used :: "string list option"
  et_score_breakdown :: "(string, json) dict option"

record trace_response =
  tr_contexts_resolved :: "string list"
  tr_provider_calls :: "provider_call list"
  tr_identity_maps_used :: "string list"
  tr_score_breakdown :: "(string, json) dict"

definition attr_or_empty :: "'a list option \<Rightarrow> 'a list" where
  \<comment> \<open>\<open>getattr(trace, name, [])\<close>\<close>
  "attr_or_empty x = (case x of None \<Rightarrow> [] | Some v \<Rightarrow> v)"

definition trace_data :: "engine_trace option \<Rightarrow> trace_response" where
  "trace_data t =
     (case t of
        None \<Rightarrow> \<lparr>tr_contexts_resolved = [], tr_provider_calls = [], tr_identity_maps_used = [], tr_score_breakdown = []\<rparr>
      | Some v \<Rightarrow>
          \<lparr>tr_contexts_resolved = attr_or_empty (et_contexts_resolved v),
           tr_provider_calls = attr_or_empty (et_provider_calls v),
           tr_identity_maps_used = attr_or_empty (et_identity_maps_used v),
           tr_score_breakdown = attr_or_empty (et_score_breakdown v)\<rparr>)"

record explain_response =
  xp_rows :: "frame_row list"
  xp_meta :: query_meta
  xp_trace :: trace_response

definition explain_error :: "py_exc \<Rightarrow> 'b reply" where
  "explain_error e =
     (if is_value_error e \<or> contains_text ''Syntax'' (exc_class e) \<or> contains_text ''Parse'' (exc_class e)
      then bad_request e else internal_error e)"

definition explain_query ::
  "query_limits \<Rightarrow> ('g, engine_trace) query_engine \<Rightarrow> string \<Rightarrow> string \<Rightarrow> ('g, explain_response reply) handler" where
  "explain_query ql en elapsed query_text =
     bindP (guardP (explain_request_ok query_text) Unprocessable) (\<lambda>_.
     replying explain_error
       (bindP (query_execute ql en elapsed query_text) (\<lambda>r.
        ret \<lparr>xp_rows = qr_rows r, xp_meta = qr_meta r, xp_trace = trace_data (qr_trace r)\<rparr>)))"

section \<open>What a client sees\<close>

definition blamed_on_query :: "py_exc \<Rightarrow> bool" where
  \<comment> \<open>an exception that only \<open>/query/explain\<close> takes for the caller's error\<close>
  "blamed_on_query e \<longleftrightarrow>
     \<not> is_value_error e \<and> (contains_text ''Syntax'' (exc_class e) \<or> contains_text ''Parse'' (exc_class e))"

text \<open>
  C29: \<open>/query\<close> and \<open>/query/explain\<close> answer the same question in the same way: from one state they
  leave the engine in one state, give the same rows and metadata when the query is answered, and
  the same status and error detail when it is not, except for exceptions whose class says
  Syntax or Parse without being a \<open>ValueError\<close>: those are 500 for one and 400 for the other.
\<close>

theorem query_and_explain_agree:
  "snd (query_handler ql en t q g) = snd (explain_query ql en t q g) \<and>
   (case (fst (query_handler ql en t q g), fst (explain_query ql en t q g)) of
      (Inl a, Inl b) \<Rightarrow> a = Unprocessable \<and> b = Unprocessable \<and> q = []
    | (Inr (Reply (rows, meta)), Inr (Reply x)) \<Rightarrow> xp_rows x = rows \<and> xp_meta x = meta
    | (Inr (ErrorReply n d), Inr (ErrorReply m d')) \<Rightarrow>
        (\<exists>e. fst (query_execute ql en t q g) = Inl e \<and>
           (if blamed_on_query e then n = 500 \<and> m = 400 else n = m \<and> d = d'))
    | _ \<Rightarrow> False)"
proof (cases "q = []")
  case True
  then show ?thesis by (simp add: query_handler_def explain_query_def)
next
  case False
  obtain r g' where run: "query_execute ql en t q g = (r, g')" by fastforce
  show ?thesis
  proof (cases r)
    case (Inl e)
    with False run show ?thesis
      by (auto simp: query_handler_def explain_query_def replying_def execute_response_def bindP_run query_error_def
          explain_error_def blamed_on_query_def bad_request_def internal_error_def)
  next
    case (Inr x)
    with False run show ?thesis
      by (simp add: query_handler_def explain_query_def replying_def execute_response_def bindP_run)
  qed
qed

text \<open>
  What a query sends back is bounded: every answer of \<open>/query\<close> is 200, 400, 422 or 500; one with
  status 200 and rows has a compact JSON array of rows shorter than the configured number of
  bytes; and one that did not pass the limit check left the engine alone.
\<close>

theorem query_answer_bounded:
  assumes "query_service_init max_rows max_bytes = Inr ql"
  shows "reply_status (fst (query_handler ql en t q g)) \<in> {200, 400, 422, 500} \<and>
    (\<forall>rows meta. fst (query_handler ql en t q g) = Inr (Reply (rows, meta)) \<longrightarrow>
       admitted ql en q g \<and> (rows = [] \<or> int (length (encoded_rows rows)) < max_bytes)) \<and>
    (\<not> admitted ql en q g \<longrightarrow> snd (query_handler ql en t q g) = g)"
proof (cases "q = []")
  case True
  then have run: "query_handler ql en t q g = (Inl Unprocessable, g)" by (simp add: query_handler_def)
  show ?thesis unfolding run by simp
next
  case False
  obtain r g' where run: "query_execute ql en t q g = (r, g')" by fastforce
  show ?thesis
  proof (cases r)
    case (Inl e)
    with False run have h: "query_handler ql en t q g = (Inr (query_error e), g')"
      by (simp add: query_handler_def replying_def execute_response_def bindP_run)
    have "g' = g" if "\<not> admitted ql en q g"
      using not_admitted [OF that, of t] run by auto
    then show ?thesis unfolding h by (simp add: query_error_def bad_request_def internal_error_def)
  next
    case (Inr x)
    with False run have h: "query_handler ql en t q g = (Inr (Reply (qr_rows x, qr_meta x)), g')"
      by (simp add: query_handler_def replying_def execute_response_def bindP_run)
    from query_execute_Inr [OF assms run [unfolded Inr]] show ?thesis unfolding h by simp
  qed
qed

section \<open>Examples\<close>

definition one_row :: "engine_trace engine_result" where
  "one_row = \<lparr>er_rows = [[(''a'', JsonCell (JInt 1)), (''b'', JsonCell (JFloat ''NaN''))]], er_row_count = 1,
     er_columns = [''a'', ''b''], er_sql = ''SELECT 1'', er_diagnostics = [], er_trace = None\<rparr>"

definition count_engine :: "(nat, engine_trace) query_engine" where
  \<comment> \<open>counts the queries it runs\<close>
  "count_engine =
     \<lparr>qe_analyze = (\<lambda>q g. Inr (if q = ''ALL'' then QueryStatement None else QueryStatement (Some 1))),
      qe_execute = (\<lambda>q g. (Inr one_row, Suc g))\<rparr>"

definition small_limits :: query_limits where
  "small_limits = \<lparr>ql_max_result_rows = 10, ql_max_response_bytes = 20\<rparr>"

lemma small_limits_init: "query_service_init 10 20 = Inr small_limits"
  by (simp add: query_service_init_def small_limits_def)

lemma one_admitted: "admitted small_limits count_engine ''ONE'' g"
  by (simp add: admitted_def count_engine_def small_limits_def)

lemma one_row_encoded:
  "encoded_rows (map finite_row (er_rows one_row)) = ''[{'' @ [dq, CHR ''a'', dq] @ '':1,'' @ [dq, CHR ''b'', dq] @ '':null}]''"
  by (simp add: encoded_rows_def one_row_def finite_row_def finite_cell_def row_json_def json_quote_def json_escape_def
      show_int_def show_nat.simps digit_chars)

lemma unlimited_select_refused_witness:
  "query_execute small_limits count_engine '''' ''ALL'' 0 = (Inl limit_missing, 0)"
  using unlimited_select_refused [of count_engine "''ALL''" "0::nat" small_limits "''''"]
  by (simp add: count_engine_def)

lemma query_response_bounded_witness:
  "\<exists>r. query_execute small_limits count_engine '''' ''ONE'' 0 = (Inr r, 1) \<and>
     qr_rows r = [[(''a'', JsonCell (JInt 1)), (''b'', JsonCell JNull)]]"
proof -
  have "qe_execute count_engine ''ONE'' (0::nat) = (Inr one_row, 1)" by (simp add: count_engine_def)
  from query_response_bounded [OF small_limits_init one_admitted this, of "''''"] show ?thesis
    by (simp add: one_row_encoded) (simp add: one_row_def finite_row_def finite_cell_def)
qed

lemma query_answer_bounded_witness:
  "reply_status (fst (query_handler small_limits count_engine '''' ''ALL'' 5)) = 400 \<and>
   snd (query_handler small_limits count_engine '''' ''ALL'' 5) = 5"
proof -
  have "\<not> admitted small_limits count_engine ''ALL'' (5::nat)" by (simp add: admitted_def count_engine_def)
  with query_answer_bounded [OF small_limits_init, of count_engine "''''" "''ALL''" 5]
  have "snd (query_handler small_limits count_engine '''' ''ALL'' 5) = 5" by blast
  then show ?thesis
    by (simp add: query_handler_def replying_def execute_response_def query_execute_def bindP_run validate_run
        count_engine_def check_limit_def query_error_def limit_missing_def bad_request_def)
qed

end
