(* ===== verification/Scheduler.thy ===== *)
theory Scheduler
  imports Py_Text
begin

text \<open>
  The background refresh scheduler (\<open>app/services/refresh_scheduler.py\<close>). The engine, its
  catalog and the audit service are reached through \<open>sched_deps\<close> and act on a state of type
  \<open>'g\<close>; \<open>parse_duration_seconds\<close> is contextql's. Durations and clock readings are rationals:
  rounding of the float arithmetic is not modelled. \<open>sc_held\<close> are the contexts whose lock
  somebody else holds.
\<close>

section \<open>State\<close>

record context_entry =
  en_context_id :: string
  en_qualified_name :: string
  en_namespace :: string
  en_materialized :: bool
  en_refresh_mode :: string
  en_refresh_interval :: "string option"

record refresh_event =
  ev_event_type :: string
  ev_resource_name :: string
  ev_namespace :: string
  ev_context_id :: string
  ev_error :: "string option"

record 'g sched_deps =
  sd_list_contexts :: "'g \<Rightarrow> context_entry list"
  sd_execute :: "string \<Rightarrow> (py_exc, 'g, unit) prog"
  sd_record_refresh_failure :: "string \<Rightarrow> string \<Rightarrow> (py_exc, 'g, unit) prog"
  sd_audit_log :: "(refresh_event \<Rightarrow> (py_exc, 'g, unit) prog) option"
  sd_parse_duration :: "string option \<Rightarrow> rat option"

record 'g scheduler =
  sc_engine :: 'g
  sc_next_due :: "(string, rat) dict"
  sc_held :: "string set"

section \<open>Hexadecimal prefixes\<close>

definition hex_val :: "char \<Rightarrow> nat option" where
  "hex_val c =
     (let n = (of_char c :: nat)
      in if 48 \<le> n \<and> n \<le> 57 then Some (n - 48)
         else if 65 \<le> n \<and> n \<le> 70 then Some (n - 55)
         else if 97 \<le> n \<and> n \<le> 102 then Some (n - 87)
         else None)"

fun parse_hex :: "bool \<Rightarrow> nat \<Rightarrow> string \<Rightarrow> nat option" where
  \<comment> \<open>digits with single underscores between them; the flag says a digit came just before\<close>
  "parse_hex after_digit acc [] = (if after_digit then Some acc else None)"
| "parse_hex after_digit acc (c # cs) =
     (if c = CHR ''_'' then (if after_digit then parse_hex False acc cs else None)
      else case hex_val c of None \<Rightarrow> None | Some d \<Rightarrow> parse_hex True (16 * acc + d) cs)"

definition parse_hex_body :: "string \<Rightarrow> nat option" where
  \<comment> \<open>an optional \<open>0x\<close>, which an underscore may follow\<close>
  "parse_hex_body s =
     (if take 2 s \<in> {''0x'', ''0X''}
      then parse_hex False 0 (case drop 2 s of c # cs \<Rightarrow> if c = CHR ''_'' then cs else c # cs | [] \<Rightarrow> [])
      else parse_hex False 0 s)"

definition py_int16 :: "string \<Rightarrow> int option" where
  \<comment> \<open>\<open>int(s, 16)\<close>\<close>
  "py_int16 s =
     (case py_strip s of
        [] \<Rightarrow> None
      | c # cs \<Rightarrow>
          if c = CHR ''-'' then map_option (\<lambda>n. - int n) (parse_hex_body cs)
          else if c = CHR ''+'' then map_option int (parse_hex_body cs)
          else map_option int (parse_hex_body (c # cs)))"

definition jitter_prefix :: "string \<Rightarrow> string" where
  \<comment> \<open>\<open>context_id.replace("-", "")[:4]\<close>\<close>
  "jitter_prefix context_id = take 4 (replace_char (CHR ''-'') [] context_id)"

definition jitter_of :: "rat \<Rightarrow> string \<Rightarrow> py_exc + rat" where
  "jitter_of interval context_id =
     (case py_int16 (jitter_prefix context_id) of
        None \<Rightarrow> Inl (ValueError (''invalid literal for int() with base 16: '' @ py_repr (jitter_prefix context_id)))
      | Some n \<Rightarrow> Inr (interval * (of_int (n mod 1000) / 10000)))"

section \<open>Refreshing one context\<close>

definition on_engine :: "(py_exc, 'g, 'a) prog \<Rightarrow> (py_exc, 'g scheduler, 'a) prog" where
  "on_engine op = (\<lambda>s. case op (sc_engine s) of (r, g) \<Rightarrow> (r, s\<lparr>sc_engine := g\<rparr>))"

definition audit_refresh :: "'g sched_deps \<Rightarrow> refresh_event \<Rightarrow> (py_exc, 'g, unit) prog" where
  "audit_refresh d ev = (case sd_audit_log d of None \<Rightarrow> ret () | Some write \<Rightarrow> write ev)"

definition refresh_event_of :: "string \<Rightarrow> context_entry \<Rightarrow> string option \<Rightarrow> refresh_event" where
  "refresh_event_of event_type e err =
     \<lparr>ev_event_type = event_type, ev_resource_name = en_qualified_name e, ev_namespace = en_namespace e,
      ev_context_id = en_context_id e, ev_error = err\<rparr>"

definition refresh :: "'g sched_deps \<Rightarrow> context_entry \<Rightarrow> (py_exc, 'g, unit) prog" where
  \<comment> \<open>\<open>_refresh\<close>: the \<open>try\<close> covers the audit of the success too\<close>
  "refresh d e =
     (\<lambda>g. case bindP (sd_execute d (''REFRESH CONTEXT '' @ en_qualified_name e @ '';''))
                 (\<lambda>_. audit_refresh d (refresh_event_of ''context.refresh.succeeded'' e None)) g of
        (Inr _, g') \<Rightarrow> (Inr (), g')
      | (Inl exc, g') \<Rightarrow>
          bindP (sd_record_refresh_failure d (en_qualified_name e) (exc_text exc)) (\<lambda>_.
          audit_refresh d (refresh_event_of ''context.refresh.failed'' e (Some (exc_text exc)))) g')"

section \<open>A tick\<close>

definition scheduled_interval :: "'g sched_deps \<Rightarrow> context_entry \<Rightarrow> rat option" where
  \<comment> \<open>the refresh interval of an entry that the scheduler serves\<close>
  "scheduled_interval d e =
     (if \<not> en_materialized e \<or> en_refresh_mode e \<noteq> ''scheduled'' then None
      else sd_parse_duration d (en_refresh_interval e))"

definition due_at :: "rat \<Rightarrow> (string, rat) dict \<Rightarrow> string \<Rightarrow> bool" where
  \<comment> \<open>\<open>not (current < self._next_due.get(context_id, current))\<close>\<close>
  "due_at current next_due context_id =
     (case dict_get next_due context_id of None \<Rightarrow> True | Some due \<Rightarrow> \<not> current < due)"

definition tick_entry :: "'g sched_deps \<Rightarrow> rat \<Rightarrow> context_entry \<Rightarrow> (py_exc, 'g scheduler, unit) prog" where
  \<comment> \<open>the \<open>finally\<close> runs whether \<open>_refresh\<close> raised or not, and what it raises replaces that\<close>
  "tick_entry d current e s =
     (case scheduled_interval d e of
        None \<Rightarrow> (Inr (), s)
      | Some interval \<Rightarrow>
          if \<not> due_at current (sc_next_due s) (en_context_id e) then (Inr (), s)
          else if en_context_id e \<in> sc_held s then (Inr (), s)
          else (case on_engine (refresh d e) s of
              (r, s') \<Rightarrow>
                (case jitter_of interval (en_context_id e) of
                   Inl x \<Rightarrow> (Inl x, s')
                 | Inr jitter \<Rightarrow>
                     (r, s'\<lparr>sc_next_due := dict_set (en_context_id e) (current + interval + jitter) (sc_next_due s')\<rparr>))))"

fun tick_entries :: "'g sched_deps \<Rightarrow> rat \<Rightarrow> context_entry list \<Rightarrow> (py_exc, 'g scheduler, unit) prog" where
  "tick_entries d current [] = ret ()"
| "tick_entries d current (e # es) = bindP (tick_entry d current e) (\<lambda>_. tick_entries d current es)"

definition tick :: "'g sched_deps \<Rightarrow> rat \<Rightarrow> (py_exc, 'g scheduler, unit) prog" where
  \<comment> \<open>\<open>current\<close> is the reading of the monotonic clock\<close>
  "tick d current = bindP (readP (sd_list_contexts d \<circ> sc_engine)) (tick_entries d current)"

fun run_ticks :: "'g sched_deps \<Rightarrow> rat list \<Rightarrow> (py_exc, 'g scheduler, unit) prog" where
  \<comment> \<open>\<open>_run\<close> over the clock readings until it is stopped; an exception ends the thread\<close>
  "run_ticks d [] = ret ()"
| "run_ticks d (t # ts) = bindP (tick d t) (\<lambda>_. run_ticks d ts)"

section \<open>Failures stay with their context\<close>

definition handlers_quiet :: "'g sched_deps \<Rightarrow> bool" where
  \<comment> \<open>recording a failure and writing the audit log do not raise\<close>
  "handlers_quiet d \<longleftrightarrow>
     (\<forall>n m g. \<exists>g'. sd_record_refresh_failure d n m g = (Inr (), g')) \<and>
     (\<forall>ev g. \<exists>g'. audit_refresh d ev g = (Inr (), g'))"

definition id_ok :: "context_entry \<Rightarrow> bool" where
  "id_ok e \<longleftrightarrow> py_int16 (jitter_prefix (en_context_id e)) \<noteq> None"

lemma refresh_quiet:
  assumes "handlers_quiet d"
  shows "\<exists>g'. refresh d e g = (Inr (), g')"
proof -
  obtain r g1 where x: "bindP (sd_execute d (''REFRESH CONTEXT '' @ en_qualified_name e @ '';''))
      (\<lambda>_. audit_refresh d (refresh_event_of ''context.refresh.succeeded'' e None)) g = (r, g1)" by fastforce
  show ?thesis
  proof (cases r)
    case (Inl exc)
    obtain g2 where g2: "sd_record_refresh_failure d (en_qualified_name e) (exc_text exc) g1 = (Inr (), g2)"
      using assms unfolding handlers_quiet_def by blast
    obtain g3 where "audit_refresh d (refresh_event_of ''context.refresh.failed'' e (Some (exc_text exc))) g2 = (Inr (), g3)"
      using assms unfolding handlers_quiet_def by blast
    with x Inl g2 show ?thesis by (simp add: refresh_def bindP_Inr)
  qed (use x in \<open>simp add: refresh_def\<close>)
qed

definition next_due_after :: "'g sched_deps \<Rightarrow> rat \<Rightarrow> (string, rat) dict \<Rightarrow> context_entry \<Rightarrow> rat option" where
  \<comment> \<open>when the entry is due after a tick\<close>
  "next_due_after d current next_due e =
     (case scheduled_interval d e of
        Some interval \<Rightarrow>
          (if due_at current next_due (en_context_id e)
           then map_option (\<lambda>n. current + interval + interval * (of_int (n mod 1000) / 10000))
                  (py_int16 (jitter_prefix (en_context_id e)))
           else dict_get next_due (en_context_id e))
      | None \<Rightarrow> dict_get next_due (en_context_id e))"

lemma tick_entry_quiet:
  assumes "handlers_quiet d" and "id_ok e" and "sc_held s = {}"
  shows "\<exists>s'. tick_entry d current e s = (Inr (), s') \<and> sc_held s' = {} \<and>
      dict_get (sc_next_due s') (en_context_id e) = next_due_after d current (sc_next_due s) e \<and>
      (\<forall>c. c \<noteq> en_context_id e \<longrightarrow> dict_get (sc_next_due s') c = dict_get (sc_next_due s) c)"
proof (cases "scheduled_interval d e")
  case None
  with assms show ?thesis by (simp add: tick_entry_def next_due_after_def)
next
  case (Some interval)
  obtain g' where g': "refresh d e (sc_engine s) = (Inr (), g')" using refresh_quiet [OF assms(1)] by blast
  obtain n where n: "py_int16 (jitter_prefix (en_context_id e)) = Some n" using assms(2) by (auto simp: id_ok_def)
  show ?thesis
  proof (cases "due_at current (sc_next_due s) (en_context_id e)")
    case True
    with Some g' n assms(3) show ?thesis
      by (simp add: tick_entry_def next_due_after_def on_engine_def jitter_of_def update_conv')
  next
    case False
    with Some assms(3) show ?thesis by (simp add: tick_entry_def next_due_after_def)
  qed
qed

lemma next_due_after_frame:
  "dict_get nd' (en_context_id e) = dict_get nd (en_context_id e) \<Longrightarrow>
   next_due_after d current nd' e = next_due_after d current nd e"
  by (simp add: next_due_after_def due_at_def split: option.split)

lemma tick_entries_quiet:
  assumes "handlers_quiet d" and "list_all id_ok es" and "sc_held s = {}" and "distinct (map en_context_id es)"
  shows "\<exists>s'. tick_entries d current es s = (Inr (), s') \<and> sc_held s' = {} \<and>
      (\<forall>e \<in> set es. dict_get (sc_next_due s') (en_context_id e) = next_due_after d current (sc_next_due s) e) \<and>
      (\<forall>c. c \<notin> en_context_id ` set es \<longrightarrow> dict_get (sc_next_due s') c = dict_get (sc_next_due s) c)"
  using assms(2-4)
proof (induction es arbitrary: s)
  case (Cons e es)
  obtain s1 where s1: "tick_entry d current e s = (Inr (), s1)" "sc_held s1 = {}"
    "dict_get (sc_next_due s1) (en_context_id e) = next_due_after d current (sc_next_due s) e"
    "\<And>c. c \<noteq> en_context_id e \<Longrightarrow> dict_get (sc_next_due s1) c = dict_get (sc_next_due s) c"
    using tick_entry_quiet [OF assms(1), of e s current] Cons.prems by auto
  obtain s2 where s2: "tick_entries d current es s1 = (Inr (), s2)" "sc_held s2 = {}"
    "\<And>e. e \<in> set es \<Longrightarrow> dict_get (sc_next_due s2) (en_context_id e) = next_due_after d current (sc_next_due s1) e"
    "\<And>c. c \<notin> en_context_id ` set es \<Longrightarrow> dict_get (sc_next_due s2) c = dict_get (sc_next_due s1) c"
    using Cons.IH [OF _ s1(2)] Cons.prems by auto
  have out: "en_context_id e \<notin> en_context_id ` set es" using Cons.prems(3) by simp
  have "dict_get (sc_next_due s2) (en_context_id x) = next_due_after d current (sc_next_due s) x" if "x \<in> set (e # es)" for x
  proof (cases "x = e")
    case True
    with s2(4) [OF out] s1(3) show ?thesis by simp
  next
    case False
    with that have x: "x \<in> set es" by simp
    with out have "en_context_id x \<noteq> en_context_id e" by (metis imageI)
    with s2(3) [OF x] s1(4) show ?thesis by (metis next_due_after_frame)
  qed
  moreover have "dict_get (sc_next_due s2) c = dict_get (sc_next_due s) c" if "c \<notin> en_context_id ` set (e # es)" for c
    using that s2(4) s1(4) by simp
  ultimately show ?case using s1(1) s2(1,2) by (simp add: bindP_Inr)
qed simp


text \<open>
  A tick at which no served context is due, or its lock is held, calls nothing: the
  engine, the audit log and the schedule are left as they are.
\<close>

theorem tick_idle:
  assumes "\<And>e. e \<in> set (sd_list_contexts d (sc_engine s)) \<Longrightarrow> scheduled_interval d e \<noteq> None \<Longrightarrow>
      \<not> due_at current (sc_next_due s) (en_context_id e) \<or> en_context_id e \<in> sc_held s"
  shows "tick d current s = (Inr (), s)"
proof -
  have "tick_entries d current es s = (Inr (), s)"
    if "\<And>e. e \<in> set es \<Longrightarrow> scheduled_interval d e \<noteq> None \<Longrightarrow>
      \<not> due_at current (sc_next_due s) (en_context_id e) \<or> en_context_id e \<in> sc_held s" for es
    using that
  proof (induction es)
    case (Cons e es)
    then have "tick_entry d current e s = (Inr (), s)"
      by (auto simp: tick_entry_def split: option.splits)
    with Cons show ?case by (simp add: bindP_Inr)
  qed simp
  with assms show ?thesis by (simp add: tick_def)
qed

text \<open>A context whose identifier does not start with hexadecimal digits ends the tick, and with it the thread.\<close>

lemma tick_entry_bad_id:
  assumes "\<not> id_ok e" and "scheduled_interval d e = Some interval"
    and "due_at current (sc_next_due s) (en_context_id e)" and "en_context_id e \<notin> sc_held s"
  shows "\<exists>m s'. tick_entry d current e s = (Inl (ValueError m), s') \<and> sc_next_due s' = sc_next_due s"
  using assms
  by (auto simp: tick_entry_def id_ok_def jitter_of_def on_engine_def split: prod.splits)

text \<open>The tick on a concrete schedule: a context due at the first tick, and not again before its time.\<close>

definition demo_sched :: "string list sched_deps" where
  \<comment> \<open>an engine that records the statements it is given, and whose refreshes all fail\<close>
  "demo_sched = \<lparr>sd_list_contexts = (\<lambda>_. [\<lparr>en_context_id = ''00ff-1'', en_qualified_name = ''default.risk'',
      en_namespace = ''default'', en_materialized = True, en_refresh_mode = ''scheduled'', en_refresh_interval = Some ''5m''\<rparr>]),
     sd_execute = (\<lambda>q. bindP (modP (\<lambda>g. g @ [q])) (\<lambda>_. raise (RuntimeError ''down''))),
     sd_record_refresh_failure = (\<lambda>_ _. ret ()), sd_audit_log = None, sd_parse_duration = (\<lambda>_. Some 300)\<rparr>"

lemma demo_prefix: "jitter_prefix ''00ff-1'' = ''00ff''"
  by (simp add: jitter_prefix_def replace_char_def)

lemma demo_hex: "py_int16 ''00ff'' = Some 255"
  by (simp add: py_int16_def py_strip_def is_space_def parse_hex_body_def hex_val_def)


theorem tick_idle_witness:
  "tick demo_sched 10 \<lparr>sc_engine = [], sc_next_due = [(''00ff-1'', 300)], sc_held = {}\<rparr> =
     (Inr (), \<lparr>sc_engine = [], sc_next_due = [(''00ff-1'', 300)], sc_held = {}\<rparr>)"
  by (rule tick_idle) (simp add: demo_sched_def due_at_def)

end
