(* ===== verification/Scheduler_Thread.thy ===== *)
theory Scheduler_Thread
  imports Scheduler
begin

text \<open>
  The thread of the refresh scheduler (\<open>start\<close>, \<open>stop\<close> and \<open>_run\<close> of
  \<open>app/services/refresh_scheduler.py\<close>): the stop event, the thread, and the interleaving of
  the calls of the server with the steps of the thread as a step relation. A tick is two steps,
  waking up and finishing it, so that a stop can arrive in between.
\<close>

section \<open>The event and the thread\<close>

datatype thread =
    NoThread   \<comment> \<open>\<open>_thread\<close> is None\<close>
  | Waiting    \<comment> \<open>in \<open>_stop.wait(poll_seconds)\<close>\<close>
  | Ticking    \<comment> \<open>in \<open>tick\<close>\<close>
  | Ended

record worker =
  wk_stop :: bool
  wk_thread :: thread

definition new_worker :: worker where
  "new_worker = \<lparr>wk_stop = False, wk_thread = NoThread\<rparr>"

fun is_alive :: "thread \<Rightarrow> bool" where
  "is_alive NoThread = False"
| "is_alive Waiting = True"
| "is_alive Ticking = True"
| "is_alive Ended = False"

definition scheduler_start :: "worker \<Rightarrow> worker" where
  "scheduler_start w = (if is_alive (wk_thread w) then w else \<lparr>wk_stop = False, wk_thread = Waiting\<rparr>)"

definition stop_request :: "worker \<Rightarrow> worker" where
  "stop_request w = w\<lparr>wk_stop := True\<rparr>"

definition join_thread :: "thread \<Rightarrow> (py_exc, worker, unit) prog" where
  \<comment> \<open>\<open>left\<close> is where the thread is when \<open>join\<close> returns\<close>
  "join_thread left =
     bindP (readP wk_thread) (\<lambda>t.
     if t = NoThread then ret ()
     else bindP (modP (\<lambda>w. w\<lparr>wk_thread := left\<rparr>)) (\<lambda>_.
       if is_alive left then raise (RuntimeError ''Refresh scheduler did not stop before timeout.'') else ret ()))"

definition scheduler_stop :: "thread \<Rightarrow> (py_exc, worker, unit) prog" where
  "scheduler_stop left = bindP (modP stop_request) (\<lambda>_. join_thread left)"

section \<open>Steps\<close>

datatype action =
    CallStart
  | CallStop       \<comment> \<open>the event is set; \<open>join\<close> waits while the thread takes its steps\<close>
  | Wake           \<comment> \<open>the wait times out with the event unset\<close>
  | Leave          \<comment> \<open>the wait returns with the event set\<close>
  | Tick rat       \<comment> \<open>the tick ends; the clock it had read\<close>

inductive sched_step ::
  "'g sched_deps \<Rightarrow> 'g scheduler \<times> worker \<Rightarrow> action \<Rightarrow> 'g scheduler \<times> worker \<Rightarrow> bool" for d where
  start: "sched_step d (s, w) CallStart (s, scheduler_start w)"
| stop: "sched_step d (s, w) CallStop (s, stop_request w)"
| wake: "wk_thread w = Waiting \<Longrightarrow> \<not> wk_stop w \<Longrightarrow> sched_step d (s, w) Wake (s, w\<lparr>wk_thread := Ticking\<rparr>)"
| leave: "wk_thread w = Waiting \<Longrightarrow> wk_stop w \<Longrightarrow> sched_step d (s, w) Leave (s, w\<lparr>wk_thread := Ended\<rparr>)"
| ticked: "wk_thread w = Ticking \<Longrightarrow> tick d t s = (Inr (), s') \<Longrightarrow> sched_step d (s, w) (Tick t) (s', w\<lparr>wk_thread := Waiting\<rparr>)"
| died: "wk_thread w = Ticking \<Longrightarrow> tick d t s = (Inl e, s') \<Longrightarrow> sched_step d (s, w) (Tick t) (s', w\<lparr>wk_thread := Ended\<rparr>)"

inductive sched_steps ::
  "'g sched_deps \<Rightarrow> 'g scheduler \<times> worker \<Rightarrow> action list \<Rightarrow> 'g scheduler \<times> worker \<Rightarrow> bool" for d where
  none: "sched_steps d p [] p"
| more: "sched_step d p a p1 \<Longrightarrow> sched_steps d p1 as p2 \<Longrightarrow> sched_steps d p (a # as) p2"


inductive_simps step_simps:
  "sched_step d (s, w) CallStart p" "sched_step d (s, w) CallStop p" "sched_step d (s, w) Wake p" "sched_step d (s, w) Leave p"
  "sched_step d (s, w) (Tick t) p"

section \<open>After a stop\<close>

definition ticks_left :: "worker \<Rightarrow> nat" where
  \<comment> \<open>how many ticks can still end once the event is set\<close>
  "ticks_left w = (if wk_thread w = Ticking then 1 else 0)"

fun is_tick :: "action \<Rightarrow> bool" where
  "is_tick (Tick t) = True"
| "is_tick a = False"

lemma stopped_step:
  assumes "sched_step d (s, w) a (s', w')" and "wk_stop w" and "a \<noteq> CallStart"
  shows "wk_stop w' \<and> (if is_tick a then ticks_left w = Suc (ticks_left w') else ticks_left w' = ticks_left w \<and> s' = s)"
proof (cases a)
  case CallStop
  with assms show ?thesis by (simp add: step_simps ticks_left_def stop_request_def)
next
  case Wake
  with assms show ?thesis by (simp add: step_simps)
next
  case Leave
  with assms show ?thesis by (simp add: step_simps ticks_left_def)
next
  case (Tick t)
  with assms show ?thesis by (auto simp: step_simps ticks_left_def)
qed (use assms in simp)

lemma stopped_steps:
  assumes "sched_steps d p as p'" and "wk_stop (snd p)" and "CallStart \<notin> set as"
  shows "wk_stop (snd p') \<and> length (filter is_tick as) + ticks_left (snd p') = ticks_left (snd p) \<and>
     (ticks_left (snd p) = 0 \<longrightarrow> fst p' = fst p)"
  using assms
proof (induction rule: sched_steps.induct)
  case (more p a p1 as p2)
  obtain s w s1 w1 where p: "p = (s, w)" "p1 = (s1, w1)" by (cases p, cases p1)
  from more.hyps(1) more.prems stopped_step [of d s w a s1 w1] p
  have one: "wk_stop w1" "if is_tick a then ticks_left w = Suc (ticks_left w1) else ticks_left w1 = ticks_left w \<and> s1 = s" by auto
  from more.IH one(1) more.prems(2) p
  have "wk_stop (snd p2) \<and> length (filter is_tick as) + ticks_left (snd p2) = ticks_left w1 \<and> (ticks_left w1 = 0 \<longrightarrow> fst p2 = s1)" by simp
  with one(2) show ?case by (cases "is_tick a") (simp_all add: p)
qed simp

lemma dead_step:
  assumes "sched_step d (s, w) a (s', w')" and "\<not> is_alive (wk_thread w)" and "a \<noteq> CallStart"
  shows "\<not> is_alive (wk_thread w') \<and> \<not> is_tick a"
proof (cases a)
  case CallStop
  with assms show ?thesis by (simp add: step_simps stop_request_def)
next
  case (Tick t)
  with assms show ?thesis by (auto simp: step_simps)
qed (use assms in \<open>simp_all add: step_simps\<close>)

lemma dead_steps:
  assumes "sched_steps d p as p'" and "\<not> is_alive (wk_thread (snd p))" and "CallStart \<notin> set as"
  shows "\<not> is_alive (wk_thread (snd p')) \<and> filter is_tick as = []"
  using assms
proof (induction rule: sched_steps.induct)
  case (more p a p1 as p2)
  then have "\<not> is_alive (wk_thread (snd p1)) \<and> \<not> is_tick a"
    using dead_step [of d "fst p" "snd p" a "fst p1" "snd p1"] by fastforce
  with more.IH more.prems(2) show ?case by simp
qed simp

lemma stop_returns_iff:
  "(\<exists>w'. scheduler_stop left w = (Inr (), w')) \<longleftrightarrow> wk_thread w = NoThread \<or> \<not> is_alive left"
  by (simp add: scheduler_stop_def join_thread_def bindP_run stop_request_def)

text \<open>
  C32: once \<open>stop\<close> has been called and until the next \<open>start\<close>, at most the one tick that was
  running still ends; and once \<open>stop\<close> has returned, no tick runs at all: the engine, the audit log
  and the schedule stay as they are whatever the thread does. A \<open>stop\<close> that raises has set the
  event all the same.
\<close>

theorem stop_ends_refreshing:
  assumes "scheduler_stop left w = (r, w')" and "sched_steps d (s, w') as (s', w'')" and "CallStart \<notin> set as"
  shows "length (filter is_tick as) \<le> 1 \<and> (r = Inr () \<longrightarrow> filter is_tick as = [] \<and> s' = s \<and> \<not> is_alive (wk_thread w''))"
proof -
  have flag: "wk_stop w'" and dead: "r = Inr () \<Longrightarrow> \<not> is_alive (wk_thread w')"
    using assms(1) by (auto simp: scheduler_stop_def join_thread_def bindP_run stop_request_def split: if_splits)
  from stopped_steps [OF assms(2)] flag assms(3)
  have "length (filter is_tick as) + ticks_left w'' = ticks_left w'" "ticks_left w' = 0 \<longrightarrow> s' = s" by auto
  moreover have "ticks_left w' \<le> 1" "r = Inr () \<Longrightarrow> ticks_left w' = 0"
    using dead by (cases "wk_thread w'"; simp add: ticks_left_def)+
  moreover have "\<not> is_alive (wk_thread w'')" "filter is_tick as = []" if "r = Inr ()"
    using dead_steps [OF assms(2)] dead [OF that] assms(3) by simp_all
  ultimately show ?thesis by (metis add_leE le_trans order_refl)
qed

text \<open>
  A \<open>start\<close> after a \<open>stop\<close> that timed out returns without doing anything, and the thread ends
  after its tick all the same: nothing refreshes from then on.
\<close>

lemma start_after_timeout_is_lost:
  assumes "wk_thread w = Ticking" and "scheduler_stop Ticking w = (r, w')" and "tick d t s = (Inr (), s')"
  shows "r \<noteq> Inr () \<and> sched_steps d (s, w') [CallStart, Tick t, Leave] (s', \<lparr>wk_stop = True, wk_thread = Ended\<rparr>)"
proof -
  have w': "w' = \<lparr>wk_stop = True, wk_thread = Ticking\<rparr>" and "r \<noteq> Inr ()"
    using assms(1,2) by (auto simp: scheduler_stop_def join_thread_def bindP_run stop_request_def)
  have "scheduler_start w' = w'" by (simp add: w' scheduler_start_def)
  with start have "sched_step d (s, w') CallStart (s, w')" by metis
  moreover have "sched_step d (s, w') (Tick t) (s', w'\<lparr>wk_thread := Waiting\<rparr>)"
    using assms(3) by (intro ticked) (simp_all add: w')
  moreover have "sched_step d (s', w'\<lparr>wk_thread := Waiting\<rparr>) Leave (s', \<lparr>wk_stop = True, wk_thread = Ended\<rparr>)"
    using leave [of "w'\<lparr>wk_thread := Waiting\<rparr>" d s'] by (simp add: w')
  ultimately show ?thesis using \<open>r \<noteq> Inr ()\<close> by (blast intro: sched_steps.intros)
qed

text \<open>The schedule of the tick example: stopped while its tick runs, the thread ends after it.\<close>

theorem stop_ends_refreshing_witness:
  "\<exists>s'. sched_steps demo_sched (\<lparr>sc_engine = [], sc_next_due = [(''00ff-1'', 300)], sc_held = {}\<rparr>, \<lparr>wk_stop = True, wk_thread = Ticking\<rparr>)
       [Tick 10, Leave] (s', \<lparr>wk_stop = True, wk_thread = Ended\<rparr>) \<and> length (filter is_tick [Tick 10, Leave]) \<le> 1"
proof -
  let ?s = "\<lparr>sc_engine = [], sc_next_due = [(''00ff-1'', 300)], sc_held = {}\<rparr> :: string list scheduler"
  have idle: "tick demo_sched 10 ?s = (Inr (), ?s)"
    by (rule tick_idle) (simp add: demo_sched_def due_at_def)
  have steps: "sched_steps demo_sched (?s, \<lparr>wk_stop = True, wk_thread = Ticking\<rparr>) [Tick 10, Leave] (?s, \<lparr>wk_stop = True, wk_thread = Ended\<rparr>)"
    using ticked [of "\<lparr>wk_stop = True, wk_thread = Ticking\<rparr>" demo_sched 10 ?s ?s] idle
      leave [of "\<lparr>wk_stop = True, wk_thread = Waiting\<rparr>" demo_sched ?s] by (auto intro!: sched_steps.intros)
  have "scheduler_stop Ticking \<lparr>wk_stop = False, wk_thread = Ticking\<rparr> =
      (Inl (RuntimeError ''Refresh scheduler did not stop before timeout.''), \<lparr>wk_stop = True, wk_thread = Ticking\<rparr>)"
    by (simp add: scheduler_stop_def join_thread_def bindP_run stop_request_def)
  from stop_ends_refreshing [OF this steps] steps show ?thesis by auto
qed

end
