(* ===== verification/Server_App.thy ===== *)
theory Server_App
  imports Migrations Catalog_Api Query_Api Scheduler_Thread
begin

text \<open>
  The server as a whole: the settings (\<open>app/config.py\<close>), the engine manager (\<open>app/core/engine.py\<close>),
  the providers registered at start (\<open>app/providers/registry.py\<close>), the services handed to the
  handlers (\<open>app/dependencies.py\<close>), the database connection (\<open>app/db/connection.py\<close>) and the
  start and the end of the process (\<open>lifespan\<close> in \<open>app/main.py\<close>). What the engine does when it is
  made, given a provider or an identity map is a parameter over its state.
\<close>

section \<open>Settings and the engine\<close>

record settings =
  st_database :: string
  st_use_demo :: bool
  st_mcp_timeout_ms :: int
  st_remote_timeout_ms :: int
  st_register_mock_providers :: bool
  st_register_deepsee_mock :: bool
  st_catalog_db :: string
  st_refresh_scheduler_enabled :: bool
  st_refresh_scheduler_poll_seconds :: rat
  st_max_query_rows :: int
  st_max_query_intermediate_rows :: int
  st_max_query_response_bytes :: int

definition default_settings :: settings where
  "default_settings =
     \<lparr>st_database = '':memory:'', st_use_demo = True, st_mcp_timeout_ms = 30000, st_remote_timeout_ms = 30000,
      st_register_mock_providers = True, st_register_deepsee_mock = False, st_catalog_db = ''cql_catalog.db'',
      st_refresh_scheduler_enabled = True, st_refresh_scheduler_poll_seconds = 5, st_max_query_rows = 10000,
      st_max_query_intermediate_rows = 100000, st_max_query_response_bytes = 10 * 1024 * 1024\<rparr>"

datatype engine_call =  \<comment> \<open>how the engine is made: \<open>cql.demo(...)\<close> or \<open>cql.Engine(...)\<close>\<close>
    DemoEngine int
  | BareEngine string int int int

definition engine_initialize :: "settings \<Rightarrow> engine_call" where
  "engine_initialize st =
     (if st_use_demo st then DemoEngine (st_max_query_intermediate_rows st)
      else BareEngine (st_database st) (st_mcp_timeout_ms st) (st_remote_timeout_ms st) (st_max_query_intermediate_rows st))"

definition manager_engine :: "'e option \<Rightarrow> py_exc + 'e" where
  "manager_engine e =
     (case e of None \<Rightarrow> Inl (RuntimeError ''Engine not initialized -- call initialize() first'') | Some x \<Rightarrow> Inr x)"

datatype registration = McpProvider string string | RemoteProvider string string
  \<comment> \<open>the name it is registered under and the class of the provider\<close>

definition default_registrations :: "registration list" where
  "default_registrations =
     [McpProvider ''fraud_detection'' ''FraudDetectionMCP'', McpProvider ''priority'' ''PriorityMCP'',
      RemoteProvider ''jira'' ''JiraRemoteProvider'', McpProvider ''echo'' ''EchoMCPProvider'',
      RemoteProvider ''static'' ''StaticRemoteProvider'']"

definition deepsee_registrations :: "registration list" where
  "deepsee_registrations =
     [McpProvider ''deepsee_settlement_risk'' ''DeepSeeMCPProvider'', RemoteProvider ''deepsee'' ''DeepSeeRemoteProvider'']"

record 'g engine_ops =
  eo_make :: "engine_call \<Rightarrow> (py_exc, context_db \<times> 'g, unit) prog"
    \<comment> \<open>hydrates from the tables, and may write to them through the repository\<close>
  eo_register :: "registration \<Rightarrow> (py_exc, 'g, unit) prog"
  eo_register_map :: "'g register_map"

fun register_each :: "'g engine_ops \<Rightarrow> registration list \<Rightarrow> (py_exc, 'g, unit) prog" where
  "register_each ops [] = ret ()"
| "register_each ops (r # rs) = bindP (eo_register ops r) (\<lambda>_. register_each ops rs)"

section \<open>The services of the handlers\<close>

datatype dependency = EngineDep | QueryDep | CatalogDep | ProviderDep | IdentityDep | AuditDep

fun dependency_name :: "dependency \<Rightarrow> string" where
  "dependency_name EngineDep = ''Engine''"
| "dependency_name QueryDep = ''QueryService''"
| "dependency_name CatalogDep = ''CatalogService''"
| "dependency_name ProviderDep = ''ProviderService''"
| "dependency_name IdentityDep = ''IdentityService''"
| "dependency_name AuditDep = ''AuditService''"

text \<open>The module variables of \<open>dependencies\<close>: what is set, and the limits of the query service.\<close>

record globals =
  gl_set :: "dependency set"
  gl_limits :: "query_limits option"

definition no_globals :: globals where
  "no_globals = \<lparr>gl_set = {}, gl_limits = None\<rparr>"

definition make_query_service :: "settings \<Rightarrow> (py_exc, globals, unit) prog" where
  "make_query_service st =
     bindP (liftE (query_service_init (st_max_query_rows st) (st_max_query_response_bytes st))) (\<lambda>ql.
     modP (\<lambda>g. g\<lparr>gl_set := insert QueryDep (gl_set g), gl_limits := Some ql\<rparr>))"

definition init_services :: "settings \<Rightarrow> (py_exc, globals, unit) prog" where
  "init_services st =
     bindP (modP (\<lambda>g. g\<lparr>gl_set := insert EngineDep (gl_set g)\<rparr>)) (\<lambda>_.
     bindP (make_query_service st) (\<lambda>_.
     modP (\<lambda>g. g\<lparr>gl_set := gl_set g \<union> {CatalogDep, ProviderDep, IdentityDep, AuditDep}\<rparr>)))"

definition set_engine :: "settings \<Rightarrow> (py_exc, globals, unit) prog" where
  "set_engine st = bindP (modP (\<lambda>g. g\<lparr>gl_set := insert EngineDep (gl_set g)\<rparr>)) (\<lambda>_. make_query_service st)"

definition get_dependency :: "dependency \<Rightarrow> globals \<Rightarrow> py_exc + unit" where
  \<comment> \<open>the getters, \<open>get_engine\<close> to \<open>get_audit_service\<close>\<close>
  "get_dependency d g = (if d \<in> gl_set g then Inr () else Inl (RuntimeError (dependency_name d @ '' not initialized'')))"

section \<open>The process\<close>

record 'g app_state =
  ap_schema :: schema
  ap_connected :: bool          \<comment> \<open>the module variable \<open>_connection\<close> is set\<close>
  ap_catalog :: "'g catalog_state"
  ap_globals :: globals
  ap_ddl_audited :: bool        \<comment> \<open>\<open>engine.on_ddl_audit\<close> has been called\<close>
  ap_scheduler :: worker        \<comment> \<open>the stop event and the thread of the refresh scheduler\<close>

type_synonym ('g, 'a) app = "(py_exc, 'g app_state, 'a) prog"

definition on_schema :: "(py_exc, schema, 'a) prog \<Rightarrow> ('g, 'a) app" where
  "on_schema m = (\<lambda>s. case m (ap_schema s) of (r, x) \<Rightarrow> (r, s\<lparr>ap_schema := x\<rparr>))"

definition on_engine_state :: "(py_exc, 'g, 'a) prog \<Rightarrow> ('g, 'a) app" where
  "on_engine_state m =
     (\<lambda>s. case m (ca_engine (ap_catalog s)) of (r, x) \<Rightarrow> (r, s\<lparr>ap_catalog := (ap_catalog s)\<lparr>ca_engine := x\<rparr>\<rparr>))"

definition on_engine_tables :: "(py_exc, context_db \<times> 'g, 'a) prog \<Rightarrow> ('g, 'a) app" where
  "on_engine_tables m =
     (\<lambda>s. case m (ca_contexts (ap_catalog s), ca_engine (ap_catalog s)) of
        (r, (d, x)) \<Rightarrow> (r, s\<lparr>ap_catalog := (ap_catalog s)\<lparr>ca_contexts := d, ca_engine := x\<rparr>\<rparr>))"

definition on_audit :: "'a svc \<Rightarrow> ('g, 'a) app" where
  "on_audit m =
     (\<lambda>s. case m (ca_server (ap_catalog s)) of (r, x) \<Rightarrow> (r, s\<lparr>ap_catalog := (ap_catalog s)\<lparr>ca_server := x\<rparr>\<rparr>))"

definition on_globals :: "(py_exc, globals, 'a) prog \<Rightarrow> ('g, 'a) app" where
  "on_globals m = (\<lambda>s. case m (ap_globals s) of (r, x) \<Rightarrow> (r, s\<lparr>ap_globals := x\<rparr>))"

definition on_worker :: "(py_exc, worker, 'a) prog \<Rightarrow> ('g, 'a) app" where
  "on_worker m = (\<lambda>s. case m (ap_scheduler s) of (r, x) \<Rightarrow> (r, s\<lparr>ap_scheduler := x\<rparr>))"

definition init_db :: "(string \<Rightarrow> nat \<Rightarrow> py_exc option) \<Rightarrow> ('g, unit) app" where
  "init_db fault =
     bindP (on_schema (run_migrations fault migration_files)) (\<lambda>_. modP (\<lambda>s. s\<lparr>ap_connected := True\<rparr>))"

definition get_db :: "'g app_state \<Rightarrow> py_exc + unit" where
  "get_db s = (if ap_connected s then Inr () else Inl (RuntimeError ''Database not initialized -- call init_db() first''))"

definition close_db :: "('g, unit) app" where
  "close_db = modP (\<lambda>s. s\<lparr>ap_connected := False\<rparr>)"

definition server_event :: "string \<Rightarrow> json option \<Rightarrow> audit_args" where
  "server_event event detail =
     \<lparr>aa_event_type = event, aa_resource_type = None, aa_resource_name = None, aa_detail = detail,
      aa_actor = ''system'', aa_namespace = ''default'', aa_trace_id = None\<rparr>"

definition ddl_event :: "string \<Rightarrow> string option \<Rightarrow> json \<Rightarrow> audit_args" where
  \<comment> \<open>what the callback logs: \<open>event["action"]\<close>, \<open>event.get("context")\<close> and the event itself\<close>
  "ddl_event action context event =
     \<lparr>aa_event_type = ''context.ddl.'' @ action, aa_resource_type = Some ''context'', aa_resource_name = context,
      aa_detail = Some event, aa_actor = ''system'', aa_namespace = ''default'', aa_trace_id = None\<rparr>"

definition on_ddl :: "svc_env \<Rightarrow> string \<Rightarrow> string option \<Rightarrow> json \<Rightarrow> ('g, unit) app" where
  "on_ddl env action context event =
     bindP (readP ap_ddl_audited) (\<lambda>b.
     if b then bindP (on_audit (audit_log env (ddl_event action context event))) (\<lambda>_. ret ()) else ret ())"

definition start_engine :: "settings \<Rightarrow> unit cdb \<Rightarrow> 'g engine_ops \<Rightarrow> ('g, unit) app" where
  \<comment> \<open>the runtime repository (\<open>backfill\<close>: what its construction does to the tables), the engine and its providers\<close>
  "start_engine st backfill ops =
     bindP (on_engine_tables (\<lambda>(d, g). case backfill d of (r, d') \<Rightarrow> (r, (d', g)))) (\<lambda>_.
     bindP (on_engine_tables (eo_make ops (engine_initialize st))) (\<lambda>_.
     bindP (if st_register_mock_providers st then on_engine_state (register_each ops default_registrations) else ret ()) (\<lambda>_.
     if st_register_deepsee_mock st then on_engine_state (register_each ops deepsee_registrations) else ret ())))"

definition start_services :: "settings \<Rightarrow> svc_env \<Rightarrow> 'g engine_ops \<Rightarrow> ('g, unit) app" where
  \<comment> \<open>the counts that are logged at the end only read\<close>
  "start_services st env ops =
     bindP (modP (\<lambda>s. s\<lparr>ap_ddl_audited := True\<rparr>)) (\<lambda>_.
     bindP (readP (ca_server \<circ> ap_catalog)) (\<lambda>db.
     bindP (on_engine_state (sync_to_engine (Some (eo_register_map ops)) db)) (\<lambda>_.
     bindP (on_globals (init_services st)) (\<lambda>_.
     bindP (modP (\<lambda>s. s\<lparr>ap_scheduler := new_worker\<rparr>)) (\<lambda>_.
     bindP (if st_refresh_scheduler_enabled st then on_worker (modP scheduler_start) else ret ()) (\<lambda>_.
     bindP (on_audit (audit_log env (server_event ''server_start'' (Some (JObj [(''version'', JStr ''0.3.0'')]))))) (\<lambda>_.
     ret ())))))))"

definition startup ::
  "settings \<Rightarrow> svc_env \<Rightarrow> 'm entry_codec \<Rightarrow> (context_row list \<Rightarrow> context_row) \<Rightarrow> (nat \<Rightarrow> string) \<Rightarrow> 'g engine_ops \<Rightarrow>
   (string \<Rightarrow> nat \<Rightarrow> py_exc option) \<Rightarrow> stmt_faults \<Rightarrow> ('g, unit) app" where
  \<comment> \<open>the parameters of the back-fill are those of \<open>Context_Catalog\<close>; \<open>fault\<close> and \<open>flt\<close> are the SQL failures\<close>
  "startup st env ec pick uuid ops fault flt =
     bindP (init_db fault) (\<lambda>_.
     bindP (start_engine st (backfill_v2_rows flt ec pick uuid) ops) (\<lambda>_.
     start_services st env ops))"

definition shutdown :: "settings \<Rightarrow> svc_env \<Rightarrow> thread \<Rightarrow> ('g, unit) app" where
  \<comment> \<open>\<open>left\<close> is where the scheduler thread is when the timeout of \<open>stop\<close> is over\<close>
  "shutdown st env left =
     bindP (if st_refresh_scheduler_enabled st then on_worker (scheduler_stop left) else ret ()) (\<lambda>_.
     bindP (on_audit (audit_log env (server_event ''server_stop'' None))) (\<lambda>_.
     close_db))"

section \<open>Starting and stopping\<close>

abbreviation server_of :: "'g app_state \<Rightarrow> server_db" where
  "server_of s \<equiv> ca_server (ap_catalog s)"

lemma on_audit_run: "on_audit (audit_log env a) s = (Inr (sd_audit_seq (server_of s) + 1),
    s\<lparr>ap_catalog := (ap_catalog s)\<lparr>ca_server := after_audit env a (server_of s)\<rparr>\<rparr>)"
  by (simp add: on_audit_def audit_log_run)

definition same_server :: "server_db \<Rightarrow> 'g app_state \<Rightarrow> bool" where
  "same_server db s \<longleftrightarrow> server_of s = db"

lemma keeps_same_server [keeps_rules]:
  "keeps (same_server db) (on_schema m)" "keeps (same_server db) (on_engine_state n)" "keeps (same_server db) (on_engine_tables k)"
  "keeps (same_server db) (on_globals q)" "keeps (same_server db) (modP (\<lambda>s. s\<lparr>ap_connected := b\<rparr>))"
  "keeps (same_server db) (modP (\<lambda>s. s\<lparr>ap_ddl_audited := b\<rparr>))" "keeps (same_server db) (modP (\<lambda>s. s\<lparr>ap_scheduler := v\<rparr>))"
  "keeps (same_server db) (on_worker p)"
  by (auto simp: keeps_def same_server_def on_worker_def on_schema_def on_engine_state_def on_engine_tables_def on_globals_def split: prod.splits)

lemma init_db_server [keeps_rules]: "keeps (same_server db) (init_db fault)"
  unfolding init_db_def by (intro keeps_rules)

definition last_event :: "svc_env \<Rightarrow> audit_args \<Rightarrow> server_db \<Rightarrow> 'g app_state \<Rightarrow> bool" where
  "last_event env a db s \<longleftrightarrow> server_of s = after_audit env a db"

lemma ends_in_server_event:
  "ends_in (same_server db) (last_event env a db) (bindP (on_audit (audit_log env a)) (\<lambda>_. ret ()))"
  by (simp add: ends_in_def bindP_run on_audit_run same_server_def last_event_def)

abbreviation start_event :: audit_args where
  "start_event \<equiv> server_event ''server_start'' (Some (JObj [(''version'', JStr ''0.3.0'')]))"

lemma startup_server: "ends_in (same_server db) (last_event env start_event db) (startup st env ec pick uuid ops fault flt)"
  unfolding startup_def start_engine_def start_services_def by (intro ends_in_bind ends_in_server_event keeps_rules)

lemma init_services_ready:
  "init_services st g = (Inr u, g') \<Longrightarrow>
   gl_set g' = UNIV \<and> 0 < st_max_query_rows st \<and> 0 < st_max_query_response_bytes st \<and>
   gl_limits g' = Some \<lparr>ql_max_result_rows = st_max_query_rows st, ql_max_response_bytes = st_max_query_response_bytes st\<rparr>"
  by (auto simp: init_services_def make_query_service_def query_service_init_def bindP_run split: if_splits)
     (metis dependency.exhaust)

text \<open>What the steps after \<open>init_db\<close> leave alone.\<close>

definition same_app :: "'g app_state \<Rightarrow> 'g app_state \<Rightarrow> bool" where
  "same_app s s' \<longleftrightarrow> ap_schema s' = ap_schema s \<and> ap_connected s' = ap_connected s \<and> ap_globals s' = ap_globals s \<and>
     ap_ddl_audited s' = ap_ddl_audited s \<and> ap_scheduler s' = ap_scheduler s"

lemma same_app_refl [simp]: "same_app s s"
  by (simp add: same_app_def)

lemma on_engine_same:
  "on_engine_tables m s = (r, s') \<Longrightarrow> same_app s s'" "on_engine_state n s = (q, s') \<Longrightarrow> same_app s s'"
  by (auto simp: on_engine_tables_def on_engine_state_def same_app_def split: prod.splits)

lemma same_app_trans: "same_app s s1 \<Longrightarrow> same_app s1 s2 \<Longrightarrow> same_app s s2"
  by (simp add: same_app_def)

lemma start_engine_same:
  assumes "start_engine st backfill ops s = (Inr u, s')"
  shows "same_app s s'"
proof -
  from assms obtain u1 s1 u2 s2 u3 s3 where
    "on_engine_tables (\<lambda>(d, g). case backfill d of (r, d') \<Rightarrow> (r, (d', g))) s = (Inr (u1 :: unit), s1)"
    "on_engine_tables (eo_make ops (engine_initialize st)) s1 = (Inr (u2 :: unit), s2)"
    "(if st_register_mock_providers st then on_engine_state (register_each ops default_registrations) else ret ()) s2 = (Inr (u3 :: unit), s3)"
    "(if st_register_deepsee_mock st then on_engine_state (register_each ops deepsee_registrations) else ret ()) s3 = (Inr u, s')"
    unfolding start_engine_def by (elim bindP_InrD)
  then show ?thesis by (auto split: if_splits dest!: on_engine_same intro: same_app_trans)
qed

lemma start_services_returns:
  assumes "start_services st env ops s = (Inr u, s')"
  shows "ap_schema s' = ap_schema s \<and> ap_connected s' = ap_connected s \<and> ap_ddl_audited s' \<and>
    ap_scheduler s' = (if st_refresh_scheduler_enabled st then scheduler_start new_worker else new_worker) \<and>
    (\<exists>g u. init_services st g = (Inr u, ap_globals s'))"
proof -
  from assms obtain u1 s1 u2 s2 where
    sync: "on_engine_state (sync_to_engine (Some (eo_register_map ops)) (server_of s)) (s\<lparr>ap_ddl_audited := True\<rparr>) = (Inr (u1 :: unit), s1)"
    and svc: "on_globals (init_services st) s1 = (Inr (u2 :: unit), s2)"
    and fin: "s' = s2\<lparr>ap_scheduler := (if st_refresh_scheduler_enabled st then scheduler_start new_worker else new_worker),
        ap_catalog := (ap_catalog s2)\<lparr>ca_server := after_audit env start_event (server_of s2)\<rparr>\<rparr>"
    unfolding start_services_def
    by (auto simp: bindP_run on_audit_run on_worker_def split: if_splits prod.splits sum.splits)
  from sync have "same_app (s\<lparr>ap_ddl_audited := True\<rparr>) s1" by (rule on_engine_same(2))
  with svc fin show ?thesis
    by (auto simp: same_app_def on_globals_def split: prod.splits)
qed

lemma init_db_returns:
  "init_db fault s = (Inr u, s') \<Longrightarrow>
   run_migrations fault migration_files (ap_schema s) = (Inr (), ap_schema s') \<and> ap_connected s' \<and>
   ap_globals s' = ap_globals s \<and> ap_scheduler s' = ap_scheduler s"
  by (auto simp: init_db_def on_schema_def elim!: bindP_InrD split: prod.splits)

text \<open>
  C36: a start-up that returns leaves a server that can serve: the pending migrations have run,
  the connection is open, every dependency the handlers ask for is there, the query limits are the
  positive ones of the settings, DDL is audited, and the newest audit event says that the server
  started. A start-up that raises, at whichever step, has written no audit event at all.
\<close>

theorem startup_serves:
  "case startup st env ec pick uuid ops fault flt s of
     (Inl e, s') \<Rightarrow> server_of s' = server_of s
   | (Inr u, s') \<Rightarrow>
       run_migrations fault migration_files (ap_schema s) = (Inr (), ap_schema s') \<and> get_db s' = Inr () \<and>
       list_all (\<lambda>d. get_dependency d (ap_globals s') = Inr ()) [EngineDep, QueryDep, CatalogDep, ProviderDep, IdentityDep, AuditDep] \<and>
       query_service_init (st_max_query_rows st) (st_max_query_response_bytes st) = Inr (the (gl_limits (ap_globals s'))) \<and>
       ap_ddl_audited s' \<and> ap_scheduler s' = (if st_refresh_scheduler_enabled st then scheduler_start new_worker else new_worker) \<and>
       server_of s' = after_audit env start_event (server_of s)"
proof -
  obtain r s' where run: "startup st env ec pick uuid ops fault flt s = (r, s')" by fastforce
  have events: "case r of Inl _ \<Rightarrow> server_of s' = server_of s | Inr _ \<Rightarrow> server_of s' = after_audit env start_event (server_of s)"
    using startup_server [of "server_of s" env st ec pick uuid ops fault flt, unfolded ends_in_def, rule_format, of s] run
    by (simp add: same_server_def last_event_def split: sum.splits)
  show ?thesis
  proof (cases r)
    case (Inl e)
    with run events show ?thesis by simp
  next
    case (Inr u)
    from run [unfolded Inr startup_def] obtain u1 s1 u2 s2 where i: "init_db fault s = (Inr u1, s1)"
      and e: "start_engine st (backfill_v2_rows flt ec pick uuid) ops s1 = (Inr u2, s2)" and v: "start_services st env ops s2 = (Inr u, s')"
      by (elim bindP_InrD)
    from init_db_returns [OF i] start_engine_same [OF e] start_services_returns [OF v] obtain g w where
      ready: "run_migrations fault migration_files (ap_schema s) = (Inr (), ap_schema s')" "ap_connected s'" "ap_ddl_audited s'"
        "ap_scheduler s' = (if st_refresh_scheduler_enabled st then scheduler_start new_worker else new_worker)"
      and g: "init_services st g = (Inr w, ap_globals s')" unfolding same_app_def by auto
    from init_services_ready [OF g] ready events Inr run show ?thesis
      by (simp add: get_db_def get_dependency_def query_service_init_def)
  qed
qed

text \<open>
  A scheduler thread that does not end in time makes the shut-down raise before it has written
  \<open>server_stop\<close> and closed the connection.
\<close>

lemma stuck_thread_skips_shutdown:
  assumes "st_refresh_scheduler_enabled st" and "wk_thread (ap_scheduler s) = Ticking" and "shutdown st env Ticking s = (r, s')"
  shows "r \<noteq> Inr () \<and> server_of s' = server_of s \<and> ap_connected s' = ap_connected s"
  using assms by (auto simp: shutdown_def on_worker_def scheduler_stop_def join_thread_def stop_request_def bindP_run)

end
