(* ===== verification/Db_Connection.thy ===== *)
theory Db_Connection
  imports Py_Text "HOL-Library.Multiset"
begin

text \<open>
  The one SQLite connection that all services share (\<open>init_db\<close> opens it with
  \<open>check_same_thread=False\<close>; handlers run in a thread pool and the refresh scheduler in its own thread).
  Python's \<open>sqlite3\<close> opens a transaction before a data-changing statement if none is open, and
  leaves it open when the statement fails; \<open>commit\<close> and \<open>rollback\<close> end whatever is open. What
  a service does to the connection is a task: a list of SQL actions, inside a
  \<open>try ... except: rollback; raise\<close> (guarded) or not. Threads interleave between actions.
\<close>

section \<open>The connection\<close>

type_synonym 'd stmt = "'d \<Rightarrow> py_exc + 'd"

record 'd conn =
  cn_disk :: 'd     \<comment> \<open>what is committed\<close>
  cn_work :: 'd     \<comment> \<open>what the connection reads and writes\<close>
  cn_open :: bool   \<comment> \<open>\<open>conn.in_transaction\<close>\<close>

definition idle :: "'d \<Rightarrow> 'd conn" where
  "idle d = \<lparr>cn_disk = d, cn_work = d, cn_open = False\<rparr>"

datatype 'd sql =
    Dml "'d stmt"
  | Begin "py_exc option"    \<comment> \<open>\<open>BEGIN IMMEDIATE\<close>; what the database raises, if it does\<close>
  | Commit "py_exc option"

definition nested_begin :: py_exc where
  "nested_begin = OtherError ''OperationalError'' ''cannot start a transaction within a transaction''"

definition roll_back :: "'d conn \<Rightarrow> 'd conn" where
  "roll_back c = c\<lparr>cn_work := cn_disk c, cn_open := False\<rparr>"

fun run_sql :: "'d sql \<Rightarrow> (py_exc, 'd conn, unit) prog" where
  "run_sql (Dml f) c =
     (case f (cn_work c) of
        Inl e \<Rightarrow> (Inl e, c\<lparr>cn_open := True\<rparr>)
      | Inr d \<Rightarrow> (Inr (), c\<lparr>cn_work := d, cn_open := True\<rparr>))"
| "run_sql (Begin fault) c =
     (if cn_open c then (Inl nested_begin, c)
      else case fault of Some e \<Rightarrow> (Inl e, c) | None \<Rightarrow> (Inr (), c\<lparr>cn_open := True\<rparr>))"
| "run_sql (Commit fault) c =
     (case fault of Some e \<Rightarrow> (Inl e, c) | None \<Rightarrow> (Inr (), c\<lparr>cn_disk := cn_work c, cn_open := False\<rparr>))"

section \<open>Tasks and schedules\<close>

datatype 'd task =
    Running bool "'d sql list"   \<comment> \<open>guarded or not, and what is left to do\<close>
  | Recovering py_exc            \<comment> \<open>in the \<open>except\<close> block\<close>
  | Returned
  | Raised py_exc

fun task_step :: "'d task \<Rightarrow> 'd conn \<Rightarrow> 'd task \<times> 'd conn" where
  "task_step (Running g []) c = (Returned, c)"
| "task_step (Running g (a # as)) c =
     (case run_sql a c of
        (Inl e, c') \<Rightarrow> (if g then Recovering e else Raised e, c')
      | (Inr _, c') \<Rightarrow> (if as = [] then Returned else Running g as, c'))"
| "task_step (Recovering e) c = (Raised e, roll_back c)"
| "task_step Returned c = (Returned, c)"
| "task_step (Raised e) c = (Raised e, c)"

fun ended :: "'d task \<Rightarrow> bool" where
  "ended Returned = True"
| "ended (Raised e) = True"
| "ended (Running g as) = False"
| "ended (Recovering e) = False"

definition sys_step :: "nat \<Rightarrow> 'd task list \<times> 'd conn \<Rightarrow> 'd task list \<times> 'd conn" where
  \<comment> \<open>thread \<open>i\<close> takes its next action\<close>
  "sys_step i p =
     (if i < length (fst p)
      then (case task_step (fst p ! i) (snd p) of (t, c) \<Rightarrow> ((fst p)[i := t], c))
      else p)"

fun run_schedule :: "nat list \<Rightarrow> 'd task list \<times> 'd conn \<Rightarrow> 'd task list \<times> 'd conn" where
  "run_schedule [] p = p"
| "run_schedule (i # is) p = run_schedule is (sys_step i p)"

section \<open>A task alone\<close>

fun run_actions :: "bool \<Rightarrow> 'd sql list \<Rightarrow> 'd conn \<Rightarrow> (py_exc + unit) \<times> 'd conn" where
  "run_actions g [] c = (Inr (), c)"
| "run_actions g (a # as) c =
     (case run_sql a c of
        (Inl e, c') \<Rightarrow> (Inl e, if g then roll_back c' else c')
      | (Inr _, c') \<Rightarrow> run_actions g as c')"

fun run_stmts :: "'d stmt list \<Rightarrow> 'd stmt" where
  \<comment> \<open>the statements one after the other, or the first exception\<close>
  "run_stmts [] d = Inr d"
| "run_stmts (f # fs) d = (case f d of Inl e \<Rightarrow> Inl e | Inr d' \<Rightarrow> run_stmts fs d')"

definition transaction_actions :: "py_exc option \<Rightarrow> 'd stmt list \<Rightarrow> py_exc option \<Rightarrow> 'd sql list" where
  \<comment> \<open>\<open>BEGIN IMMEDIATE\<close>, the statements, \<open>commit()\<close>\<close>
  "transaction_actions b fs f = Begin b # map Dml fs @ [Commit f]"

definition write_actions :: "'d stmt \<Rightarrow> 'd sql list" where
  \<comment> \<open>\<open>conn.execute(...); conn.commit()\<close>\<close>
  "write_actions f = [Dml f, Commit None]"

fun task_of :: "py_exc + unit \<Rightarrow> 'd task" where
  "task_of (Inl e) = Raised e"
| "task_of (Inr _) = Returned"

text \<open>Scheduled alone for long enough, a task ends as \<open>run_actions\<close> says.\<close>

lemma run_schedule_append: "run_schedule (is @ js) p = run_schedule js (run_schedule is p)"
  by (induction "is" arbitrary: p) simp_all

lemma ended_stays: "ended t \<Longrightarrow> run_schedule (replicate n 0) ([t], c) = ([t], c)"
  by (induction n) (cases t; simp add: sys_step_def)+

lemma task_alone:
  assumes "as \<noteq> []" and "Suc (length as) \<le> n"
  shows "run_schedule (replicate n 0) ([Running g as], c) =
    (case run_actions g as c of (r, c') \<Rightarrow> ([task_of r], c'))"
  using assms
proof (induction as arbitrary: c n)
  case (Cons a as)
  from Cons.prems(2) obtain n' where n: "n = Suc n'" "Suc (length as) \<le> n'" by (cases n) auto
  obtain r c' where a: "run_sql a c = (r, c')" by fastforce
  show ?case
  proof (cases r)
    case (Inl e)
    from n(2) obtain n'' where n': "n' = Suc n''" by (cases n') auto
    from Inl a n(1) n' show ?thesis by (cases g) (simp_all add: sys_step_def ended_stays)
  next
    case (Inr u)
    show ?thesis
    proof (cases "as = []")
      case True
      with Inr a n show ?thesis by (simp add: sys_step_def ended_stays)
    next
      case False
      with Inr a n Cons.IH [OF False n(2), of c'] show ?thesis by (simp add: sys_step_def)
    qed
  qed
qed simp

lemma run_dmls:
  "run_actions True (map Dml fs @ [Commit f]) \<lparr>cn_disk = d0, cn_work = d, cn_open = True\<rparr> =
    (case run_stmts fs d of
       Inl e \<Rightarrow> (Inl e, idle d0)
     | Inr d' \<Rightarrow> (case f of Some e \<Rightarrow> (Inl e, idle d0) | None \<Rightarrow> (Inr (), idle d')))"
  by (induction fs arbitrary: d) (auto simp: idle_def roll_back_def split: sum.splits option.splits)

lemma transaction_alone:
  "run_actions True (transaction_actions b fs f) (idle d) =
    (case b of
       Some e \<Rightarrow> (Inl e, idle d)
     | None \<Rightarrow> (case run_stmts fs d of
         Inl e \<Rightarrow> (Inl e, idle d)
       | Inr d' \<Rightarrow> (case f of Some e \<Rightarrow> (Inl e, idle d) | None \<Rightarrow> (Inr (), idle d'))))"
  using run_dmls [of fs f d d] by (auto simp: transaction_actions_def idle_def roll_back_def split: option.split)

lemma write_alone:
  "run_actions False (write_actions f) (idle d) =
    (case f d of Inl e \<Rightarrow> (Inl e, (idle d)\<lparr>cn_open := True\<rparr>) | Inr d' \<Rightarrow> (Inr (), idle d'))"
  by (auto simp: write_actions_def idle_def split: sum.split)

lemma write_when_open:
  "run_actions False (write_actions f) ((idle d)\<lparr>cn_open := b\<rparr>) =
    (case f d of Inl e \<Rightarrow> (Inl e, (idle d)\<lparr>cn_open := True\<rparr>) | Inr d' \<Rightarrow> (Inr (), idle d'))"
  by (auto simp: write_actions_def idle_def split: sum.split)

lemma transaction_when_open:
  "run_actions True (transaction_actions b fs f) ((idle d)\<lparr>cn_open := True\<rparr>) = (Inl nested_begin, idle d)"
  by (simp add: transaction_actions_def idle_def roll_back_def)

end
