(* ===== verification/Db_Interleaving.thy ===== *)
theory Db_Interleaving
  imports Db_Connection
begin

text \<open>
  Threads that each write once (\<open>execute\<close>, \<open>commit\<close>), in any interleaving on one connection: the
  statements take effect in the order in which they are executed, a commit of one thread commits what
  the others have written so far, and what a thread has answered is on disk.
\<close>

section \<open>Serial execution\<close>

definition apply_stmt :: "'d stmt list \<Rightarrow> nat \<Rightarrow> 'd \<Rightarrow> 'd" where
  "apply_stmt fs i d = (case (fs ! i) d of Inl e \<Rightarrow> d | Inr d' \<Rightarrow> d')"

definition serial_state :: "'d stmt list \<Rightarrow> nat list \<Rightarrow> 'd \<Rightarrow> 'd" where
  \<comment> \<open>the statements in this order, one that raises having no effect\<close>
  "serial_state fs order d = fold (apply_stmt fs) order d"

definition serial_answer :: "'d stmt list \<Rightarrow> nat list \<Rightarrow> 'd \<Rightarrow> nat \<Rightarrow> py_exc + unit" where
  \<comment> \<open>what thread \<open>i\<close> gets in that order\<close>
  "serial_answer fs order d i =
     (case (fs ! i) (serial_state fs (takeWhile (\<lambda>j. j \<noteq> i) order) d) of Inl e \<Rightarrow> Inl e | Inr _ \<Rightarrow> Inr ())"

lemma serial_state_simps [simp]:
  "serial_state fs [] d = d" "serial_state fs (order @ [i]) d = apply_stmt fs i (serial_state fs order d)"
  by (simp_all add: serial_state_def)

lemma serial_answer_snoc:
  "j \<in> set order \<Longrightarrow> serial_answer fs (order @ [i]) d j = serial_answer fs order d j"
  "i \<notin> set order \<Longrightarrow> serial_answer fs (order @ [i]) d i =
     (case (fs ! i) (serial_state fs order d) of Inl e \<Rightarrow> Inl e | Inr _ \<Rightarrow> Inr ())"
proof -
  assume "j \<in> set order"
  then have "takeWhile (\<lambda>k. k \<noteq> j) (order @ [i]) = takeWhile (\<lambda>k. k \<noteq> j) order"
    by (intro takeWhile_append1 [of j]) simp_all
  then show "serial_answer fs (order @ [i]) d j = serial_answer fs order d j"
    by (simp add: serial_answer_def)
next
  assume "i \<notin> set order"
  then have "takeWhile (\<lambda>k. k \<noteq> i) (order @ [i]) = order"
    by (subst takeWhile_append2) auto
  then show "serial_answer fs (order @ [i]) d i =
      (case (fs ! i) (serial_state fs order d) of Inl e \<Rightarrow> Inl e | Inr _ \<Rightarrow> Inr ())"
    by (simp add: serial_answer_def)
qed

section \<open>The invariant\<close>

text \<open>
  \<open>order\<close> are the threads whose statement has been executed; of these, those before position \<open>k\<close>
  are on disk. The first list of the state at thread \<open>i\<close> says where it is.
\<close>

definition write_task :: "'d stmt \<Rightarrow> 'd task" where
  "write_task f = Running False (write_actions f)"

definition thread_at :: "'d stmt list \<Rightarrow> nat list \<Rightarrow> nat \<Rightarrow> 'd \<Rightarrow> nat \<Rightarrow> 'd task \<Rightarrow> bool" where
  "thread_at fs order k d i t \<longleftrightarrow>
     (if i \<notin> set order then t = write_task (fs ! i)
      else case serial_answer fs order d i of
        Inl e \<Rightarrow> t = Raised e
      | Inr _ \<Rightarrow> t = Running False [Commit None] \<or> t = Returned \<and> i \<in> set (take k order))"

definition interleaved :: "'d stmt list \<Rightarrow> 'd \<Rightarrow> nat list \<Rightarrow> nat \<Rightarrow> 'd task list \<times> 'd conn \<Rightarrow> bool" where
  "interleaved fs d order k p \<longleftrightarrow>
     length (fst p) = length fs \<and> distinct order \<and> set order \<subseteq> {..<length fs} \<and> k \<le> length order \<and>
     cn_work (snd p) = serial_state fs order d \<and> cn_disk (snd p) = serial_state fs (take k order) d \<and>
     (\<forall>i < length fs. thread_at fs order k d i (fst p ! i)) \<and>
     (cn_disk (snd p) \<noteq> cn_work (snd p) \<longrightarrow> (\<exists>i < length fs. fst p ! i = Running False [Commit None]))"

lemma interleaved_start: "interleaved fs d [] 0 (map write_task fs, idle d)"
  by (simp add: interleaved_def thread_at_def idle_def)

lemma thread_at_snoc:
  assumes "thread_at fs order k d j t" and "j \<noteq> i" and "k \<le> length order" and "set order \<subseteq> {..<length fs}"
  shows "thread_at fs (order @ [i]) k d j t"
  using assms by (auto simp: thread_at_def serial_answer_snoc split: sum.splits)

lemma thread_at_commit:
  assumes "thread_at fs order k d j t" and "k \<le> length order"
  shows "thread_at fs order (length order) d j t"
  using assms by (auto simp: thread_at_def split: sum.splits dest: in_set_takeD)

lemma interleaved_execute:
  assumes inv: "interleaved fs d order k (ts, c)" and i: "i < length fs" "i \<notin> set order"
  shows "interleaved fs d (order @ [i]) k (sys_step i (ts, c))"
proof -
  let ?w = "serial_state fs order d"
  from inv have len: "length ts = length fs" and dist: "distinct order" and sub: "set order \<subseteq> {..<length fs}" and k: "k \<le> length order"
    and w: "cn_work c = ?w" and disk: "cn_disk c = serial_state fs (take k order) d"
    and at: "\<And>j. j < length fs \<Longrightarrow> thread_at fs order k d j (ts ! j)"
    and pending: "cn_disk c \<noteq> cn_work c \<Longrightarrow> \<exists>j < length fs. ts ! j = Running False [Commit None]"
    by (auto simp: interleaved_def)
  have t: "ts ! i = Running False [Dml (fs ! i), Commit None]"
    using at [OF i(1)] i(2) by (simp add: thread_at_def write_task_def write_actions_def)
  have others: "thread_at fs (order @ [i]) k d j (ts[i := u] ! j)" if "j < length fs" "j \<noteq> i" for j u
    using thread_at_snoc [OF at [OF that(1)] that(2) k sub] that len i(1) by simp
  have rest: "distinct (order @ [i])" "set (order @ [i]) \<subseteq> {..<length fs}" "k \<le> length (order @ [i])"
    "serial_state fs (take k (order @ [i])) d = cn_disk c"
    using dist sub k i disk by simp_all
  show ?thesis
  proof (cases "(fs ! i) ?w")
    case (Inl e)
    then have step: "sys_step i (ts, c) = (ts[i := Raised e], c\<lparr>cn_open := True\<rparr>)"
      using t len i w by (simp add: sys_step_def)
    have "thread_at fs (order @ [i]) k d j (ts[i := Raised e] ! j)" if "j < length fs" for j
      using others [of j "Raised e"] that i len Inl by (cases "j = i") (simp_all add: thread_at_def serial_answer_snoc)
    moreover have "\<exists>j < length fs. ts[i := Raised e] ! j = Running False [Commit None]" if d: "cn_disk c \<noteq> cn_work c"
    proof -
      from pending [OF d] obtain j where j: "j < length fs" "ts ! j = Running False [Commit None]" by blast
      with t have "j \<noteq> i" by auto
      with j show ?thesis by (intro exI [of _ j]) simp
    qed
    ultimately show ?thesis using Inl rest w len by (simp add: step interleaved_def apply_stmt_def)
  next
    case (Inr d')
    then have step: "sys_step i (ts, c) = (ts[i := Running False [Commit None]], c\<lparr>cn_work := d', cn_open := True\<rparr>)"
      using t len i w by (simp add: sys_step_def)
    have "thread_at fs (order @ [i]) k d j (ts[i := Running False [Commit None]] ! j)" if "j < length fs" for j
      using others [of j "Running False [Commit None]"] that i len Inr
      by (cases "j = i") (simp_all add: thread_at_def serial_answer_snoc)
    moreover have "\<exists>j < length fs. ts[i := Running False [Commit None]] ! j = Running False [Commit None]"
      using i len by (intro exI [of _ i]) simp
    ultimately show ?thesis using Inr rest w len by (simp add: step interleaved_def apply_stmt_def)
  qed
qed

lemma interleaved_commit:
  assumes inv: "interleaved fs d order k (ts, c)" and i: "i < length fs" and t: "ts ! i = Running False [Commit None]"
  shows "interleaved fs d order (length order) (sys_step i (ts, c))"
proof -
  from inv have len: "length ts = length fs" and k: "k \<le> length order"
    and at: "\<And>j. j < length fs \<Longrightarrow> thread_at fs order k d j (ts ! j)"
    by (auto simp: interleaved_def)
  have step: "sys_step i (ts, c) = (ts[i := Returned], c\<lparr>cn_disk := cn_work c, cn_open := False\<rparr>)"
    using t len i by (simp add: sys_step_def)
  have "i \<in> set order" "\<exists>u. serial_answer fs order d i = Inr u"
    using at [OF i] t by (auto simp: thread_at_def write_task_def write_actions_def split: if_splits sum.splits)
  then have "thread_at fs order (length order) d j (ts[i := Returned] ! j)" if "j < length fs" for j
    using thread_at_commit [OF at [OF that] k] len i by (cases "j = i") (auto simp: thread_at_def)
  with inv len show ?thesis by (simp add: step interleaved_def)
qed

lemma interleaved_step:
  assumes "interleaved fs d order k p"
  shows "\<exists>order' k'. interleaved fs d order' k' (sys_step i p)"
proof (cases "i < length fs")
  case True
  obtain ts c where p: "p = (ts, c)" by fastforce
  from assms True have at: "thread_at fs order k d i (ts ! i)" "length ts = length fs" by (auto simp: interleaved_def p)
  show ?thesis
  proof (cases "i \<in> set order")
    case False
    with interleaved_execute [OF assms [unfolded p] True] show ?thesis unfolding p by blast
  next
    case in_order: True
    show ?thesis
    proof (cases "ts ! i = Running False [Commit None]")
      case c: True
      from interleaved_commit [OF assms [unfolded p] True c] show ?thesis unfolding p by blast
    next
      case False
      with at(1) in_order have "(\<exists>e. ts ! i = Raised e) \<or> ts ! i = Returned" by (auto simp: thread_at_def split: sum.splits)
      then have "task_step (ts ! i) c = (ts ! i, c)" by auto
      then have "sys_step i p = p" using at(2) True by (simp add: sys_step_def p)
      with assms show ?thesis by auto
    qed
  qed
next
  case False
  with assms have "sys_step i p = p" by (simp add: sys_step_def interleaved_def)
  with assms show ?thesis by auto
qed

lemma interleaved_run:
  "interleaved fs d order k p \<Longrightarrow> \<exists>order' k'. interleaved fs d order' k' (run_schedule sched p)"
proof (induction sched arbitrary: order k p)
  case (Cons i sched)
  from interleaved_step [OF Cons.prems] obtain order' k' where "interleaved fs d order' k' (sys_step i p)" by blast
  from Cons.IH [OF this] show ?case by simp
qed auto

section \<open>What it gives\<close>

lemma thread_ended:
  assumes "thread_at fs order k d i t" and "ended t" and "i \<in> set order"
  shows "t = task_of (serial_answer fs order d i)"
  using assms by (cases "serial_answer fs order d i") (auto simp: thread_at_def)

lemma interleaved_ended:
  assumes inv: "interleaved fs d order k p" and "\<forall>t \<in> set (fst p). ended t"
  shows "set order = {..<length fs} \<and> cn_disk (snd p) = serial_state fs order d \<and> cn_work (snd p) = cn_disk (snd p) \<and>
    (\<forall>i < length fs. fst p ! i = task_of (serial_answer fs order d i))"
proof -
  have len: "length (fst p) = length fs" using inv by (simp add: interleaved_def)
  have end_at: "ended (fst p ! i)" if "i < length fs" for i using assms(2) that len by simp
  have at: "thread_at fs order k d i (fst p ! i)" if "i < length fs" for i using inv that by (simp add: interleaved_def)
  have "i \<in> set order" if i: "i < length fs" for i
    using at [OF i] end_at [OF i] by (cases "i \<in> set order") (simp_all add: thread_at_def write_task_def)
  then have all: "set order = {..<length fs}" using inv by (auto simp: interleaved_def)
  have "fst p ! i = task_of (serial_answer fs order d i)" if i: "i < length fs" for i
    by (rule thread_ended) (use at [OF i] end_at [OF i] all i in simp_all)
  moreover have same: "cn_work (snd p) = cn_disk (snd p)"
  proof (rule ccontr)
    assume "cn_work (snd p) \<noteq> cn_disk (snd p)"
    then obtain i where i: "i < length fs" "fst p ! i = Running False [Commit None]"
      using inv unfolding interleaved_def by metis
    from end_at [OF i(1)] i(2) show False by simp
  qed
  moreover have "cn_work (snd p) = serial_state fs order d" using inv by (simp add: interleaved_def)
  ultimately show ?thesis using all by simp
qed

lemma thread_returned:
  assumes "thread_at fs order k d i Returned"
  shows "i \<in> set (take k order) \<and> serial_answer fs order d i = Inr ()"
proof (cases "i \<in> set order")
  case True
  with assms show ?thesis by (cases "serial_answer fs order d i") (simp_all add: thread_at_def)
next
  case False
  with assms show ?thesis by (simp add: thread_at_def write_task_def)
qed

lemma thread_raised:
  assumes "thread_at fs order k d i (Raised e)"
  shows "i \<in> set order \<and> serial_answer fs order d i = Inl e"
proof (cases "i \<in> set order")
  case True
  with assms show ?thesis by (cases "serial_answer fs order d i") (simp_all add: thread_at_def)
next
  case False
  with assms show ?thesis by (simp add: thread_at_def write_task_def)
qed

lemma interleaved_durable:
  assumes inv: "interleaved fs d order k p"
  shows "cn_disk (snd p) = serial_state fs (take k order) d \<and> distinct order \<and> set order \<subseteq> {..<length fs} \<and>
    (\<forall>i < length fs. fst p ! i = Returned \<longrightarrow> i \<in> set (take k order) \<and> serial_answer fs order d i = Inr ()) \<and>
    (\<forall>i < length fs. \<forall>e. fst p ! i = Raised e \<longrightarrow> i \<in> set order \<and> serial_answer fs order d i = Inl e)"
proof -
  have at: "thread_at fs order k d i (fst p ! i)" if "i < length fs" for i using inv that by (simp add: interleaved_def)
  have "i \<in> set (take k order) \<and> serial_answer fs order d i = Inr ()" if "i < length fs" "fst p ! i = Returned" for i
    by (rule thread_returned) (use at [OF that(1)] that(2) in simp)
  moreover have "i \<in> set order \<and> serial_answer fs order d i = Inl e" if "i < length fs" "fst p ! i = Raised e" for i e
    by (rule thread_raised) (use at [OF that(1)] that(2) in simp)
  ultimately show ?thesis using inv by (simp add: interleaved_def)
qed

end
