(* ===== verification/Shared_Connection.thy ===== *)
theory Shared_Connection
  imports Db_Interleaving Provider_Service Identity_Service Context_Catalog Snapshot_Store
begin

text \<open>
  The tasks of the services on the shared connection: the single writes of the registries and of
  the audit log (no lock, no \<open>try\<close>), and the promotion of a snapshot (\<open>BEGIN IMMEDIATE\<close> inside a
  \<open>try\<close> with a rollback, under a lock that only the repository takes).
\<close>

section \<open>The database and the tasks\<close>

record store_db =
  so_contexts :: context_db
  so_server :: server_db

definition stmt_of :: "(py_exc, 'd, unit) prog \<Rightarrow> 'd stmt" where
  "stmt_of m = (\<lambda>d. case m d of (Inl e, _) \<Rightarrow> Inl e | (Inr _, d') \<Rightarrow> Inr d')"

definition server_stmt :: "unit svc \<Rightarrow> store_db stmt" where
  "server_stmt m = (\<lambda>d. case stmt_of m (so_server d) of Inl e \<Rightarrow> Inl e | Inr s \<Rightarrow> Inr (d\<lparr>so_server := s\<rparr>))"

definition contexts_sql :: "context_db stmt \<Rightarrow> store_db stmt" where
  "contexts_sql f = (\<lambda>d. case f (so_contexts d) of Inl e \<Rightarrow> Inl e | Inr s \<Rightarrow> Inr (d\<lparr>so_contexts := s\<rparr>))"

datatype 'm write_request =
    RegisterProvider provider_create string        \<comment> \<open>\<open>datetime('now')\<close> of the insert\<close>
  | RegisterIdentity identity_create string
  | UpdateProvider string string provider_update string  \<comment> \<open>name, namespace, fields and time\<close>
  | SetEnabled string string bool string
  | RecordHealth string string bool string
  | WriteAudit audit_args string string            \<comment> \<open>trace id and time\<close>
  | DropContext "'m catalog_entry" datetime string
  | RecordExecution string int datetime string     \<comment> \<open>context id, version, time, \<open>datetime('now')\<close>\<close>

fun request_stmt :: "'m write_request \<Rightarrow> store_db stmt" where
  "request_stmt (RegisterProvider q now) = server_stmt (bindP (bind_int (pc_timeout_ms q)) (\<lambda>_. insert_provider q now))"
| "request_stmt (RegisterIdentity q now) = server_stmt (insert_identity q now)"
| "request_stmt (UpdateProvider name ns u now) =
     server_stmt (bindP (case pu_timeout_ms u of Some (Some t) \<Rightarrow> bind_int t | _ \<Rightarrow> ret ()) (\<lambda>_.
       modify_provider name ns (apply_update u now)))"
| "request_stmt (SetEnabled name ns b now) =
     server_stmt (modify_provider name ns (\<lambda>r. r\<lparr>pr_enabled := (if b then 1 else 0), pr_updated_at := now\<rparr>))"
| "request_stmt (RecordHealth name ns success now) = server_stmt (modify_provider name ns (health_row success now))"
| "request_stmt (WriteAudit a trace_id now) = server_stmt (modP (insert_audit a trace_id now))"
| "request_stmt (DropContext e now db_now) = contexts_sql (stmt_of (drop_context (\<lambda>_. None) db_now now e))"
| "request_stmt (RecordExecution c v executed db_now) = contexts_sql (stmt_of (record_execution (\<lambda>_. None) db_now c v executed))"

definition request_task :: "'m write_request \<Rightarrow> store_db task" where
  "request_task q = Running False (write_actions (request_stmt q))"

definition promotion_stmts ::
  "stmt_faults \<Rightarrow> codec \<Rightarrow> string \<Rightarrow> 'm catalog_entry \<Rightarrow> snapshot_meta \<Rightarrow> string \<Rightarrow> string \<Rightarrow> membership_change list \<Rightarrow> context_db stmt list" where
  "promotion_stmts fault cd db_now e m payload score_payload events =
     (let c = en_context_id e; v = sm_version m in
      [stmt_of (statement fault 1 [v] (insert_payload
         \<lparr>py_context_id = c, py_version = v, py_membership_blob = payload, py_score_blob = Some score_payload\<rparr>)),
       stmt_of (statement fault 2 [v, sm_member_count m, en_version e] (insert_snapshot (building_row cd e m payload score_payload))),
       stmt_of (statement fault 3 [] (\<lambda>s. Inr (s\<lparr>cd_snapshots := map (supersede c (isoformat (sm_computed_at m))) (cd_snapshots s)\<rparr>))),
       stmt_of (statement fault 4 [v] (set_current c v)),
       stmt_of (statement fault 5 [v, en_version e] (\<lambda>s. Inr (s\<lparr>cd_contexts := map (note_refresh db_now e v) (cd_contexts s)\<rparr>)))] @
      map (\<lambda>(k, ev). stmt_of (statement fault k [mc_entity_id ev, mc_context_version ev, en_version e]
                                (\<lambda>s. Inr (insert_or_ignore_history cd e v ev s))))
        (enumerate 6 events))"

definition promotion_actions ::
  "stmt_faults \<Rightarrow> codec \<Rightarrow> string \<Rightarrow> 'm catalog_entry \<Rightarrow> snapshot_meta \<Rightarrow> string \<Rightarrow> string \<Rightarrow> membership_change list \<Rightarrow> store_db sql list" where
  "promotion_actions fault cd db_now e m payload score_payload events =
     transaction_actions (fault 0)
       (map contexts_sql (promotion_stmts fault cd db_now e m payload score_payload events)) (fault (6 + length events))"

section \<open>A promotion alone\<close>

lemma stmt_of_statement:
  "statement fault k binds f s = (case stmt_of (statement fault k binds f) s of Inl e \<Rightarrow> (Inl e, s) | Inr s' \<Rightarrow> (Inr (), s'))"
  by (auto simp: stmt_of_def statement_def split: option.split sum.split)

lemma run_stmts_append: "run_stmts (fs @ gs) d = (case run_stmts fs d of Inl e \<Rightarrow> Inl e | Inr d' \<Rightarrow> run_stmts gs d')"
  by (induction fs arbitrary: d) (auto split: sum.split)

lemma run_contexts_sql:
  "run_stmts (map contexts_sql fs) d = (case run_stmts fs (so_contexts d) of Inl e \<Rightarrow> Inl e | Inr s \<Rightarrow> Inr (d\<lparr>so_contexts := s\<rparr>))"
  by (induction fs arbitrary: d) (auto simp: contexts_sql_def split: sum.split)

definition prog_runs :: "(py_exc, 'd, unit) prog \<Rightarrow> 'd stmt list \<Rightarrow> bool" where
  \<comment> \<open>the program raises and returns as the statements do\<close>
  "prog_runs m fs \<longleftrightarrow> (\<forall>d. stmt_of m d = run_stmts fs d)"

lemma prog_runs_bind:
  assumes "prog_runs m fs" and "prog_runs n gs"
  shows "prog_runs (bindP m (\<lambda>_. n)) (fs @ gs)"
proof -
  have bind: "stmt_of (bindP m (\<lambda>_. n)) d = (case stmt_of m d of Inl e \<Rightarrow> Inl e | Inr d' \<Rightarrow> stmt_of n d')" for d
    by (auto simp: stmt_of_def bindP_run split: prod.splits sum.splits)
  from assms show ?thesis by (simp add: prog_runs_def bind run_stmts_append cong: sum.case_cong)
qed

lemma prog_runs_one: "prog_runs m [stmt_of m]"
  by (simp add: prog_runs_def split: sum.split)

lemma prog_runs_statement: "prog_runs n gs \<Longrightarrow> prog_runs (bindP m (\<lambda>_. n)) (stmt_of m # gs)"
  using prog_runs_bind [OF prog_runs_one, of n gs m] by simp

lemma insert_history_runs:
  "prog_runs (insert_history fault cd e v k events)
    (map (\<lambda>(k, ev). stmt_of (statement fault k [mc_entity_id ev, mc_context_version ev, en_version e]
        (\<lambda>s. Inr (insert_or_ignore_history cd e v ev s)))) (enumerate k events))"
proof (induction events arbitrary: k)
  case Nil
  then show ?case by (simp add: prog_runs_def stmt_of_def)
next
  case (Cons ev events)
  then show ?case by (simp add: prog_runs_statement)
qed

lemma promote_statements_runs:
  "prog_runs (promote_statements fault cd db_now e m payload score_payload events)
    (stmt_of (statement fault 0 [] Inr) # promotion_stmts fault cd db_now e m payload score_payload events @
     [stmt_of (statement fault (6 + length events) [] Inr)])"
  unfolding promote_statements_def promotion_stmts_def Let_def append_Cons append_Nil append_assoc
  by (intro prog_runs_statement prog_runs_bind [OF insert_history_runs] prog_runs_one)

lemma stmt_of_marker: "stmt_of (statement fault k [] Inr) d = (case fault k of Some e \<Rightarrow> Inl e | None \<Rightarrow> Inr d)"
  by (simp add: stmt_of_def statement_def split: option.split)

lemma promotion_alone:
  "run_actions True (promotion_actions fault cd db_now e m payload score_payload events) (idle d) =
    (case transaction (promote_statements fault cd db_now e m payload score_payload events) (so_contexts d) of
       (r, s) \<Rightarrow> (r, idle (d\<lparr>so_contexts := s\<rparr>)))"
proof -
  let ?p = "promote_statements fault cd db_now e m payload score_payload events"
  let ?fs = "promotion_stmts fault cd db_now e m payload score_payload events"
  obtain r s where p: "?p (so_contexts d) = (r, s)" by fastforce
  have "stmt_of ?p (so_contexts d) = (case fault 0 of Some x \<Rightarrow> Inl x | None \<Rightarrow>
      (case run_stmts ?fs (so_contexts d) of Inl x \<Rightarrow> Inl x | Inr s \<Rightarrow>
        (case fault (6 + length events) of Some x \<Rightarrow> Inl x | None \<Rightarrow> Inr s)))"
    using promote_statements_runs [of fault cd db_now e m payload score_payload events]
    by (auto simp: prog_runs_def run_stmts_append stmt_of_marker split: option.split sum.split)
  then show ?thesis
    by (auto simp: promotion_actions_def transaction_alone run_contexts_sql transaction_def stmt_of_def p
        split: option.splits sum.splits)
qed


section \<open>A promotion as a task\<close>

definition promotion_task ::
  "stmt_faults \<Rightarrow> codec \<Rightarrow> string \<Rightarrow> 'm catalog_entry \<Rightarrow> snapshot_meta \<Rightarrow> string \<Rightarrow> string \<Rightarrow> membership_change list \<Rightarrow> store_db task" where
  "promotion_task fault cd db_now e m payload score_payload events =
     Running True (promotion_actions fault cd db_now e m payload score_payload events)"

lemma promotion_actions_length:
  "length (promotion_actions fault cd db_now e m payload sp events) = length events + 7"
  by (simp add: promotion_actions_def transaction_actions_def promotion_stmts_def Let_def)

text \<open>
  C16: on a connection that no other thread uses meanwhile, the SQL actions of a promotion, run one by one,
  end with exactly the result and the database of \<open>promote_snapshot\<close> in the repository model, for every
  fault at every statement, and leave no transaction open.
\<close>

theorem promotion_refines_repository:
  "case cd_encode_scores cd scores of
     Inl x \<Rightarrow> promote_snapshot fault cd db_now e m payload scores events (so_contexts d) = (Inl x, so_contexts d)
   | Inr sp \<Rightarrow> run_schedule (replicate (length events + 8 + n) 0) ([promotion_task fault cd db_now e m payload sp events], idle d) =
       (case promote_snapshot fault cd db_now e m payload scores events (so_contexts d) of
          (r, s) \<Rightarrow> ([task_of r], idle (d\<lparr>so_contexts := s\<rparr>)))"
proof (cases "cd_encode_scores cd scores")
  case (Inl x)
  then show ?thesis by (simp add: promote_snapshot_def bindP_run)
next
  case (Inr sp)
  let ?as = "promotion_actions fault cd db_now e m payload sp events"
  have "?as \<noteq> []" "Suc (length ?as) \<le> length events + 8 + n"
    unfolding promotion_actions_length by (simp_all add: promotion_actions_def transaction_actions_def)
  from task_alone [OF this, of True "idle d"] Inr show ?thesis
    by (simp add: promotion_task_def promotion_alone promote_snapshot_def bindP_run split: prod.split)
qed

section \<open>A write and a transaction together\<close>

lemma run_write_step: "task_step (write_task f) c =
    (case f (cn_work c) of Inl x \<Rightarrow> (Raised x, c\<lparr>cn_open := True\<rparr>)
     | Inr d \<Rightarrow> (Running False [Commit None], c\<lparr>cn_work := d, cn_open := True\<rparr>))"
  by (simp add: write_task_def write_actions_def split: sum.split)

text \<open>A write that raises leaves its transaction open, and the next promotion cannot begin.\<close>

lemma promotion_after_failed_write:
  assumes "f d = Inl x"
  shows "run_schedule [0, 1, 1] ([write_task f, Running True (transaction_actions b fs ft)], idle d) =
    ([Raised x, Raised nested_begin], idle d)"
  using assms by (simp add: sys_step_def run_write_step transaction_actions_def idle_def roll_back_def)

text \<open>A commit of another thread inside the transaction commits half of it; the rollback does not undo that half.\<close>

lemma half_transaction_committed:
  assumes "g d = Inr d1" and "f d1 = Inr d2" and "h d2 = Inl x"
  shows "run_schedule [1, 1, 0, 0, 1, 1] ([write_task f, Running True (transaction_actions None (g # h # fs) ft)], idle d) =
    ([Returned, Raised x], idle d2)"
  using assms by (simp add: sys_step_def run_write_step transaction_actions_def idle_def roll_back_def)

lemma acknowledged_then_lost:
  assumes "f d = Inr d'"
  shows "run_schedule [0, 1, 1, 0] ([write_task f, Running True (transaction_actions b fs ft)], idle d) =
    ([Returned, Raised nested_begin], idle d)"
  using assms by (simp add: sys_step_def run_write_step transaction_actions_def idle_def roll_back_def)


end
