(* ===== verification/Concurrent_Writes.thy ===== *)
theory Concurrent_Writes
  imports Shared_Connection Context_Examples
begin

text \<open>
  Requests that run in parallel on the shared connection: what one order of the same writes gives,
  what survives a crash, who gets a name that several register, and how a write and a promotion
  disturb each other.
\<close>

section \<open>What a write leaves of the tables\<close>

definition registered :: "'m write_request \<Rightarrow> (string \<times> string \<times> string) option" where
  \<comment> \<open>the table and the key that a registration takes\<close>
  "registered q =
     (case q of
        RegisterProvider p _ \<Rightarrow> Some (''providers'', pc_name p, pc_namespace p)
      | RegisterIdentity p _ \<Rightarrow> Some (''identity_maps'', ic_name p, ic_namespace p)
      | _ \<Rightarrow> None)"

definition taken :: "store_db \<Rightarrow> (string \<times> string \<times> string) set" where
  "taken d = Pair ''providers'' ` provider_key ` set (sd_providers (so_server d)) \<union>
     Pair ''identity_maps'' ` identity_key ` set (sd_identity (so_server d))"

definition store_ok :: "store_db \<Rightarrow> bool" where
  "store_ok d \<longleftrightarrow> provider_wf (so_server d) \<and> identity_wf (so_server d)"

lemma modify_stmt: "server_stmt (modify_provider n ns f) d =
    Inr (d\<lparr>so_server := (so_server d)\<lparr>sd_providers := update_key provider_key (n, ns) f (sd_providers (so_server d))\<rparr>\<rparr>)"
  by (simp add: server_stmt_def stmt_of_def modify_provider_def)

lemma insert_audit_rest [simp]:
  "sd_providers (insert_audit a i t s) = sd_providers s" "sd_providers_seq (insert_audit a i t s) = sd_providers_seq s"
  "sd_identity (insert_audit a i t s) = sd_identity s" "sd_identity_seq (insert_audit a i t s) = sd_identity_seq s"
  by (simp_all add: insert_audit_def Let_def)

lemma request_stmt_provider: "request_stmt (RegisterProvider p t) d =
    (if \<not> int64_ok (pc_timeout_ms p) then Inl overflow_error
     else if (pc_name p, pc_namespace p) \<in> provider_key ` set (sd_providers (so_server d))
     then Inl (IntegrityError ''UNIQUE constraint failed: providers.name, providers.namespace'')
     else Inr (d\<lparr>so_server := (so_server d)\<lparr>
       sd_providers := sd_providers (so_server d) @ [new_provider p (sd_providers_seq (so_server d) + 1) t],
       sd_providers_seq := sd_providers_seq (so_server d) + 1\<rparr>\<rparr>))"
  by (simp add: server_stmt_def stmt_of_def bindP_run bind_int_def insert_provider_def insert_unique_def)

lemma request_stmt_identity: "request_stmt (RegisterIdentity p t) d =
    (if (ic_name p, ic_namespace p) \<in> identity_key ` set (sd_identity (so_server d))
     then Inl (IntegrityError ''UNIQUE constraint failed: identity_maps.name, identity_maps.namespace'')
     else Inr (d\<lparr>so_server := (so_server d)\<lparr>
       sd_identity := sd_identity (so_server d) @ [new_identity p (sd_identity_seq (so_server d) + 1) t],
       sd_identity_seq := sd_identity_seq (so_server d) + 1\<rparr>\<rparr>))"
  by (simp add: server_stmt_def stmt_of_def insert_identity_def insert_unique_def)

text \<open>A request that is no registration changes rows in place, or other tables.\<close>

lemma other_request:
  assumes "registered q = None" and "request_stmt q d = Inr d'"
  shows "map provider_key (sd_providers (so_server d')) = map provider_key (sd_providers (so_server d)) \<and>
    map pr_id (sd_providers (so_server d')) = map pr_id (sd_providers (so_server d)) \<and>
    sd_providers_seq (so_server d') = sd_providers_seq (so_server d) \<and>
    sd_identity (so_server d') = sd_identity (so_server d) \<and> sd_identity_seq (so_server d') = sd_identity_seq (so_server d)"
proof -
  have rows: "map provider_key (update_key provider_key k f rows) = map provider_key rows"
    "map pr_id (update_key provider_key k f rows) = map pr_id rows" if "keeps_identity f" for k f rows
    using that by (auto simp: keeps_identity_def intro!: update_key_keys update_key_column)
  show ?thesis
  proof (cases q)
    case (UpdateProvider n ns u t)
    with assms(2) have "server_stmt (modify_provider n ns (apply_update u t)) d = Inr d'"
      by (auto simp: server_stmt_def stmt_of_def bindP_run bind_int_def guardP_run split: option.splits if_splits)
    then show ?thesis by (auto simp: modify_stmt rows)
  next
    case (SetEnabled n ns b t)
    with assms(2) show ?thesis unfolding request_stmt.simps SetEnabled modify_stmt by (auto simp: rows simp del: if_split)
  next
    case (RecordHealth n ns b t)
    with assms(2) show ?thesis by (auto simp: modify_stmt rows)
  next
    case (WriteAudit a i t)
    with assms(2) show ?thesis by (auto simp: server_stmt_def stmt_of_def)
  next
    case (DropContext e n t)
    with assms(2) show ?thesis by (auto simp: contexts_sql_def split: sum.splits)
  next
    case (RecordExecution c v a t)
    with assms(2) show ?thesis by (auto simp: contexts_sql_def split: sum.splits)
  qed (use assms(1) in \<open>simp_all add: registered_def\<close>)
qed

declare request_stmt.simps [simp del]

lemmas request_stmts = request_stmt_provider request_stmt_identity
lemmas server_wfs = provider_wf_def identity_wf_def

lemma keys_in_place:
  assumes "map provider_key (sd_providers s') = map provider_key (sd_providers s)"
    and "map pr_id (sd_providers s') = map pr_id (sd_providers s)" and "sd_providers_seq s' = sd_providers_seq s"
    and "sd_identity s' = sd_identity s" and "sd_identity_seq s' = sd_identity_seq s"
  shows "provider_wf s' = provider_wf s" and "identity_wf s' = identity_wf s"
    and "provider_key ` set (sd_providers s') = provider_key ` set (sd_providers s)"
proof -
  have bound: "(\<forall>r \<in> set rs. pr_id r \<le> n) \<longleftrightarrow> (\<forall>i \<in> set (map pr_id rs). i \<le> n)" for rs :: "provider_row list" and n by auto
  show "provider_wf s' = provider_wf s"
    unfolding provider_wf_def by (simp add: assms bound del: set_map list.set_map)
  show "identity_wf s' = identity_wf s" by (simp add: identity_wf_def assms)
  show "provider_key ` set (sd_providers s') = provider_key ` set (sd_providers s)"
    using assms(1) by (metis set_map)
qed

lemma provider_wf_insert:
  assumes "provider_wf s" and "(pc_name p, pc_namespace p) \<notin> provider_key ` set (sd_providers s)"
  shows "provider_wf (s\<lparr>sd_providers := sd_providers s @ [new_provider p (sd_providers_seq s + 1) t],
    sd_providers_seq := sd_providers_seq s + 1\<rparr>)"
  using assms by (force simp: provider_wf_def new_provider_def provider_key_def sorted_wrt_append)

lemma identity_wf_insert:
  assumes "identity_wf s" and "(ic_name p, ic_namespace p) \<notin> identity_key ` set (sd_identity s)"
  shows "identity_wf (s\<lparr>sd_identity := sd_identity s @ [new_identity p (sd_identity_seq s + 1) t],
    sd_identity_seq := sd_identity_seq s + 1\<rparr>)"
  using assms by (force simp: identity_wf_def new_identity_def identity_key_def sorted_wrt_append)

lemma request_keeps_ok:
  assumes "store_ok d" and "request_stmt q d = Inr d'"
  shows "store_ok d'"
proof (cases q)
  case (RegisterProvider p t)
  with assms have "provider_wf (so_server d')"
    by (auto simp: request_stmts store_ok_def provider_wf_insert split: if_splits)
  with assms RegisterProvider show ?thesis by (auto simp: request_stmts store_ok_def identity_wf_def split: if_splits)
next
  case (RegisterIdentity p t)
  with assms have "identity_wf (so_server d')"
    by (auto simp: request_stmts store_ok_def identity_wf_insert split: if_splits)
  with assms RegisterIdentity show ?thesis by (auto simp: request_stmts store_ok_def provider_wf_def split: if_splits)
qed (use other_request [OF _ assms(2)] keys_in_place [of "so_server d'" "so_server d"] assms(1) in
    \<open>simp_all add: registered_def store_ok_def\<close>)

lemma request_takes:
  assumes "request_stmt q d = Inr d'"
  shows "taken d \<subseteq> taken d' \<and> taken d' \<subseteq> taken d \<union> set_option (registered q) \<and>
    (\<forall>k. registered q = Some k \<longrightarrow> k \<notin> taken d \<and> k \<in> taken d')"
proof (cases q)
  case (RegisterProvider p t)
  with assms show ?thesis
    by (auto simp: request_stmts registered_def taken_def new_provider_def provider_key_def split: if_splits)
next
  case (RegisterIdentity p t)
  with assms show ?thesis
    by (auto simp: request_stmts registered_def taken_def new_identity_def identity_key_def split: if_splits)
qed (use other_request [OF _ assms] keys_in_place(3) [of "so_server d'" "so_server d"] in
    \<open>simp_all add: registered_def taken_def\<close>)

lemma request_refused:
  assumes "registered q = Some k" and "k \<notin> taken d" and "request_stmt q d = Inl e"
  shows "e = overflow_error"
  using assms by (cases q) (auto simp: request_stmts registered_def taken_def split: if_splits)

section \<open>The writes in one order\<close>

lemma serial_state_append: "serial_state fs (xs @ ys) d = serial_state fs ys (serial_state fs xs d)"
  by (simp add: serial_state_def)

lemma serial_answer_split:
  assumes "distinct (xs @ i # ys)"
  shows "serial_answer fs (xs @ i # ys) d i =
    (case (fs ! i) (serial_state fs xs d) of Inl e \<Rightarrow> Inl e | Inr _ \<Rightarrow> Inr ())"
proof -
  have "takeWhile (\<lambda>j. j \<noteq> i) (xs @ i # ys) = xs"
    using assms by (subst takeWhile_append2) auto
  then show ?thesis by (simp add: serial_answer_def)
qed

lemma apply_request:
  assumes "i < length qs"
  obtains d' where "request_stmt (qs ! i) d = Inr d'" "apply_stmt (map request_stmt qs) i d = d'"
  | e where "request_stmt (qs ! i) d = Inl e" "apply_stmt (map request_stmt qs) i d = d"
  using assms by (cases "request_stmt (qs ! i) d") (simp_all add: apply_stmt_def)

lemma serial_ok:
  assumes "store_ok d" and "set order \<subseteq> {..<length qs}"
  shows "store_ok (serial_state (map request_stmt qs) order d)"
  using assms
proof (induction order rule: rev_induct)
  case (snoc i order)
  let ?d = "serial_state (map request_stmt qs) order d"
  from snoc.prems have "i < length qs" "store_ok ?d" using snoc.IH by simp_all
  then show ?case by (cases rule: apply_request [of i qs ?d]) (simp_all add: request_keeps_ok)
qed simp

lemma serial_taken:
  assumes "set order \<subseteq> {..<length qs}"
  shows "taken d \<subseteq> taken (serial_state (map request_stmt qs) order d)"
  using assms
proof (induction order rule: rev_induct)
  case (snoc i order)
  let ?d = "serial_state (map request_stmt qs) order d"
  from snoc.prems have "i < length qs" "taken d \<subseteq> taken ?d" using snoc.IH by simp_all
  then show ?case
    by (cases rule: apply_request [of i qs ?d]) (use request_takes [of "qs ! i" ?d] in auto)
qed simp

lemma no_later_winner:
  assumes order: "distinct (xs @ i # ys)" "set (xs @ i # ys) \<subseteq> {..<length qs}" "j \<in> set ys"
    and keys: "registered (qs ! i) = Some k" "registered (qs ! j) = Some k"
    and i: "serial_answer (map request_stmt qs) (xs @ i # ys) d i = Inr ()"
  shows "\<exists>e. serial_answer (map request_stmt qs) (xs @ i # ys) d j = Inl e"
proof -
  let ?fs = "map request_stmt qs"
  from order(3) obtain us vs where ys: "ys = us @ j # vs" by (meson split_list)
  have "i < length qs" "j < length qs" and us: "set us \<subseteq> {..<length qs}" using order ys by auto
  from i \<open>i < length qs\<close> obtain d1 where d1: "request_stmt (qs ! i) (serial_state ?fs xs d) = Inr d1"
    by (auto simp: serial_answer_split [OF order(1)] split: sum.splits)
  then have "serial_state ?fs (xs @ [i]) d = d1" using \<open>i < length qs\<close> by (simp add: apply_stmt_def)
  moreover have "k \<in> taken d1" using request_takes [OF d1] keys(1) by simp
  ultimately have "k \<in> taken (serial_state ?fs (xs @ i # us) d)"
    using serial_taken [OF us, of d1] serial_state_append [of ?fs "xs @ [i]" us d] by auto
  then have "\<not> (\<exists>d'. request_stmt (qs ! j) (serial_state ?fs (xs @ i # us) d) = Inr d')"
    using request_takes [of "qs ! j"] keys(2) by blast
  then obtain e where "request_stmt (qs ! j) (serial_state ?fs (xs @ i # us) d) = Inl e"
    by (cases "request_stmt (qs ! j) (serial_state ?fs (xs @ i # us) d)") auto
  then show ?thesis
    using serial_answer_split [of "xs @ i # us" j vs ?fs d] order(1) \<open>j < length qs\<close> by (simp add: ys)
qed

lemma one_winner:
  assumes "distinct order" "set order \<subseteq> {..<length qs}" "i \<in> set order" "j \<in> set order"
    and "registered (qs ! i) = Some k" "registered (qs ! j) = Some k"
    and "serial_answer (map request_stmt qs) order d i = Inr ()" "serial_answer (map request_stmt qs) order d j = Inr ()"
  shows "i = j"
proof (rule ccontr)
  assume "i \<noteq> j"
  from assms(3) obtain xs ys where order: "order = xs @ i # ys" by (meson split_list)
  show False
  proof (cases "j \<in> set ys")
    case True
    from no_later_winner [of xs i ys qs j k d] True assms order show False by auto
  next
    case False
    with \<open>i \<noteq> j\<close> assms(4) order have "j \<in> set xs" by auto
    then obtain us vs where "xs = us @ j # vs" by (meson split_list)
    with no_later_winner [of us j "vs @ i # ys" qs i k d] assms order show False by auto
  qed
qed

lemma some_winner:
  assumes "distinct order" "set order \<subseteq> {..<length qs}"
    and "k \<notin> taken d" "k \<in> taken (serial_state (map request_stmt qs) order d)"
  shows "\<exists>j \<in> set order. registered (qs ! j) = Some k \<and> serial_answer (map request_stmt qs) order d j = Inr ()"
  using assms
proof (induction order rule: rev_induct)
  case (snoc i order)
  let ?fs = "map request_stmt qs"
  let ?d = "serial_state ?fs order d"
  from snoc.prems have i: "i < length qs" "i \<notin> set order" by simp_all
  show ?case
  proof (cases "k \<in> taken ?d")
    case True
    with snoc obtain j where "j \<in> set order" "registered (qs ! j) = Some k" "serial_answer ?fs order d j = Inr ()" by auto
    then show ?thesis by (intro bexI [of _ j]) (simp_all add: serial_answer_snoc)
  next
    case False
    from i(1) show ?thesis
    proof (cases rule: apply_request [of i qs ?d])
      case (1 d')
      with False snoc.prems(4) have "registered (qs ! i) = Some k" using request_takes [OF 1(1)] by auto
      moreover have "serial_answer ?fs (order @ [i]) d i = Inr ()" using 1 i by (simp add: serial_answer_snoc)
      ultimately show ?thesis by simp
    next
      case (2 e)
      with False snoc.prems(4) show ?thesis by simp
    qed
  qed
qed simp

lemma registration_leaves_key:
  assumes "distinct order" "set order \<subseteq> {..<length qs}" "i \<in> set order" "registered (qs ! i) = Some k"
    and "serial_answer (map request_stmt qs) order d i \<noteq> Inl overflow_error"
  shows "k \<in> taken (serial_state (map request_stmt qs) order d)"
proof -
  let ?fs = "map request_stmt qs"
  from assms(3) obtain xs ys where order: "order = xs @ i # ys" by (meson split_list)
  have i: "i < length qs" and ys: "set ys \<subseteq> {..<length qs}" using assms(2) order by auto
  let ?d = "serial_state ?fs xs d"
  from i have "k \<in> taken (apply_stmt ?fs i ?d)"
  proof (cases rule: apply_request [of i qs ?d])
    case (1 d')
    with request_takes [OF 1(1)] assms(4) show ?thesis by simp
  next
    case (2 e)
    with assms(5) have "e \<noteq> overflow_error"
      using serial_answer_split [of xs i ys ?fs d] assms(1) i by (simp add: order)
    with request_refused [OF assms(4) _ 2(1)] 2 show ?thesis by auto
  qed
  then show ?thesis
    using serial_taken [OF ys, of "apply_stmt ?fs i ?d"] by (auto simp: order serial_state_def)
qed

section \<open>Any interleaving\<close>

lemma request_tasks: "map request_task qs = map write_task (map request_stmt qs)"
  by (simp add: request_task_def write_task_def)

lemma requests_interleave:
  "\<exists>order k. interleaved (map request_stmt qs) d order k (run_schedule sched (map request_task qs, idle d))"
  unfolding request_tasks by (rule interleaved_run [OF interleaved_start])



text \<open>
  C14: when several parallel requests register the same name, and the name was free, then exactly one of
  them is answered with success, whatever the interleaving, and the name is in the table. (A request whose timeout does
  not fit the database is refused before it can take the name; one of the others is assumed.)
\<close>

theorem one_registration_wins:
  assumes "run_schedule sched (map request_task qs, idle d) = (ts, c)" and "\<forall>t \<in> set ts. ended t"
    and "i < length qs" and "registered (qs ! i) = Some k" and "k \<notin> taken d" and "ts ! i \<noteq> Raised overflow_error"
  shows "(\<exists>!j. j < length qs \<and> registered (qs ! j) = Some k \<and> ts ! j = Returned) \<and> k \<in> taken (cn_disk c)"
proof -
  let ?fs = "map request_stmt qs"
  from requests_interleave [of qs d sched] assms(1)
  obtain order n where inv: "interleaved ?fs d order n (ts, c)" by auto
  then have dist: "distinct order" by (simp add: interleaved_def)
  from interleaved_ended [OF inv] assms(2) have all: "set order = {..<length qs}"
    and disk: "cn_disk c = serial_state ?fs order d"
    and at: "\<And>j. j < length qs \<Longrightarrow> ts ! j = task_of (serial_answer ?fs order d j)" by auto
  have returned: "ts ! j = Returned \<longleftrightarrow> serial_answer ?fs order d j = Inr ()" if "j < length qs" for j
    using at [OF that] by (cases "serial_answer ?fs order d j") simp_all
  have sub: "set order \<subseteq> {..<length qs}" and i: "i \<in> set order" using all assms(3) by simp_all
  have "k \<in> taken (serial_state ?fs order d)"
  proof (rule registration_leaves_key [OF dist sub i assms(4)])
    show "serial_answer ?fs order d i \<noteq> Inl overflow_error" using at [OF assms(3)] assms(6) by auto
  qed
  moreover from some_winner [OF dist sub assms(5) this]
  obtain j where "j < length qs" "registered (qs ! j) = Some k" "serial_answer ?fs order d j = Inr ()" using all by auto
  moreover have "j1 = j2" if "j1 < length qs \<and> registered (qs ! j1) = Some k \<and> ts ! j1 = Returned"
    "j2 < length qs \<and> registered (qs ! j2) = Some k \<and> ts ! j2 = Returned" for j1 j2
    using one_winner [OF dist sub, of j1 j2 k] that all returned by auto
  ultimately show ?thesis using returned disk by auto
qed

section \<open>A race for a name\<close>

definition race_db :: store_db where
  "race_db = \<lparr>so_contexts = \<lparr>cd_contexts = [], cd_contexts_seq = 0, cd_snapshots = [], cd_payloads = [], cd_history = []\<rparr>, so_server = empty_db\<rparr>"

definition race :: "unit write_request list" where
  "race = [RegisterIdentity account_map ''2026-01-01 00:00:00'', RegisterIdentity account_map ''2026-01-01 00:00:01'']"

abbreviation race_key :: "string \<times> string \<times> string" where
  "race_key \<equiv> (''identity_maps'', ic_name account_map, ic_namespace account_map)"

lemma race_free: "race_key \<notin> taken race_db" "registered (race ! 0) = Some race_key" "registered (race ! Suc 0) = Some race_key"
  by (simp_all add: taken_def race_db_def empty_db_def race_def registered_def)

definition race_ends :: "store_db task list" where
  "race_ends = [Returned, Raised (IntegrityError ''UNIQUE constraint failed: identity_maps.name, identity_maps.namespace'')]"

lemma race_0: "length race = 2" "race_ends ! 0 = Returned"
  by (simp_all add: race_def race_ends_def)

lemma race_runs:
  "\<exists>c. run_schedule [0, 1, 1, 0] (map request_task race, idle race_db) =
    (race_ends, c)"
  by (simp add: race_ends_def race_def request_task_def write_actions_def sys_step_def idle_def request_stmt_identity race_db_def empty_db_def
      identity_key_def new_identity_def)



lemma one_registration_wins_witness:
  "\<exists>c :: store_db conn. (\<exists>!j. j < length race \<and> registered (race ! j) = Some race_key \<and> race_ends ! j = Returned) \<and>
    race_key \<in> taken (cn_disk c)"
proof -
  from race_runs obtain c where run: "run_schedule [0, 1, 1, 0] (map request_task race, idle race_db) =
    (race_ends, c)" ..
  have "Suc 0 < length race" by (simp add: race_def)
  moreover have "\<forall>t \<in> set race_ends. ended t" "race_ends ! Suc 0 \<noteq> Raised overflow_error"
    by (simp_all add: race_ends_def overflow_error_def)
  ultimately show ?thesis using one_registration_wins [OF run _ _ race_free(3,1)] by blast
qed


end
