(* ===== verification/Db_Jobs.thy ===== *)
theory Db_Jobs
  imports Db_Connection
begin

text \<open>
  Writes and transactions on the shared connection that do not overlap. What one of them leaves for the next
  is what is committed and whether a transaction is still open; that is all the serial
  specification keeps.
\<close>

section \<open>The specification\<close>

datatype 'd job =
    WriteJob "'d stmt"                                            \<comment> \<open>\<open>execute\<close>, \<open>commit\<close>\<close>
  | TransactionJob "py_exc option" "'d stmt list" "py_exc option" \<comment> \<open>with the failures of \<open>BEGIN\<close> and \<open>COMMIT\<close>\<close>

fun serial_job :: "'d job \<Rightarrow> 'd \<times> bool \<Rightarrow> (py_exc + unit) \<times> ('d \<times> bool)" where
  "serial_job (WriteJob f) (d, _) = (case f d of Inl x \<Rightarrow> (Inl x, (d, True)) | Inr d' \<Rightarrow> (Inr (), (d', False)))"
| "serial_job (TransactionJob b fs ft) (d, open_before) =
     (if open_before then (Inl nested_begin, (d, False))
      else case (b, run_stmts fs d, ft) of
        (Some x, _, _) \<Rightarrow> (Inl x, (d, False))
      | (None, Inl x, _) \<Rightarrow> (Inl x, (d, False))
      | (None, Inr d', Some x) \<Rightarrow> (Inl x, (d, False))
      | (None, Inr d', None) \<Rightarrow> (Inr (), (d', False)))"

fun serial_jobs :: "'d job list \<Rightarrow> 'd \<times> bool \<Rightarrow> (py_exc + unit) list \<times> ('d \<times> bool)" where
  "serial_jobs [] s = ([], s)"
| "serial_jobs (j # js) s = (case serial_job j s of (r, s') \<Rightarrow> case serial_jobs js s' of (rs, t) \<Rightarrow> (r # rs, t))"

section \<open>The jobs as tasks\<close>

fun job_actions :: "'d job \<Rightarrow> 'd sql list" where
  "job_actions (WriteJob f) = write_actions f"
| "job_actions (TransactionJob b fs ft) = transaction_actions b fs ft"

fun guarded :: "'d job \<Rightarrow> bool" where
  "guarded (WriteJob f) = False"
| "guarded (TransactionJob b fs ft) = True"

definition job_task :: "'d job \<Rightarrow> 'd task" where
  "job_task j = Running (guarded j) (job_actions j)"

definition conn_of :: "'d \<times> bool \<Rightarrow> 'd conn" where
  "conn_of s = (idle (fst s))\<lparr>cn_open := snd s\<rparr>"

definition in_turn :: "nat \<Rightarrow> 'd job list \<Rightarrow> nat list" where
  \<comment> \<open>the threads from \<open>i\<close> on run one after the other, each to its end\<close>
  "in_turn i js = concat (map (\<lambda>(k, j). replicate (Suc (length (job_actions j))) k) (enumerate i js))"

lemma job_alone: "run_actions (guarded j) (job_actions j) (conn_of s) =
    (case serial_job j s of (r, s') \<Rightarrow> (r, conn_of s'))"
proof (cases j)
  case (WriteJob f)
  then show ?thesis
    using write_when_open [where f = f and d = "fst s" and b = "snd s"] by (cases s) (auto simp: conn_of_def idle_def split: sum.split)
next
  case (TransactionJob b fs ft)
  then show ?thesis
    using transaction_when_open [of b fs ft "fst s"] transaction_alone [of b fs ft "fst s"]
    by (cases s; cases "snd s"; cases b; cases "run_stmts fs (fst s)"; cases ft) (auto simp: conn_of_def idle_def)
qed

lemma job_actions_some: "job_actions j \<noteq> []"
  by (cases j) (simp_all add: write_actions_def transaction_actions_def)

lemma one_thread:
  assumes "i < length ts"
  shows "run_schedule (replicate n i) (ts, c) =
    (case run_schedule (replicate n 0) ([ts ! i], c) of (us, c') \<Rightarrow> (ts[i := us ! 0], c'))"
  using assms
proof (induction n arbitrary: ts c)
  case (Suc n)
  obtain t c' where step: "task_step (ts ! i) c = (t, c')" by fastforce
  with Suc.prems have "run_schedule (replicate (Suc n) i) (ts, c) = run_schedule (replicate n i) (ts[i := t], c')"
    by (simp add: sys_step_def)
  also have "\<dots> = (case run_schedule (replicate n 0) ([t], c') of (us, c') \<Rightarrow> (ts[i := us ! 0], c'))"
    using Suc.IH [of "ts[i := t]" c'] Suc.prems by simp
  finally show ?case using step by (simp add: sys_step_def)
qed simp

lemma job_in_turn:
  assumes "i < length ts" and "ts ! i = job_task j"
  shows "run_schedule (replicate (Suc (length (job_actions j))) i) (ts, conn_of s) =
    (case serial_job j s of (r, s') \<Rightarrow> (ts[i := task_of r], conn_of s'))"
  unfolding one_thread [OF assms(1)] assms(2) job_task_def task_alone [OF job_actions_some order_refl] job_alone
  by (simp add: case_prod_unfold)

lemma jobs_in_turn:
  "run_schedule (in_turn (length ts) js) (ts @ map job_task js, conn_of s) =
    (case serial_jobs js s of (rs, s') \<Rightarrow> (ts @ map task_of rs, conn_of s'))"
proof (induction js arbitrary: ts s)
  case (Cons j js)
  obtain r s' where r: "serial_job j s = (r, s')" by (cases "serial_job j s") auto
  have turn: "in_turn (length ts) (j # js) = replicate (Suc (length (job_actions j))) (length ts) @ in_turn (length (ts @ [task_of r])) js"
    by (simp add: in_turn_def)
  have "run_schedule (in_turn (length ts) (j # js)) (ts @ map job_task (j # js), conn_of s) =
      run_schedule (in_turn (length (ts @ [task_of r])) js) ((ts @ [task_of r]) @ map job_task js, conn_of s')"
    unfolding turn run_schedule_append
    using job_in_turn [of "length ts" "ts @ map job_task (j # js)" j s] r by simp
  also have "\<dots> = (case serial_jobs js s' of (rs, t) \<Rightarrow> ((ts @ [task_of r]) @ map task_of rs, conn_of t))"
    by (rule Cons.IH)
  finally show ?case using r by (simp add: case_prod_unfold)
qed (simp add: in_turn_def)


end
