(* ===== verification/Echo_Provider.thy ===== *)
theory Echo_Provider
  imports DeepSee_Providers
begin

text \<open>
  \<open>EchoMCPProvider\<close> of \<open>app/providers/mock.py\<close>: ids counted from one with scores \<open>round(i / count, 4)\<close>. The
  floats are exact here: a double is the rational it denotes. \<open>/\<close> on ints and \<open>round\<close> on a double are
  correctly rounded in Python, to the nearest double with ties to the even significand. The
  definition of the nearest double covers numbers from \<open>0\<close> to \<open>1\<close> above the subnormal ones, which is where the scores lie.
\<close>

section \<open>Doubles\<close>

definition round_half_even :: "rat \<Rightarrow> int" where
  "round_half_even x =
     (let f = \<lfloor>x\<rfloor>; r = x - of_int f in
      if r < 1 / 2 then f else if 1 / 2 < r then f + 1 else if even f then f else f + 1)"

lemma half_ceiling:
  assumes "1 < (x :: rat)"
  shows "\<lceil>x / 2\<rceil> < \<lceil>x\<rceil>"
proof (cases "x < 2")
  case True
  then have "\<lceil>x / 2\<rceil> \<le> 1" by (simp add: ceiling_le_one)
  moreover have "1 < \<lceil>x\<rceil>" using assms by (simp add: less_ceiling_iff)
  ultimately show ?thesis by linarith
next
  case False
  then have "x / 2 \<le> x - 1" by simp
  then have "\<lceil>x / 2\<rceil> \<le> \<lceil>x - 1\<rceil>" by (rule ceiling_mono)
  then show ?thesis by simp
qed

function binary_shift :: "rat \<Rightarrow> nat" where
  \<comment> \<open>how often a number below one is doubled to reach one\<close>
  "binary_shift q = (if 0 < q \<and> q < 1 then Suc (binary_shift (2 * q)) else 0)"
  by auto
termination
proof (relation "measure (\<lambda>q. nat \<lceil>1 / q\<rceil>)")
  fix q :: rat
  assume q: "0 < q \<and> q < 1"
  let ?x = "1 / q"
  have x: "1 < ?x" using q by simp
  have "\<lceil>?x / 2\<rceil> < \<lceil>?x\<rceil>" by (rule half_ceiling [OF x])
  moreover have "?x / 2 = 1 / (2 * q)" by (simp add: mult.commute)
  moreover have "0 < \<lceil>?x\<rceil>" using x unfolding zero_less_ceiling by linarith
  ultimately have "\<lceil>1 / (2 * q)\<rceil> < \<lceil>?x\<rceil> \<and> 0 < \<lceil>?x\<rceil>" by metis
  then show "(2 * q, q) \<in> measure (\<lambda>q. nat \<lceil>1 / q\<rceil>)" by (simp add: zless_nat_conj del: zero_less_ceiling)
qed simp

declare binary_shift.simps [simp del]

definition double_of :: "rat \<Rightarrow> rat" where
  "double_of q =
     (if q \<le> 0 then 0
      else of_int (round_half_even (q * 2 ^ (52 + binary_shift q))) / 2 ^ (52 + binary_shift q))"

definition round_4 :: "rat \<Rightarrow> rat" where
  "round_4 x = double_of (of_int (round_half_even (x * 10 ^ 4)) / 10 ^ 4)"

section \<open>The provider\<close>

definition echo_scores :: "int \<Rightarrow> rat list" where
  "echo_scores count = map (\<lambda>i. round_4 (double_of (of_int i / of_int count))) [1..count]"

definition echo_resolve :: "int option \<Rightarrow> int option \<Rightarrow> int list \<times> rat list" where
  "echo_resolve limit count_param = (echo_entity_ids limit count_param, echo_scores (echo_count limit count_param))"

section \<open>Rounding is monotone\<close>

lemma round_half_even_bounds: "\<lfloor>x\<rfloor> \<le> round_half_even x" "round_half_even x \<le> \<lfloor>x\<rfloor> + 1"
  by (simp_all add: round_half_even_def Let_def)

lemma round_half_even_int [simp]: "round_half_even (of_int n) = n"
  by (simp add: round_half_even_def)

lemma round_half_even_mono:
  assumes "x \<le> y"
  shows "round_half_even x \<le> round_half_even y"
proof (cases "\<lfloor>x\<rfloor> = \<lfloor>y\<rfloor>")
  case True
  with assms show ?thesis by (auto simp: round_half_even_def Let_def)
next
  case False
  with floor_mono [OF assms] have "\<lfloor>x\<rfloor> + 1 \<le> \<lfloor>y\<rfloor>" by simp
  with round_half_even_bounds [of x] round_half_even_bounds [of y] show ?thesis by linarith
qed

lemma binary_shift_low: "0 < q \<Longrightarrow> 1 \<le> q * 2 ^ binary_shift q"
proof (induction q rule: binary_shift.induct)
  case (1 q)
  show ?case
  proof (cases "q < 1")
    case True
    with 1 have "1 \<le> 2 * q * 2 ^ binary_shift (2 * q)" by simp
    with True 1(2) show ?thesis by (simp add: binary_shift.simps [of q] mult.assoc mult.left_commute)
  qed (simp add: binary_shift.simps [of q])
qed

lemma binary_shift_high: "0 < q \<Longrightarrow> q < 2 \<Longrightarrow> q * 2 ^ binary_shift q < 2"
proof (induction q rule: binary_shift.induct)
  case (1 q)
  show ?case
  proof (cases "q < 1")
    case True
    with 1 have "2 * q * 2 ^ binary_shift (2 * q) < 2" by simp
    with True 1(2) show ?thesis by (simp add: binary_shift.simps [of q] mult.assoc mult.left_commute)
  qed (use 1 in \<open>simp add: binary_shift.simps [of q]\<close>)
qed

lemma binary_shift_antimono: "0 < q \<Longrightarrow> q \<le> q' \<Longrightarrow> binary_shift q' \<le> binary_shift q"
proof (induction q arbitrary: q' rule: binary_shift.induct)
  case (1 q)
  show ?case
  proof (cases "q' < 1")
    case True
    with 1(2,3) have q: "0 < q \<and> q < 1" "0 < q'" by auto
    from 1(1) [OF q(1), of "2 * q'"] 1(2,3) show ?thesis
      by (simp add: binary_shift.simps [of q] binary_shift.simps [of q'] q True)
  qed (simp add: binary_shift.simps [of q'])
qed

abbreviation scale :: "nat \<Rightarrow> rat" where
  "scale k \<equiv> 2 ^ (52 + k)"

lemma double_of_pos: "0 < q \<Longrightarrow> double_of q = of_int (round_half_even (q * scale (binary_shift q))) / scale (binary_shift q)"
  by (simp add: double_of_def)

lemma round_half_even_le: "x \<le> of_int n \<Longrightarrow> round_half_even x \<le> n"
  using round_half_even_mono [of x "of_int n"] by simp

lemma round_half_even_ge: "of_int n \<le> x \<Longrightarrow> n \<le> round_half_even x"
  using round_half_even_mono [of "of_int n" x] by simp

lemma double_of_ge:
  assumes "0 < q"
  shows "1 / 2 ^ binary_shift q \<le> double_of q"
proof -
  let ?k = "binary_shift q"
  have "(2 :: rat) ^ 52 * 1 \<le> 2 ^ 52 * (q * 2 ^ ?k)" using binary_shift_low [OF assms] by (intro mult_left_mono) simp_all
  then have "of_int (2 ^ 52) \<le> q * scale ?k" by (simp add: power_add ac_simps)
  from round_half_even_ge [OF this] have "(of_int (2 ^ 52) :: rat) \<le> of_int (round_half_even (q * scale ?k))"
    unfolding of_int_le_iff .
  then show ?thesis using assms by (simp add: double_of_pos field_simps power_add)
qed

lemma double_of_le:
  assumes "0 < q" and "q < 2"
  shows "double_of q \<le> 2 / 2 ^ binary_shift q"
proof -
  let ?k = "binary_shift q"
  have "(2 :: rat) ^ 52 * (q * 2 ^ ?k) \<le> 2 ^ 52 * 2" using binary_shift_high [OF assms] by (intro mult_left_mono) simp_all
  then have "q * scale ?k \<le> of_int (2 ^ 53)" by (simp add: power_add ac_simps)
  from round_half_even_le [OF this] have "of_int (round_half_even (q * scale ?k)) \<le> (of_int (2 ^ 53) :: rat)"
    unfolding of_int_le_iff .
  then show ?thesis using assms by (simp add: double_of_pos field_simps power_add)
qed

lemma double_of_mono:
  assumes "q \<le> q'" and "q' \<le> 1"
  shows "double_of q \<le> double_of q'"
proof (cases "0 < q")
  case False
  have "0 \<le> double_of q'"
  proof (cases "0 < q'")
    case True
    have "0 \<le> 1 / (2 :: rat) ^ binary_shift q'" by simp
    also have "\<dots> \<le> double_of q'" by (rule double_of_ge [OF True])
    finally show ?thesis .
  qed (simp add: double_of_def)
  with False show ?thesis by (simp add: double_of_def)
next
  case True
  then have q': "0 < q'" "q < 2" using assms by simp_all
  let ?k = "binary_shift q" and ?k' = "binary_shift q'"
  show ?thesis
  proof (cases "?k = ?k'")
    case same: True
    have "q * scale ?k \<le> q' * scale ?k" using assms(1) by (intro mult_right_mono) simp_all
    from round_half_even_mono [OF this] show ?thesis
      using same True q' by (simp add: double_of_pos divide_right_mono)
  next
    case False
    with binary_shift_antimono [OF True assms(1)] have k: "Suc ?k' \<le> ?k" by simp
    have "double_of q \<le> 2 / 2 ^ ?k" by (rule double_of_le [OF True q'(2)])
    also have "\<dots> \<le> 2 / 2 ^ Suc ?k'" using k by (intro divide_left_mono power_increasing) simp_all
    also have "\<dots> = 1 / 2 ^ ?k'" by simp
    also have "\<dots> \<le> double_of q'" by (rule double_of_ge [OF q'(1)])
    finally show ?thesis .
  qed
qed

lemma double_of_1 [simp]: "double_of 1 = 1" and double_of_0 [simp]: "double_of 0 = 0"
proof -
  have "round_half_even (4503599627370496 :: rat) = 4503599627370496"
    using round_half_even_int [of 4503599627370496] by simp
  then show "double_of 1 = 1" by (simp add: double_of_def binary_shift.simps [of 1])
  show "double_of 0 = 0" by (simp add: double_of_def)
qed

lemma round_4_mono:
  assumes "x \<le> y" and "y \<le> 1"
  shows "round_4 x \<le> round_4 y"
proof -
  have "round_half_even (x * 10 ^ 4) \<le> round_half_even (y * 10 ^ 4)" using assms(1) by (intro round_half_even_mono) simp
  moreover have "round_half_even (y * 10 ^ 4) \<le> 10 ^ 4" using assms(2) by (intro round_half_even_le) simp
  then have "of_int (round_half_even (y * 10 ^ 4)) \<le> (of_int (10 ^ 4) :: rat)" unfolding of_int_le_iff .
  ultimately show ?thesis unfolding round_4_def by (intro double_of_mono) (simp_all add: divide_right_mono)
qed

lemma round_4_ends [simp]: "round_4 0 = 0" "round_4 1 = 1"
proof -
  have "round_half_even (10000 :: rat) = 10000" "round_half_even (0 :: rat) = 0"
    using round_half_even_int [of 10000] round_half_even_int [of 0] by simp_all
  then show "round_4 0 = 0" "round_4 1 = 1" by (simp_all add: round_4_def)
qed

lemma score_between:
  assumes "0 \<le> x" and "x \<le> y" and "y \<le> (1 :: rat)"
  shows "0 \<le> round_4 (double_of x)" "round_4 (double_of x) \<le> round_4 (double_of y)" "round_4 (double_of y) \<le> 1"
proof -
  have y: "double_of y \<le> 1" using double_of_mono [OF assms(3)] by simp
  have x: "0 \<le> double_of x" using double_of_mono [OF assms(1)] assms(2,3) by simp
  have xy: "double_of x \<le> double_of y" by (rule double_of_mono [OF assms(2,3)])
  show "0 \<le> round_4 (double_of x)" using round_4_mono [OF x] xy y by simp
  show "round_4 (double_of x) \<le> round_4 (double_of y)" by (rule round_4_mono [OF xy y])
  show "round_4 (double_of y) \<le> 1" using round_4_mono [OF y] by simp
qed

section \<open>What the provider promises\<close>

text \<open>
  The echo provider answers with as many scores as ids, each between \<open>0\<close> and \<open>1\<close>, never falling from one id to
  the next, and the last one is \<open>1\<close>.
\<close>

lemma sorted_map_on:
  fixes f :: "int \<Rightarrow> rat"
  assumes "\<And>i j. m \<le> i \<Longrightarrow> i \<le> j \<Longrightarrow> j \<le> n \<Longrightarrow> f i \<le> f j"
  shows "sorted (map f [m..n])"
  using assms by (auto simp: sorted_iff_nth_mono nth_upto)

lemma last_upto: "m \<le> n \<Longrightarrow> last [m..n] = n"
  by (simp add: upto_rec2)

lemma echo_scores_linear:
  assumes "echo_resolve limit count_param = (ids, scores)"
  shows "length scores = length ids \<and> sorted scores \<and> (\<forall>s \<in> set scores. 0 \<le> s \<and> s \<le> 1) \<and>
    (ids \<noteq> [] \<longrightarrow> last scores = 1 \<and> ids ! 0 = 1)"
proof -
  let ?n = "echo_count limit count_param"
  let ?s = "\<lambda>i :: int. round_4 (double_of (of_int i / of_int ?n))"
  from assms have ids: "ids = [1..?n]" and scores: "scores = map ?s [1..?n]"
    by (auto simp: echo_resolve_def echo_entity_ids_def echo_scores_def)
  have part: "0 \<le> (of_int i :: rat) / of_int ?n" "(of_int i :: rat) / of_int ?n \<le> 1" if "1 \<le> i" "i \<le> ?n" for i
    using that by (simp_all add: divide_le_eq)
  have step: "?s i \<le> ?s j" if "1 \<le> i" "i \<le> j" "j \<le> ?n" for i j
    by (rule score_between(2)) (use that part in \<open>simp_all add: divide_right_mono\<close>)
  have "sorted (map ?s [1..?n])"
    by (rule sorted_map_on) (auto intro: step)
  moreover have "0 \<le> ?s i \<and> ?s i \<le> 1" if "1 \<le> i" "i \<le> ?n" for i
    using score_between(1,3) [OF part(1) order_refl part(2)] that by blast
  moreover have "last (map ?s [1..?n]) = 1 \<and> [1..?n] ! 0 = 1" if "[1..?n] \<noteq> []"
  proof -
    have n: "1 \<le> ?n" using that by simp
    then have "last [1..?n] = ?n" by (rule last_upto)
    with that n show ?thesis by (simp add: last_map nth_upto)
  qed
  ultimately show ?thesis unfolding ids scores by auto
qed

end
