(* ===== verification/Routes.thy ===== *)
theory Routes
  imports Py_Text
begin

text \<open>
  The route table (\<open>app/api/routes.py\<close>, the decorators of the handlers and \<open>create_app\<close>): which handler a
  request reaches. Matching a path with a route is the framework's and is a parameter; its contract is the
  documented one, a variable stands for one segment, not empty and without a slash. Paths are
  the decoded ones the framework routes by. The documentation pages that FastAPI adds are not listed.
\<close>

section \<open>The table\<close>

record route =
  rt_method :: string
  rt_path :: string
  rt_endpoint :: string     \<comment> \<open>the name of the handler\<close>
  rt_status :: nat          \<comment> \<open>the status code it declares\<close>

abbreviation route_of :: "string \<Rightarrow> string \<Rightarrow> string \<Rightarrow> nat \<Rightarrow> route" where
  "route_of m p e n \<equiv> \<lparr>rt_method = m, rt_path = p, rt_endpoint = e, rt_status = n\<rparr>"

definition router :: "string \<Rightarrow> route list \<Rightarrow> route list" where
  \<comment> \<open>\<open>APIRouter(prefix=...)\<close> and the decorated handlers\<close>
  "router prefix rs = map (\<lambda>r. r\<lparr>rt_path := prefix @ rt_path r\<rparr>) rs"

definition include_router :: "route list \<Rightarrow> route list \<Rightarrow> route list" where
  "include_router parent child = parent @ child"

definition health_router :: "route list" where
  "health_router = router [] [route_of ''GET'' ''/health'' ''health'' 200]"

definition query_router :: "route list" where
  "query_router = router [] [route_of ''POST'' ''/query'' ''query'' 200]"

definition explain_router :: "route list" where
  "explain_router = router ''/query'' [route_of ''POST'' ''/explain'' ''explain_query'' 200]"

definition catalog_router :: "route list" where
  "catalog_router = router ''/contexts''
     [route_of ''POST'' ''/'' ''create_context'' 201, route_of ''GET'' ''/'' ''list_contexts'' 200,
      route_of ''GET'' ''/{name}'' ''get_context'' 200, route_of ''PUT'' ''/{name}'' ''update_context'' 200,
      route_of ''POST'' ''/{name}/validate'' ''validate_context'' 200,
      route_of ''POST'' ''/{name}/activate'' ''activate_context'' 200,
      route_of ''POST'' ''/{name}/retire'' ''retire_context'' 200, route_of ''DELETE'' ''/{name}'' ''delete_context'' 204,
      route_of ''GET'' ''/{name}/versions'' ''list_versions'' 200, route_of ''POST'' ''/{name}/preview'' ''preview_context'' 200,
      route_of ''POST'' ''/{name}/refresh'' ''refresh_context'' 200, route_of ''GET'' ''/{name}/snapshots'' ''list_snapshots'' 200,
      route_of ''GET'' ''/{name}/history'' ''list_history'' 200]"

definition providers_router :: "route list" where
  "providers_router = router ''/providers''
     [route_of ''POST'' ''/'' ''register_provider'' 201, route_of ''GET'' ''/'' ''list_providers'' 200,
      route_of ''GET'' ''/{name}'' ''describe_provider'' 200, route_of ''PUT'' ''/{name}'' ''update_provider'' 200,
      route_of ''POST'' ''/{name}/enable'' ''enable_provider'' 200, route_of ''POST'' ''/{name}/disable'' ''disable_provider'' 200,
      route_of ''GET'' ''/{name}/health'' ''provider_health'' 200]"

definition identity_router :: "route list" where
  "identity_router = router ''/identity-maps''
     [route_of ''POST'' ''/'' ''register_identity_map'' 201, route_of ''GET'' ''/'' ''list_identity_maps'' 200,
      route_of ''GET'' ''/{name}'' ''describe_identity_map'' 200]"

definition audit_router :: "route list" where
  "audit_router = router ''/audit'' [route_of ''GET'' ''/'' ''query_audit_log'' 200]"

definition api_router :: "route list" where
  "api_router = foldl include_router (router [] [])
     [health_router, query_router, explain_router, catalog_router, providers_router, identity_router, audit_router]"

definition create_app :: "route list" where
  "create_app = include_router [] api_router"

section \<open>Paths\<close>

fun segments :: "string \<Rightarrow> string list" where
  "segments [] = [[]]"
| "segments (c # s) = (if c = CHR ''/'' then [] # segments s else (case segments s of [] \<Rightarrow> [[c]] | u # us \<Rightarrow> (c # u) # us))"

definition is_var :: "string \<Rightarrow> bool" where
  "is_var seg = (seg \<noteq> [] \<and> hd seg = CHR ''{'' \<and> last seg = CHR ''}'')"

fun fill_segments :: "string list \<Rightarrow> string list \<Rightarrow> string list" where
  \<comment> \<open>the template with its variables replaced\<close>
  "fill_segments [] vs = []"
| "fill_segments (t # ts) vs =
     (if is_var t then (case vs of [] \<Rightarrow> [] | v # ws \<Rightarrow> v # fill_segments ts ws) else t # fill_segments ts vs)"

definition fill :: "string \<Rightarrow> string list \<Rightarrow> string" where
  "fill path vs = join_text ''/'' (fill_segments (segments path) vs)"

definition variables :: "string \<Rightarrow> nat" where
  "variables path = length (filter is_var (segments path))"

abbreviation segment_ok :: "string \<Rightarrow> bool" where
  "segment_ok v \<equiv> v \<noteq> [] \<and> CHR ''/'' \<notin> set v"

text \<open>
  What the framework documents of path matching. Paths with a line break are left out: there an end anchor
  of a regular expression may also match before the last character.
\<close>

type_synonym path_match = "string \<Rightarrow> string \<Rightarrow> string list option"

definition path_contract :: "path_match \<Rightarrow> bool" where
  "path_contract matches \<longleftrightarrow>
     (\<forall>t p vs. CHR 0x0A \<notin> set p \<longrightarrow>
        (matches t p = Some vs \<longleftrightarrow> length vs = variables t \<and> list_all segment_ok vs \<and> p = fill t vs))"

definition candidates :: "path_match \<Rightarrow> route list \<Rightarrow> string \<Rightarrow> string \<Rightarrow> (route \<times> string list) list" where
  \<comment> \<open>the routes that match a request, with the values of their variables\<close>
  "candidates matches rs m p =
     concat (map (\<lambda>r. if rt_method r = m then (case matches (rt_path r) p of Some vs \<Rightarrow> [(r, vs)] | None \<Rightarrow> []) else []) rs)"

section \<open>Segments\<close>

lemma segments_nonempty [simp]: "segments s \<noteq> []"
  by (cases s) (simp_all split: list.split)

lemma segments_no_slash: "seg \<in> set (segments s) \<Longrightarrow> CHR ''/'' \<notin> set seg"
proof (induction s arbitrary: seg)
  case (Cons c s)
  then show ?case by (auto split: if_splits list.splits)
qed simp

lemma segments_append: "CHR ''/'' \<notin> set u \<Longrightarrow> segments (u @ CHR ''/'' # s) = u # segments s"
  by (induction u) auto

lemma segments_one: "CHR ''/'' \<notin> set u \<Longrightarrow> segments u = [u]"
  by (induction u) auto

lemma segments_join:
  "us \<noteq> [] \<Longrightarrow> \<forall>u \<in> set us. CHR ''/'' \<notin> set u \<Longrightarrow> segments (join_text ''/'' us) = us"
proof (induction us rule: induct_list012)
  case (2 x)
  then show ?case by (simp add: segments_one)
next
  case (3 x y zs)
  then show ?case by (simp add: segments_append)
qed simp

lemma fill_segments_no_slash:
  "\<forall>t \<in> set ts. CHR ''/'' \<notin> set t \<Longrightarrow> \<forall>v \<in> set vs. CHR ''/'' \<notin> set v \<Longrightarrow> u \<in> set (fill_segments ts vs) \<Longrightarrow> CHR ''/'' \<notin> set u"
  by (induction ts vs rule: fill_segments.induct) (auto split: if_splits list.splits)

lemma fill_segments_length:
  "length vs = length (filter is_var ts) \<Longrightarrow> length (fill_segments ts vs) = length ts"
  by (induction ts vs rule: fill_segments.induct) (auto split: list.splits)

lemma segments_fill:
  assumes "length vs = variables t" and "list_all segment_ok vs"
  shows "segments (fill t vs) = fill_segments (segments t) vs"
  unfolding fill_def
proof (rule segments_join)
  show "fill_segments (segments t) vs \<noteq> []"
    using fill_segments_length [of vs "segments t"] assms(1) segments_nonempty [of t] by (auto simp: variables_def)
  show "\<forall>u \<in> set (fill_segments (segments t) vs). CHR ''/'' \<notin> set u"
    using fill_segments_no_slash [of "segments t" vs] segments_no_slash [of _ t] assms(2) by (auto simp: list_all_iff)
qed

lemma join_segments: "join_text ''/'' (segments p) = p"
proof (induction p)
  case (Cons c s)
  then show ?case by (cases "segments s"; cases "tl (segments s)") auto
qed simp

section \<open>A matcher\<close>

fun match_segments :: "string list \<Rightarrow> string list \<Rightarrow> string list option" where
  "match_segments [] [] = Some []"
| "match_segments (t # ts) (s # ss) =
     (if is_var t then (if s = [] then None else map_option ((#) s) (match_segments ts ss))
      else if t = s then match_segments ts ss else None)"
| "match_segments _ _ = None"

definition match_path :: path_match where
  "match_path t p = match_segments (segments t) (segments p)"

lemma match_segments_fill:
  "\<forall>s \<in> set ss. CHR ''/'' \<notin> set s \<Longrightarrow>
   match_segments ts ss = Some vs \<longleftrightarrow>
     length vs = length (filter is_var ts) \<and> list_all segment_ok vs \<and> ss = fill_segments ts vs"
proof (induction ts ss arbitrary: vs rule: match_segments.induct)
  case (2 t ts s ss)
  then show ?case by (cases vs) auto
qed (auto split: if_splits list.splits)

lemma match_path_iff:
  "match_path t p = Some vs \<longleftrightarrow> length vs = variables t \<and> list_all segment_ok vs \<and> p = fill t vs"
proof -
  have "match_path t p = Some vs \<longleftrightarrow>
      length vs = variables t \<and> list_all segment_ok vs \<and> segments p = fill_segments (segments t) vs"
    unfolding match_path_def variables_def by (rule match_segments_fill) (use segments_no_slash in blast)
  moreover have "segments p = fill_segments (segments t) vs \<longleftrightarrow> p = fill t vs"
    if "length vs = variables t" "list_all segment_ok vs"
    using segments_fill [OF that] join_segments [of p] by (auto simp: fill_def)
  ultimately show ?thesis by blast
qed

lemma match_path_contract: "path_contract match_path"
  by (simp add: path_contract_def match_path_iff)

lemma contract_match_path:
  assumes "path_contract matches" and "CHR 0x0A \<notin> set p"
  shows "matches t p = match_path t p"
proof (cases "match_path t p")
  case None
  then show ?thesis using assms match_path_iff [of t p] by (cases "matches t p") (auto simp: path_contract_def)
next
  case (Some vs)
  then show ?thesis using assms match_path_iff [of t p vs] by (simp add: path_contract_def)
qed

section \<open>Routes apart\<close>

fun apart :: "string list \<Rightarrow> string list \<Rightarrow> bool" where
  \<comment> \<open>no path matches both templates\<close>
  "apart [] [] = False"
| "apart (t # ts) (u # us) =
     ((if is_var t then \<not> is_var u \<and> u = [] else if is_var u then t = [] else t \<noteq> u) \<or> apart ts us)"
| "apart _ _ = True"

lemma apart_no_match: "apart ts us \<Longrightarrow> match_segments ts ss = Some vs \<Longrightarrow> match_segments us ss = None"
proof (induction ts us arbitrary: ss vs rule: apart.induct)
  case (2 t ts u us)
  show ?case
  proof (cases ss)
    case (Cons s ss')
    with 2 show ?thesis by (cases "match_segments ts ss'") (auto split: if_splits)
  qed simp
qed (auto elim: match_segments.elims)

fun unambiguous :: "(string \<times> string list) list \<Rightarrow> bool" where
  "unambiguous [] = True"
| "unambiguous (r # rs) =
     (list_all (\<lambda>r'. if fst r = fst r' then apart (snd r) (snd r') else True) rs \<and> unambiguous rs)"

lemmas table_defs = create_app_def api_router_def include_router_def router_def health_router_def query_router_def
  explain_router_def catalog_router_def providers_router_def identity_router_def audit_router_def

lemma create_app_templates: "map (\<lambda>r. (rt_method r, segments (rt_path r))) create_app = [
     (''GET'', [[], ''health'']), (''POST'', [[], ''query'']), (''POST'', [[], ''query'', ''explain'']),
     (''POST'', [[], ''contexts'', []]), (''GET'', [[], ''contexts'', []]), (''GET'', [[], ''contexts'', ''{name}'']),
     (''PUT'', [[], ''contexts'', ''{name}'']), (''POST'', [[], ''contexts'', ''{name}'', ''validate'']), (''POST'', [[], ''contexts'', ''{name}'', ''activate'']),
     (''POST'', [[], ''contexts'', ''{name}'', ''retire'']), (''DELETE'', [[], ''contexts'', ''{name}'']), (''GET'', [[], ''contexts'', ''{name}'', ''versions'']),
     (''POST'', [[], ''contexts'', ''{name}'', ''preview'']), (''POST'', [[], ''contexts'', ''{name}'', ''refresh'']), (''GET'', [[], ''contexts'', ''{name}'', ''snapshots'']),
     (''GET'', [[], ''contexts'', ''{name}'', ''history'']), (''POST'', [[], ''providers'', []]), (''GET'', [[], ''providers'', []]),
     (''GET'', [[], ''providers'', ''{name}'']), (''PUT'', [[], ''providers'', ''{name}'']), (''POST'', [[], ''providers'', ''{name}'', ''enable'']),
     (''POST'', [[], ''providers'', ''{name}'', ''disable'']), (''GET'', [[], ''providers'', ''{name}'', ''health'']), (''POST'', [[], ''identity-maps'', []]),
     (''GET'', [[], ''identity-maps'', []]), (''GET'', [[], ''identity-maps'', ''{name}'']), (''GET'', [[], ''audit'', []])]"
  by (simp add: table_defs)

lemma create_app_unambiguous: "unambiguous (map (\<lambda>r. (rt_method r, segments (rt_path r))) create_app)"
  unfolding create_app_templates by code_simp

section \<open>What the table gives\<close>

abbreviation template :: "route \<Rightarrow> string \<times> string list" where
  "template r \<equiv> (rt_method r, segments (rt_path r))"

lemma candidates_Cons: "candidates f (r # rs) m p =
    (if rt_method r = m then (case f (rt_path r) p of Some vs \<Rightarrow> [(r, vs)] | None \<Rightarrow> []) else []) @ candidates f rs m p"
  by (simp add: candidates_def)

lemma in_candidates: "(r, vs) \<in> set (candidates f rs m p) \<longleftrightarrow> r \<in> set rs \<and> rt_method r = m \<and> f (rt_path r) p = Some vs"
  by (fastforce simp: candidates_def split: if_splits option.splits)

lemma others_do_not_match:
  assumes "list_all (\<lambda>r'. if fst (template r) = fst r' then apart (snd (template r)) (snd r') else True) (map template rs)"
    and "match_path (rt_path r) p = Some vs"
  shows "candidates match_path rs (rt_method r) p = []"
proof -
  have "(r', ws) \<notin> set (candidates match_path rs (rt_method r) p)" for r' ws
  proof
    assume "(r', ws) \<in> set (candidates match_path rs (rt_method r) p)"
    then have r': "r' \<in> set rs" "rt_method r' = rt_method r" "match_path (rt_path r') p = Some ws" by (simp_all add: in_candidates)
    with assms(1) have "apart (segments (rt_path r)) (segments (rt_path r'))" by (auto simp: list_all_iff)
    from apart_no_match [OF this] assms(2) r'(3) show False by (auto simp: match_path_def)
  qed
  then show ?thesis by (metis list.set_intros(1) neq_Nil_conv surj_pair)
qed

lemma candidates_at_most_one: "unambiguous (map template rs) \<Longrightarrow> length (candidates match_path rs m p) \<le> 1"
proof (induction rs)
  case (Cons r rs)
  show ?case
  proof (cases "rt_method r = m \<and> match_path (rt_path r) p \<noteq> None")
    case True
    then obtain vs where "match_path (rt_path r) p = Some vs" "m = rt_method r" by auto
    with others_do_not_match [of r rs p vs] Cons.prems show ?thesis by (simp add: candidates_Cons)
  next
    case False
    with Cons show ?thesis by (auto simp: candidates_Cons)
  qed
qed (simp add: candidates_def)

lemma candidates_contract:
  assumes "path_contract matches" and "CHR 0x0A \<notin> set p"
  shows "candidates matches rs m p = candidates match_path rs m p"
  by (induction rs) (simp_all add: candidates_Cons contract_match_path [OF assms] candidates_def)

lemma set_join_text: "set (join_text sep us) \<subseteq> set sep \<union> \<Union> (set ` set us)"
  by (induction us rule: induct_list012) auto

lemma set_fill_segments: "set (fill_segments ts vs) \<subseteq> set ts \<union> set vs"
  by (induction ts vs rule: fill_segments.induct) (auto split: list.splits)

lemma set_segments: "u \<in> set (segments s) \<Longrightarrow> set u \<subseteq> set s"
proof (induction s arbitrary: u)
  case (Cons c s)
  then show ?case by (cases "segments s") (fastforce split: if_splits)+
qed simp

lemma set_fill: "set (fill t vs) \<subseteq> {CHR ''/''} \<union> set t \<union> \<Union> (set ` set vs)"
  using set_join_text [of "''/''" "fill_segments (segments t) vs"] set_fill_segments [of "segments t" vs] set_segments [of _ t]
  unfolding fill_def by fastforce

lemma create_app_no_newline: "r \<in> set create_app \<Longrightarrow> CHR 0x0A \<notin> set (rt_path r)"
  unfolding table_defs by auto





end
