(* ===== verification/Server_Log.thy ===== *)
theory Server_Log
  imports Json Py_Time
begin

text \<open>
  The log of the server (\<open>app/utils/logging.py\<close>): each record that reaches the root logger is one line of
  JSON on standard output. A handler is the text it writes for a record at a time; formatting a traceback is
  the standard library's (\<open>fmt\<close>), and the arguments are already put into the message.
\<close>

section \<open>The formatter\<close>

record 'x log_record =
  lr_levelname :: string
  lr_levelno :: int
  lr_name :: string
  lr_message :: string                 \<comment> \<open>\<open>getMessage()\<close>\<close>
  lr_exc_info :: "'x option option"    \<comment> \<open>\<open>exc_info\<close>, and its second item\<close>

definition log_entry :: "('x \<Rightarrow> string) \<Rightarrow> datetime \<Rightarrow> 'x log_record \<Rightarrow> (string, json) dict" where
  "log_entry fmt now r =
     [(''timestamp'', JStr (isoformat now)), (''level'', JStr (lr_levelname r)),
      (''logger'', JStr (lr_name r)), (''message'', JStr (lr_message r))] @
     (case lr_exc_info r of Some (Some x) \<Rightarrow> [(''exception'', JStr (fmt x))] | _ \<Rightarrow> [])"

definition json_format :: "('x \<Rightarrow> string) \<Rightarrow> datetime \<Rightarrow> 'x log_record \<Rightarrow> string" where
  "json_format fmt now r = json_dumps (JObj (log_entry fmt now r))"

section \<open>Setting it up\<close>

type_synonym 'x log_handler = "datetime \<Rightarrow> 'x log_record \<Rightarrow> string"

record 'x root_logger =
  rl_handlers :: "'x log_handler list"
  rl_level :: int

definition newline :: char where
  "newline = CHR 0x0A"

definition json_handler :: "('x \<Rightarrow> string) \<Rightarrow> 'x log_handler" where
  \<comment> \<open>\<open>StreamHandler(sys.stdout)\<close> with the formatter\<close>
  "json_handler fmt now r = json_format fmt now r @ [newline]"

definition upper_char :: "char \<Rightarrow> char" where
  \<comment> \<open>of the letters that occur in names of the \<open>logging\<close> module\<close>
  "upper_char c = (let n = (of_char c :: nat) in if 97 \<le> n \<and> n \<le> 122 then char_of (n - 32) else c)"

datatype level_attr = LevelNumber int | LevelText string | LevelOther

fun logging_attr :: "string \<Rightarrow> level_attr option" where
  \<comment> \<open>the attributes of \<open>logging\<close> whose names have no lower-case letter\<close>
  "logging_attr name =
     map_of [(''NOTSET'', LevelNumber 0), (''DEBUG'', LevelNumber 10), (''INFO'', LevelNumber 20), (''WARN'', LevelNumber 30),
       (''WARNING'', LevelNumber 30), (''ERROR'', LevelNumber 40), (''CRITICAL'', LevelNumber 50), (''FATAL'', LevelNumber 50),
       (''BASIC_FORMAT'', LevelText ''%(levelname)s:%(name)s:%(message)s''), (''_STYLES'', LevelOther)] name"

definition set_level :: "level_attr \<Rightarrow> (py_exc, 'x root_logger, unit) prog" where
  \<comment> \<open>\<open>setLevel\<close>: a number, or the name of a level\<close>
  "set_level a =
     (case a of
        LevelNumber n \<Rightarrow> modP (\<lambda>st. st\<lparr>rl_level := n\<rparr>)
      | LevelText t \<Rightarrow> raise (ValueError (''Unknown level: '' @ py_repr t))
      | LevelOther \<Rightarrow> raise (TypeError ''Level not an integer or a valid string''))"

definition setup_logging :: "('x \<Rightarrow> string) \<Rightarrow> string \<Rightarrow> (py_exc, 'x root_logger, unit) prog" where
  "setup_logging fmt level =
     bindP (modP (\<lambda>st. st\<lparr>rl_handlers := []\<rparr>)) (\<lambda>_.
     bindP (modP (\<lambda>st. st\<lparr>rl_handlers := rl_handlers st @ [json_handler fmt]\<rparr>)) (\<lambda>_.
     set_level (case logging_attr (map upper_char level) of Some a \<Rightarrow> a | None \<Rightarrow> LevelNumber 20)))"

definition emit :: "'x root_logger \<Rightarrow> datetime \<times> 'x log_record \<Rightarrow> string" where
  \<comment> \<open>what one record of a logger without a level of its own writes\<close>
  "emit st e = (if rl_level st \<le> lr_levelno (snd e) then concat (map (\<lambda>h. h (fst e) (snd e)) (rl_handlers st)) else [])"

definition log_output :: "'x root_logger \<Rightarrow> (datetime \<times> 'x log_record) list \<Rightarrow> string" where
  "log_output st es = concat (map (emit st) es)"

section \<open>Reading the log\<close>

fun lines_of :: "string \<Rightarrow> string list" where
  "lines_of [] = []"
| "lines_of (c # s) =
     (if c = newline then [] # lines_of s else case lines_of s of [] \<Rightarrow> [[c]] | l # ls \<Rightarrow> (c # l) # ls)"

lemma lines_of_line: "newline \<notin> set l \<Longrightarrow> lines_of (l @ newline # s) = l # lines_of s"
  by (induction l) auto

lemma no_newline_escape: "newline \<notin> set (json_escape c)"
proof -
  have "newline \<noteq> hex_digit n" if "n < 16" for n
  proof
    assume "newline = hex_digit n"
    then have "(of_char newline :: nat) = of_char (hex_digit n)" by simp
    with that show False by (simp add: newline_def hex_digit_def split: if_splits)
  qed
  moreover have "(of_char c :: nat) div 16 < 16" using nat_of_char_less_256 [of c] by linarith
  ultimately have "newline \<noteq> hex_digit (of_char c div 16)" "newline \<noteq> hex_digit (of_char c mod 16)" by simp_all
  then show ?thesis by (auto simp: json_escape_def Let_def newline_def split: if_splits)
qed

lemma no_newline_quote: "newline \<notin> set (json_quote s)"
  using no_newline_escape by (auto simp: json_quote_def newline_def)

lemma no_newline_format: "newline \<notin> set (json_format fmt now r)"
  using no_newline_quote
  by (auto simp: json_format_def log_entry_def newline_def join_text_Cons split: option.split)

lemma log_entry_reads: "json_loads fr (json_format fmt now r) = Some (JObj (log_entry fmt now r))"
  unfolding json_format_def by (rule json_loads_dumps) (auto simp: log_entry_def split: option.split)

lemma json_handler_lines:
  "lines_of (log_output \<lparr>rl_handlers = [json_handler fmt], rl_level = n\<rparr> es) =
    map (\<lambda>(now, r). json_format fmt now r) (filter (\<lambda>(now, r). n \<le> lr_levelno r) es)"
proof (induction es)
  case (Cons e es)
  then show ?case
    by (cases e) (simp add: log_output_def emit_def json_handler_def lines_of_line no_newline_format)
qed (simp add: log_output_def)

lemma setup_logging_number:
  assumes "(case logging_attr (map upper_char level) of Some a \<Rightarrow> a | None \<Rightarrow> LevelNumber 20) = LevelNumber n"
  shows "setup_logging fmt level st = (Inr (), \<lparr>rl_handlers = [json_handler fmt], rl_level = n\<rparr>)"
  unfolding setup_logging_def assms by (cases st) (simp add: bindP_run set_level_def)

lemma logging_attr_other:
  "logging_attr s = Some (LevelText t) \<Longrightarrow> s = ''BASIC_FORMAT''" "logging_attr s = Some LevelOther \<Longrightarrow> s = ''_STYLES''"
  by (auto split: if_splits)

declare logging_attr.simps [simp del]


definition demo_record :: "string log_record" where
  "demo_record = \<lparr>lr_levelname = ''WARNING'', lr_levelno = 30, lr_name = ''app.api.query'',
     lr_message = ''Query validation error: '' @ [newline, CHR 0x22], lr_exc_info = Some (Some ''Traceback'')\<rparr>"

definition demo_time :: datetime where
  "demo_time = \<lparr>dt_year = 2026, dt_month = 1, dt_day = 1, dt_hour = 0, dt_minute = 0, dt_second = 0, dt_micro = 0, dt_tz = Some 0\<rparr>"


end
